theory Spec2Isabelle
  imports Complex_Main "HOL-Library.Word"
begin

section \<open>PBR texture generation (src/nani/src/utils/pbrGenerator.ts)\<close>

text \<open>
  The generators of \<^verbatim>\<open>pbrGenerator.ts\<close> are embedded as HOL functions.

  \<^item> A \<^verbatim>\<open>Uint8ClampedArray\<close> is a list of 8-bit words.
  \<^item> A JavaScript number is an IEEE 754 double: a finite number \<open>Fin v\<close>, whose value
    \<open>v\<close> is a real that the format represents, one of the two infinities, or
    \<^verbatim>\<open>NaN\<close>. Every arithmetic operation rounds its exact result to the nearest
    double, a tie going to the even significand (\<open>double\<close>); a result beyond the
    largest double becomes an infinity, and the results near zero are rounded on the
    fixed grid of the subnormal numbers. A \<^verbatim>\<open>Float32Array\<close> rounds what is stored in
    it to single precision (\<open>single\<close>). A decimal literal of the source is the double
    nearest to it.
  \<^item> The sign of zero is not represented: the only zero divisor the generators can meet
    is the width or height 0 of \<^verbatim>\<open>maxSize / width\<close>, a positive zero.
  \<^item> Reading a typed array out of range gives \<^verbatim>\<open>undefined\<close>, which arithmetic turns
    into \<^verbatim>\<open>NaN\<close>.
  \<^item> Storing a number into a \<^verbatim>\<open>Uint8ClampedArray\<close> converts it as ECMAScript's
    \<^verbatim>\<open>ToUint8Clamp\<close> does: \<^verbatim>\<open>NaN\<close> becomes 0, the value is clamped to 0..255 and
    rounded to the nearest integer, a tie going to the even one.
\<close>

subsection \<open>Numbers\<close>

datatype number = Fin real | PInf | NInf | NaN

definition roundHalfEven :: "real \<Rightarrow> int" where
  "roundHalfEven v = (let f = \<lfloor>v\<rfloor> in
     if of_int f + 1 / 2 < v then f + 1
     else if v < of_int f + 1 / 2 then f
     else if even f then f else f + 1)"

function expoUp :: "real \<Rightarrow> int \<Rightarrow> int" where
  "expoUp a e = (if a < 2 powi (e + 1) then e else expoUp a (e + 1))"
  by pat_completeness auto

termination
proof (relation "measure (\<lambda>(a, e). nat (\<lceil>a\<rceil> - e))")
  show "wf (measure (\<lambda>(a, e). nat (\<lceil>a\<rceil> - e)))" by simp
next
  fix a :: real and e :: int
  assume "\<not> a < 2 powi (e + 1)"
  then have a: "2 powi (e + 1) \<le> a" by simp
  have "real_of_int e < a"
  proof (cases "0 \<le> e")
    case True
    have "real (nat e) < 2 ^ nat e" by (rule of_nat_less_two_power)
    moreover have "real_of_int e = real (nat e)" using True by simp
    moreover have "(0::real) < 2 ^ nat e" by simp
    ultimately have "real_of_int e < 2 * 2 ^ nat e" by linarith
    then have "real_of_int e < 2 powi (e + 1)"
      using True by (simp add: power_int_def nat_add_distrib)
    then show ?thesis using a by linarith
  next
    case False
    have "0 < (2::real) powi (e + 1)" by simp
    then show ?thesis using a False by linarith
  qed
  then have "e < \<lceil>a\<rceil>" by linarith
  then show "((a, e + 1), (a, e)) \<in> measure (\<lambda>(a, e). nat (\<lceil>a\<rceil> - e))" by simp
qed

function expoDown :: "int \<Rightarrow> real \<Rightarrow> int \<Rightarrow> int" where
  "expoDown emin a e = (if 2 powi e \<le> a \<or> e \<le> emin then e else expoDown emin a (e - 1))"
  by pat_completeness auto

termination
  by (relation "measure (\<lambda>(emin, a, e). nat (e - emin))") auto

definition expo :: "int \<Rightarrow> real \<Rightarrow> int" where
  "expo emin x = (if 1 \<le> \<bar>x\<bar> then expoUp \<bar>x\<bar> 0 else expoDown emin \<bar>x\<bar> (- 1))"

definition ulp :: "nat \<Rightarrow> int \<Rightarrow> real \<Rightarrow> real" where
  "ulp p emin x = 2 powi (expo emin x - int p + 1)"

definition nearest :: "nat \<Rightarrow> int \<Rightarrow> real \<Rightarrow> real" where
  "nearest p emin x = real_of_int (roundHalfEven (x / ulp p emin x)) * ulp p emin x"

definition roundTo :: "nat \<Rightarrow> int \<Rightarrow> int \<Rightarrow> real \<Rightarrow> number" where
  "roundTo p emin emax x =
     (if x = 0 then Fin 0
      else let q = nearest p emin x
           in if 2 powi (emax + 1) \<le> \<bar>q\<bar> then (if 0 < x then PInf else NInf) else Fin q)"

definition double :: "real \<Rightarrow> number" where
  "double = roundTo 53 (- 1022) 1023"

definition single :: "real \<Rightarrow> number" where
  "single = roundTo 24 (- 126) 127"

declare expoUp.simps [simp del] expoDown.simps [simp del]

definition fneg :: "number \<Rightarrow> number" where
  "fneg a = (case a of Fin u \<Rightarrow> Fin (- u) | PInf \<Rightarrow> NInf | NInf \<Rightarrow> PInf | NaN \<Rightarrow> NaN)"

definition fabs :: "number \<Rightarrow> number" where
  "fabs a = (case a of Fin u \<Rightarrow> Fin \<bar>u\<bar> | PInf \<Rightarrow> PInf | NInf \<Rightarrow> PInf | NaN \<Rightarrow> NaN)"

text \<open>The sign of a number that is not \<^verbatim>\<open>NaN\<close>: 1, 0 or -1.\<close>

definition signum :: "number \<Rightarrow> real" where
  "signum a = (case a of Fin u \<Rightarrow> sgn u | PInf \<Rightarrow> 1 | NInf \<Rightarrow> - 1 | NaN \<Rightarrow> 0)"

definition infinity :: "real \<Rightarrow> number" where
  "infinity s = (if 0 < s then PInf else NInf)"

definition fadd :: "number \<Rightarrow> number \<Rightarrow> number" where
  "fadd a b = (case (a, b) of
       (Fin u, Fin v) \<Rightarrow> double (u + v)
     | (NaN, _) \<Rightarrow> NaN
     | (_, NaN) \<Rightarrow> NaN
     | (PInf, NInf) \<Rightarrow> NaN
     | (NInf, PInf) \<Rightarrow> NaN
     | (PInf, _) \<Rightarrow> PInf
     | (_, PInf) \<Rightarrow> PInf
     | (NInf, _) \<Rightarrow> NInf
     | (_, NInf) \<Rightarrow> NInf)"

definition fsub :: "number \<Rightarrow> number \<Rightarrow> number" where
  "fsub a b = fadd a (fneg b)"

definition fmul :: "number \<Rightarrow> number \<Rightarrow> number" where
  "fmul a b = (case (a, b) of
       (Fin u, Fin v) \<Rightarrow> double (u * v)
     | (NaN, _) \<Rightarrow> NaN
     | (_, NaN) \<Rightarrow> NaN
     | _ \<Rightarrow> if signum a * signum b = 0 then NaN else infinity (signum a * signum b))"

definition fdiv :: "number \<Rightarrow> number \<Rightarrow> number" where
  "fdiv a b = (case (a, b) of
       (Fin u, Fin v) \<Rightarrow>
          if v = 0 then (if u = 0 then NaN else infinity u) else double (u / v)
     | (NaN, _) \<Rightarrow> NaN
     | (_, NaN) \<Rightarrow> NaN
     | (Fin u, _) \<Rightarrow> Fin 0
     | (_, Fin v) \<Rightarrow> infinity (if v < 0 then - signum a else signum a)
     | _ \<Rightarrow> NaN)"

definition fsqrt :: "number \<Rightarrow> number" where
  "fsqrt a = (case a of Fin u \<Rightarrow> if u < 0 then NaN else double (sqrt u)
     | PInf \<Rightarrow> PInf | NInf \<Rightarrow> NaN | NaN \<Rightarrow> NaN)"

definition ffloor :: "number \<Rightarrow> number" where
  "ffloor a = (case a of Fin u \<Rightarrow> Fin (real_of_int \<lfloor>u\<rfloor>) | _ \<Rightarrow> a)"

text \<open>The order of the numbers; \<^verbatim>\<open>NaN\<close> is not comparable.\<close>

definition nle :: "number \<Rightarrow> number \<Rightarrow> bool" where
  "nle a b = (case (a, b) of
       (NaN, _) \<Rightarrow> False
     | (_, NaN) \<Rightarrow> False
     | (NInf, _) \<Rightarrow> True
     | (_, PInf) \<Rightarrow> True
     | (Fin u, Fin v) \<Rightarrow> u \<le> v
     | _ \<Rightarrow> False)"

definition fmin :: "number \<Rightarrow> number \<Rightarrow> number" where
  "fmin a b = (if a = NaN \<or> b = NaN then NaN else if nle a b then a else b)"

definition fmax :: "number \<Rightarrow> number \<Rightarrow> number" where
  "fmax a b = (if a = NaN \<or> b = NaN then NaN else if nle a b then b else a)"

type_synonym byte = "8 word"

definition toUint8Clamp :: "number \<Rightarrow> byte" where
  "toUint8Clamp a = (case a of
       NaN \<Rightarrow> 0
     | NInf \<Rightarrow> 0
     | PInf \<Rightarrow> 255
     | Fin v \<Rightarrow>
         if v \<le> 0 then 0
         else if 255 \<le> v then 255
         else (let f = \<lfloor>v\<rfloor> in
           if of_int f + 1 / 2 < v then of_int (f + 1)
           else if v < of_int f + 1 / 2 then of_int f
           else if even f then of_int f
           else of_int (f + 1)))"

definition toFloat32 :: "number \<Rightarrow> number" where
  "toFloat32 a = (case a of Fin v \<Rightarrow> single v | _ \<Rightarrow> a)"

definition rd :: "byte list \<Rightarrow> nat \<Rightarrow> number" where
  "rd data i = (if i < length data then Fin (real (unat (data ! i))) else NaN)"

subsection \<open>Resizing (generatePBRTextures, lines 204-213)\<close>

definition maxSize :: nat where
  "maxSize = 1024"

definition toDim :: "number \<Rightarrow> nat" where
  "toDim a = (case a of Fin v \<Rightarrow> nat \<lfloor>v\<rfloor> | _ \<Rightarrow> 0)"

definition resizeDims :: "nat \<Rightarrow> nat \<Rightarrow> nat \<times> nat" where
  "resizeDims imgWidth imgHeight =
     (if imgWidth > maxSize \<or> imgHeight > maxSize then
        (let ratio = fmin (fdiv (Fin (real maxSize)) (Fin (real imgWidth)))
                          (fdiv (Fin (real maxSize)) (Fin (real imgHeight)))
         in (toDim (ffloor (fmul (Fin (real imgWidth)) ratio)),
             toDim (ffloor (fmul (Fin (real imgHeight)) ratio))))
      else (imgWidth, imgHeight))"

subsection \<open>Pixel access and helpers (lines 16-39)\<close>

definition SOBEL_X :: "int list list" where
  "SOBEL_X = [[-1, 0, 1], [-2, 0, 2], [-1, 0, 1]]"

definition SOBEL_Y :: "int list list" where
  "SOBEL_Y = [[-1, -2, -1], [0, 0, 0], [1, 2, 1]]"

definition getPixel :: "byte list \<Rightarrow> nat \<Rightarrow> nat \<Rightarrow> nat \<Rightarrow> number \<times> number \<times> number \<times> number" where
  "getPixel data width x y =
     (let idx = (y * width + x) * 4
      in (rd data idx, rd data (idx + 1), rd data (idx + 2), rd data (idx + 3)))"

definition setPixel ::
  "byte list \<Rightarrow> nat \<Rightarrow> nat \<Rightarrow> nat \<Rightarrow> number \<Rightarrow> number \<Rightarrow> number \<Rightarrow> number \<Rightarrow> byte list" where
  "setPixel data width x y r g b a =
     (let idx = (y * width + x) * 4
      in data[idx := toUint8Clamp r, idx + 1 := toUint8Clamp g,
              idx + 2 := toUint8Clamp b, idx + 3 := toUint8Clamp a])"

definition grayscale :: "number \<Rightarrow> number \<Rightarrow> number \<Rightarrow> number" where
  "grayscale r g b =
     fadd (fadd (fmul (double 0.299) r) (fmul (double 0.587) g)) (fmul (double 0.114) b)"

definition clamp :: "number \<Rightarrow> number \<Rightarrow> number \<Rightarrow> number" where
  "clamp v mn mx = fmax mn (fmin mx v)"

definition clampInt :: "int \<Rightarrow> int \<Rightarrow> int \<Rightarrow> int" where
  "clampInt v mn mx = max mn (min mx v)"

definition forPixels :: "nat \<Rightarrow> nat \<Rightarrow> (nat \<Rightarrow> nat \<Rightarrow> 's \<Rightarrow> 's) \<Rightarrow> 's \<Rightarrow> 's" where
  "forPixels width height body s =
     fold (\<lambda>y. fold (\<lambda>x. body x y) [0..<width]) [0..<height] s"

subsection \<open>Ambient occlusion (generateAO, lines 42-76)\<close>

definition aoNeighbour ::
  "byte list \<Rightarrow> nat \<Rightarrow> nat \<Rightarrow> nat \<Rightarrow> nat \<Rightarrow> number \<Rightarrow> int \<Rightarrow> int \<Rightarrow> number \<times> nat \<Rightarrow> number \<times> nat" where
  "aoNeighbour srcData width height x y lum dy dx acc =
     (let nx = int x + dx; ny = int y + dy
      in if nx \<ge> 0 \<and> nx < int width \<and> ny \<ge> 0 \<and> ny < int height then
           (case getPixel srcData width (nat nx) (nat ny) of (nr, ng, nb, na) \<Rightarrow>
              let nLum = grayscale nr ng nb
              in (fadd (fst acc) (fabs (fsub lum nLum)), snd acc + 1))
         else acc)"

definition aoWindow :: "byte list \<Rightarrow> nat \<Rightarrow> nat \<Rightarrow> nat \<Rightarrow> nat \<Rightarrow> number \<Rightarrow> number \<times> nat" where
  "aoWindow srcData width height x y lum =
     fold (\<lambda>dy. fold (\<lambda>dx. aoNeighbour srcData width height x y lum dy dx) [-2..2]) [-2..2]
       (Fin 0, 0)"

definition aoPixel :: "byte list \<Rightarrow> nat \<Rightarrow> nat \<Rightarrow> number \<Rightarrow> nat \<Rightarrow> nat \<Rightarrow> number" where
  "aoPixel srcData width height intensity x y =
     (case getPixel srcData width x y of (r, g, b, a) \<Rightarrow>
        let lum = grayscale r g b;
            (contrast, count) = aoWindow srcData width height x y lum;
            avgContrast = fdiv contrast (Fin (real count))
        in clamp (fsub (fsub (Fin 255) (fmul (fmul avgContrast intensity) (Fin 2)))
                       (fmul (fsub (Fin 255) lum) (double 0.3)))
                 (Fin 0) (Fin 255))"

definition generateAO :: "byte list \<Rightarrow> nat \<Rightarrow> nat \<Rightarrow> number \<Rightarrow> byte list" where
  "generateAO srcData width height intensity =
     forPixels width height
       (\<lambda>x y dstData.
          let aoValue = aoPixel srcData width height intensity x y
          in setPixel dstData width x y aoValue aoValue aoValue (Fin 255))
       (replicate (width * height * 4) 0)"

subsection \<open>Roughness (generateRoughness, lines 79-112)\<close>

definition roughnessNeighbour ::
  "byte list \<Rightarrow> nat \<Rightarrow> nat \<Rightarrow> nat \<Rightarrow> nat \<Rightarrow> number \<Rightarrow> number \<Rightarrow> number \<Rightarrow> int \<Rightarrow> int
     \<Rightarrow> number \<times> nat \<Rightarrow> number \<times> nat" where
  "roughnessNeighbour srcData width height x y r g b dy dx acc =
     (let nx = int x + dx; ny = int y + dy
      in if nx \<ge> 0 \<and> nx < int width \<and> ny \<ge> 0 \<and> ny < int height then
           (case getPixel srcData width (nat nx) (nat ny) of (nr, ng, nb, na) \<Rightarrow>
              (fadd (fst acc)
                 (fadd (fadd (fabs (fsub r nr)) (fabs (fsub g ng))) (fabs (fsub b nb))),
               snd acc + 1))
         else acc)"

definition roughnessWindow ::
  "byte list \<Rightarrow> nat \<Rightarrow> nat \<Rightarrow> nat \<Rightarrow> nat \<Rightarrow> number \<Rightarrow> number \<Rightarrow> number \<Rightarrow> number \<times> nat" where
  "roughnessWindow srcData width height x y r g b =
     fold (\<lambda>dy. fold (\<lambda>dx. roughnessNeighbour srcData width height x y r g b dy dx) [-1..1])
       [-1..1] (Fin 0, 0)"

definition roughnessPixel :: "byte list \<Rightarrow> nat \<Rightarrow> nat \<Rightarrow> number \<Rightarrow> nat \<Rightarrow> nat \<Rightarrow> number" where
  "roughnessPixel srcData width height intensity x y =
     (case getPixel srcData width x y of (r, g, b, a) \<Rightarrow>
        let lum = grayscale r g b;
            (variance, count) = roughnessWindow srcData width height x y r g b;
            avgVariance = fdiv variance (Fin (real count))
        in clamp (fadd (fmul (fmul avgVariance intensity) (double 0.5))
                       (fmul (fsub (Fin 255) lum) (double 0.3)))
                 (Fin 0) (Fin 255))"

definition generateRoughness :: "byte list \<Rightarrow> nat \<Rightarrow> nat \<Rightarrow> number \<Rightarrow> byte list" where
  "generateRoughness srcData width height intensity =
     forPixels width height
       (\<lambda>x y dstData.
          let roughness = roughnessPixel srcData width height intensity x y
          in setPixel dstData width x y roughness roughness roughness (Fin 255))
       (replicate (width * height * 4) 0)"

subsection \<open>Metallic (generateMetallic, lines 115-140)\<close>

definition metallicPixel :: "byte list \<Rightarrow> nat \<Rightarrow> number \<Rightarrow> nat \<Rightarrow> nat \<Rightarrow> number" where
  "metallicPixel srcData width intensity x y =
     (case getPixel srcData width x y of (r, g, b, a) \<Rightarrow>
        let lum = grayscale r g b;
            mx = fmax (fmax r g) b;
            mn = fmin (fmin r g) b;
            saturation = (if mx = Fin 0 then Fin 0 else fdiv (fsub mx mn) mx)
        in clamp (fmul (fmul lum intensity) (fsub (Fin 1) (fmul saturation (double 0.5))))
                 (Fin 0) (Fin 255))"

definition generateMetallic :: "byte list \<Rightarrow> nat \<Rightarrow> nat \<Rightarrow> number \<Rightarrow> byte list" where
  "generateMetallic srcData width height intensity =
     forPixels width height
       (\<lambda>x y dstData.
          let metallic = metallicPixel srcData width intensity x y
          in setPixel dstData width x y metallic metallic metallic (Fin 255))
       (replicate (width * height * 4) 0)"

subsection \<open>Normal map (generateNormal, lines 143-189)\<close>

definition heightMapOf :: "byte list \<Rightarrow> nat \<Rightarrow> nat \<Rightarrow> number list" where
  "heightMapOf srcData width height =
     forPixels width height
       (\<lambda>x y heightMap.
          case getPixel srcData width x y of (r, g, b, a) \<Rightarrow>
            heightMap[y * width + x := toFloat32 (fdiv (grayscale r g b) (Fin 255))])
       (replicate (width * height) (Fin 0))"

definition rdHeight :: "number list \<Rightarrow> nat \<Rightarrow> number" where
  "rdHeight heightMap i = (if i < length heightMap then heightMap ! i else NaN)"

definition sobelStep ::
  "number list \<Rightarrow> nat \<Rightarrow> nat \<Rightarrow> nat \<Rightarrow> nat \<Rightarrow> int \<Rightarrow> int \<Rightarrow> number \<times> number \<Rightarrow> number \<times> number" where
  "sobelStep heightMap width height x y ky kx acc =
     (let nx = clampInt (int x + kx) 0 (int width - 1);
          ny = clampInt (int y + ky) 0 (int height - 1);
          heightVal = rdHeight heightMap (nat (ny * int width + nx))
      in (fadd (fst acc) (fmul heightVal (Fin (real_of_int (SOBEL_X ! nat (ky + 1) ! nat (kx + 1))))),
          fadd (snd acc) (fmul heightVal (Fin (real_of_int (SOBEL_Y ! nat (ky + 1) ! nat (kx + 1)))))))"

definition sobel :: "number list \<Rightarrow> nat \<Rightarrow> nat \<Rightarrow> nat \<Rightarrow> nat \<Rightarrow> number \<times> number" where
  "sobel heightMap width height x y =
     fold (\<lambda>ky. fold (\<lambda>kx. sobelStep heightMap width height x y ky kx) [-1..1]) [-1..1]
       (Fin 0, Fin 0)"

definition normalLength :: "number \<Rightarrow> number \<Rightarrow> number \<Rightarrow> number" where
  "normalLength normalX normalY normalZ =
     fsqrt (fadd (fadd (fmul normalX normalX) (fmul normalY normalY)) (fmul normalZ normalZ))"

definition normalPixel ::
  "number list \<Rightarrow> nat \<Rightarrow> nat \<Rightarrow> number \<Rightarrow> nat \<Rightarrow> nat \<Rightarrow> number \<times> number \<times> number" where
  "normalPixel heightMap width height strength x y =
     (case sobel heightMap width height x y of (dx, dy) \<Rightarrow>
        let normalX = fmul (fneg dx) strength;
            normalY = fmul (fneg dy) strength;
            normalZ = Fin 1;
            len = normalLength normalX normalY normalZ;
            nx = fmul (fmul (fadd (fdiv normalX len) (Fin 1)) (double 0.5)) (Fin 255);
            ny = fmul (fmul (fadd (fdiv normalY len) (Fin 1)) (double 0.5)) (Fin 255);
            nz = fmul (fmul (fadd (fdiv normalZ len) (Fin 1)) (double 0.5)) (Fin 255)
        in (nx, ny, nz))"

definition generateNormal :: "byte list \<Rightarrow> nat \<Rightarrow> nat \<Rightarrow> number \<Rightarrow> byte list" where
  "generateNormal srcData width height strength =
     (let heightMap = heightMapOf srcData width height
      in forPixels width height
           (\<lambda>x y dstData.
              case normalPixel heightMap width height strength x y of (nx, ny, nz) \<Rightarrow>
                setPixel dstData width x y nx ny nz (Fin 255))
           (replicate (width * height * 4) 0))"

subsection \<open>The texture set (generatePBRTextures, lines 191-287)\<close>

record PBRTextures =
  albedo :: string
  ao :: string
  roughness :: string
  metallic :: string
  normal :: string

record PBROptions =
  aoIntensity :: number
  roughnessIntensity :: number
  metallicIntensity :: number
  normalStrength :: number

text \<open>The value a rejected promise carries: an \<^verbatim>\<open>Error\<close> or an exception of the canvas.\<close>

datatype failure = Error string | DOMException string

text \<open>
  What the browser does is a parameter. \<open>loadImage\<close> is the outcome of setting
  \<^verbatim>\<open>img.src\<close>: \<open>None\<close> when \<^verbatim>\<open>onerror\<close> fires, the image's width and height when
  \<^verbatim>\<open>onload\<close> fires. \<open>getImageData\<close> creates the canvas of the given size, draws the image
  on it and reads its pixels; \<open>toDataURL\<close> puts a pixel buffer on a canvas of the given size
  and encodes it as PNG. Either may throw. The albedo canvas is drawn from the image at
  the same size as the source canvas, so its pixels are those of \<open>srcData\<close>.
\<close>

record browser =
  loadImage :: "string \<Rightarrow> (nat \<times> nat) option"
  getImageData :: "string \<Rightarrow> nat \<Rightarrow> nat \<Rightarrow> failure + byte list"
  toDataURL :: "nat \<Rightarrow> nat \<Rightarrow> byte list \<Rightarrow> failure + string"

text \<open>The five pixel buffers that are put on the canvases (lines 222-270).\<close>

record TextureBuffers =
  albedoData :: "byte list"
  aoData :: "byte list"
  roughnessData :: "byte list"
  metallicData :: "byte list"
  normalData :: "byte list"

definition generateBuffers :: "byte list \<Rightarrow> nat \<Rightarrow> nat \<Rightarrow> PBROptions \<Rightarrow> TextureBuffers" where
  "generateBuffers srcData width height options =
     \<lparr>albedoData = srcData,
      aoData = generateAO srcData width height (aoIntensity options),
      roughnessData = generateRoughness srcData width height (roughnessIntensity options),
      metallicData = generateMetallic srcData width height (metallicIntensity options),
      normalData = generateNormal srcData width height (normalStrength options)\<rparr>"

definition LoadError :: failure where
  "LoadError = Error ''Failed to load image''"

text \<open>
  The promise is modelled by the value it settles with: \<open>Inr\<close> the textures it resolves
  with, \<open>Inl\<close> the value it rejects with. Everything \<^verbatim>\<open>onload\<close> does is inside
  \<^verbatim>\<open>try\<close>, and \<^verbatim>\<open>catch\<close> rejects with what was thrown; the object passed to
  \<^verbatim>\<open>resolve\<close> is built from five \<^verbatim>\<open>toDataURL\<close> calls in this order.
\<close>

definition generatePBRTextures :: "browser \<Rightarrow> string \<Rightarrow> PBROptions \<Rightarrow> failure + PBRTextures" where
  "generatePBRTextures br imageSrc options =
     (case loadImage br imageSrc of
        None \<Rightarrow> Inl (Error ''Failed to load image'')
      | Some (imgWidth, imgHeight) \<Rightarrow>
          (case resizeDims imgWidth imgHeight of (width, height) \<Rightarrow>
             (case getImageData br imageSrc width height of
                Inl e \<Rightarrow> Inl e
              | Inr srcData \<Rightarrow>
                  let bufs = generateBuffers srcData width height options
                  in (case toDataURL br width height (albedoData bufs) of Inl e \<Rightarrow> Inl e
                      | Inr albedoURL \<Rightarrow>
                     (case toDataURL br width height (aoData bufs) of Inl e \<Rightarrow> Inl e
                      | Inr aoURL \<Rightarrow>
                     (case toDataURL br width height (roughnessData bufs) of Inl e \<Rightarrow> Inl e
                      | Inr roughnessURL \<Rightarrow>
                     (case toDataURL br width height (metallicData bufs) of Inl e \<Rightarrow> Inl e
                      | Inr metallicURL \<Rightarrow>
                     (case toDataURL br width height (normalData bufs) of Inl e \<Rightarrow> Inl e
                      | Inr normalURL \<Rightarrow>
                          Inr \<lparr>albedo = albedoURL, ao = aoURL, roughness = roughnessURL,
                               metallic = metallicURL, normal = normalURL\<rparr>))))))))"

section \<open>The formulas of the specification\<close>

subsection \<open>In double arithmetic\<close>

text \<open>
  The quantities the specification names, written from its words over the bytes of a
  well-formed buffer (\<open>width * height * 4\<close> samples, row-major RGBA), with every
  operation rounded as the doubles round it and the sums taken in the order the
  specification lists their terms: the window positions row by row, the kernel entries
  row by row. They are what the embedded generators are compared with.
\<close>

definition chan :: "byte list \<Rightarrow> nat \<Rightarrow> nat \<Rightarrow> nat \<Rightarrow> nat \<Rightarrow> real" where
  "chan src w x y c = real (unat (src ! ((y * w + x) * 4 + c)))"

definition windowList :: "nat \<Rightarrow> nat \<Rightarrow> nat \<Rightarrow> nat \<Rightarrow> nat \<Rightarrow> (nat \<times> nat) list" where
  "windowList r w h x y =
     concat (map (\<lambda>ny. map (\<lambda>nx. (nx, ny)) [x - r..<min w (x + r + 1)]) [y - r..<min h (y + r + 1)])"

definition lumaD :: "byte list \<Rightarrow> nat \<Rightarrow> nat \<Rightarrow> nat \<Rightarrow> number" where
  "lumaD src w x y =
     fadd (fadd (fmul (double 0.299) (Fin (chan src w x y 0)))
                (fmul (double 0.587) (Fin (chan src w x y 1))))
          (fmul (double 0.114) (Fin (chan src w x y 2)))"

definition clampD :: "number \<Rightarrow> number" where
  "clampD v = fmax (Fin 0) (fmin (Fin 255) v)"

definition contrastD :: "byte list \<Rightarrow> nat \<Rightarrow> nat \<Rightarrow> nat \<Rightarrow> nat \<Rightarrow> number" where
  "contrastD src w h x y =
     fold (\<lambda>(nx, ny) acc. fadd acc (fabs (fsub (lumaD src w x y) (lumaD src w nx ny))))
       (windowList 2 w h x y) (Fin 0)"

definition aoD :: "byte list \<Rightarrow> nat \<Rightarrow> nat \<Rightarrow> number \<Rightarrow> nat \<Rightarrow> nat \<Rightarrow> number" where
  "aoD src w h aoInt x y =
     clampD (fsub (fsub (Fin 255)
                    (fmul (fmul (fdiv (contrastD src w h x y)
                                      (Fin (real (length (windowList 2 w h x y))))) aoInt) (Fin 2)))
                  (fmul (fsub (Fin 255) (lumaD src w x y)) (double 0.3)))"

definition varianceD :: "byte list \<Rightarrow> nat \<Rightarrow> nat \<Rightarrow> nat \<Rightarrow> nat \<Rightarrow> number" where
  "varianceD src w h x y =
     fold (\<lambda>(nx, ny) acc. fadd acc
             (fadd (fadd (fabs (fsub (Fin (chan src w x y 0)) (Fin (chan src w nx ny 0))))
                         (fabs (fsub (Fin (chan src w x y 1)) (Fin (chan src w nx ny 1)))))
                   (fabs (fsub (Fin (chan src w x y 2)) (Fin (chan src w nx ny 2))))))
       (windowList 1 w h x y) (Fin 0)"

definition roughnessD :: "byte list \<Rightarrow> nat \<Rightarrow> nat \<Rightarrow> number \<Rightarrow> nat \<Rightarrow> nat \<Rightarrow> number" where
  "roughnessD src w h roughInt x y =
     clampD (fadd (fmul (fmul (fdiv (varianceD src w h x y)
                                    (Fin (real (length (windowList 1 w h x y))))) roughInt)
                        (double 0.5))
                  (fmul (fsub (Fin 255) (lumaD src w x y)) (double 0.3)))"

definition satD :: "byte list \<Rightarrow> nat \<Rightarrow> nat \<Rightarrow> nat \<Rightarrow> number" where
  "satD src w x y =
     (let mx = max (max (chan src w x y 0) (chan src w x y 1)) (chan src w x y 2);
          mn = min (min (chan src w x y 0) (chan src w x y 1)) (chan src w x y 2)
      in if mx = 0 then Fin 0 else fdiv (fsub (Fin mx) (Fin mn)) (Fin mx))"

definition metallicD :: "byte list \<Rightarrow> nat \<Rightarrow> number \<Rightarrow> nat \<Rightarrow> nat \<Rightarrow> number" where
  "metallicD src w metalInt x y =
     clampD (fmul (fmul (lumaD src w x y) metalInt)
                  (fsub (Fin 1) (fmul (satD src w x y) (double 0.5))))"

definition kernelH :: "int list list" where
  "kernelH = [[-1, 0, 1], [-2, 0, 2], [-1, 0, 1]]"

definition kernelV :: "int list list" where
  "kernelV = [[-1, -2, -1], [0, 0, 0], [1, 2, 1]]"

definition clampCoord :: "nat \<Rightarrow> int \<Rightarrow> nat" where
  "clampCoord n v = (if v < 0 then 0 else if int n \<le> v then n - 1 else nat v)"

definition heightD :: "byte list \<Rightarrow> nat \<Rightarrow> nat \<Rightarrow> int \<Rightarrow> int \<Rightarrow> number" where
  "heightD src w h X Y =
     toFloat32 (fdiv (lumaD src w (clampCoord w X) (clampCoord h Y)) (Fin 255))"

definition gradientD :: "int list list \<Rightarrow> byte list \<Rightarrow> nat \<Rightarrow> nat \<Rightarrow> nat \<Rightarrow> nat \<Rightarrow> number" where
  "gradientD K src w h x y =
     fold (\<lambda>(ky, kx) acc. fadd acc
             (fmul (heightD src w h (int x + int kx - 1) (int y + int ky - 1))
                   (Fin (real_of_int (K ! ky ! kx)))))
       (List.product [0, 1, 2] [0, 1, 2]) (Fin 0)"

definition axisD :: "number \<Rightarrow> number \<Rightarrow> number" where
  "axisD v len = fmul (fmul (fadd (fdiv v len) (Fin 1)) (double 0.5)) (Fin 255)"

definition normalD :: "byte list \<Rightarrow> nat \<Rightarrow> nat \<Rightarrow> number \<Rightarrow> nat \<Rightarrow> nat \<Rightarrow> number \<times> number \<times> number" where
  "normalD src w h strength x y =
     (let nx = fmul (fneg (gradientD kernelH src w h x y)) strength;
          ny = fmul (fneg (gradientD kernelV src w h x y)) strength;
          nz = Fin 1;
          len = fsqrt (fadd (fadd (fmul nx nx) (fmul ny ny)) (fmul nz nz))
      in (axisD nx len, axisD ny len, axisD nz len))"

subsection \<open>Over the real numbers\<close>

text \<open>
  The same quantities with exact arithmetic: the formulas as a reader of the
  specification evaluates them.
\<close>

definition luma :: "byte list \<Rightarrow> nat \<Rightarrow> nat \<Rightarrow> nat \<Rightarrow> real" where
  "luma src w x y = 0.299 * chan src w x y 0 + 0.587 * chan src w x y 1 + 0.114 * chan src w x y 2"

definition clampSpec :: "real \<Rightarrow> real \<Rightarrow> real \<Rightarrow> real" where
  "clampSpec v lo hi = (if v < lo then lo else if hi < v then hi else v)"

definition window :: "nat \<Rightarrow> nat \<Rightarrow> nat \<Rightarrow> nat \<Rightarrow> nat \<Rightarrow> (nat \<times> nat) set" where
  "window r w h x y =
     {(nx, ny). nx < w \<and> ny < h \<and> nx \<le> x + r \<and> x \<le> nx + r \<and> ny \<le> y + r \<and> y \<le> ny + r}"

definition avgContrast :: "byte list \<Rightarrow> nat \<Rightarrow> nat \<Rightarrow> nat \<Rightarrow> nat \<Rightarrow> real" where
  "avgContrast src w h x y =
     (\<Sum>(nx, ny) \<in> window 2 w h x y. \<bar>luma src w x y - luma src w nx ny\<bar>)
       / real (card (window 2 w h x y))"

definition aoSpec :: "byte list \<Rightarrow> nat \<Rightarrow> nat \<Rightarrow> real \<Rightarrow> nat \<Rightarrow> nat \<Rightarrow> real" where
  "aoSpec src w h aoInt x y =
     clampSpec (255 - avgContrast src w h x y * aoInt * 2 - (255 - luma src w x y) * 0.3) 0 255"

definition avgVariance :: "byte list \<Rightarrow> nat \<Rightarrow> nat \<Rightarrow> nat \<Rightarrow> nat \<Rightarrow> real" where
  "avgVariance src w h x y =
     (\<Sum>(nx, ny) \<in> window 1 w h x y.
         \<bar>chan src w x y 0 - chan src w nx ny 0\<bar> + \<bar>chan src w x y 1 - chan src w nx ny 1\<bar>
           + \<bar>chan src w x y 2 - chan src w nx ny 2\<bar>)
       / real (card (window 1 w h x y))"

definition roughnessSpec :: "byte list \<Rightarrow> nat \<Rightarrow> nat \<Rightarrow> real \<Rightarrow> nat \<Rightarrow> nat \<Rightarrow> real" where
  "roughnessSpec src w h roughInt x y =
     clampSpec (avgVariance src w h x y * roughInt * 0.5 + (255 - luma src w x y) * 0.3) 0 255"

definition saturationSpec :: "byte list \<Rightarrow> nat \<Rightarrow> nat \<Rightarrow> nat \<Rightarrow> real" where
  "saturationSpec src w x y =
     (let mx = max (max (chan src w x y 0) (chan src w x y 1)) (chan src w x y 2);
          mn = min (min (chan src w x y 0) (chan src w x y 1)) (chan src w x y 2)
      in if mx > 0 then (mx - mn) / mx else 0)"

definition metallicSpec :: "byte list \<Rightarrow> nat \<Rightarrow> real \<Rightarrow> nat \<Rightarrow> nat \<Rightarrow> real" where
  "metallicSpec src w metalInt x y =
     clampSpec (luma src w x y * metalInt * (1 - saturationSpec src w x y * 0.5)) 0 255"

definition heightAt :: "byte list \<Rightarrow> nat \<Rightarrow> nat \<Rightarrow> int \<Rightarrow> int \<Rightarrow> real" where
  "heightAt src w h X Y = luma src w (clampCoord w X) (clampCoord h Y) / 255"

definition gradient :: "int list list \<Rightarrow> byte list \<Rightarrow> nat \<Rightarrow> nat \<Rightarrow> nat \<Rightarrow> nat \<Rightarrow> real" where
  "gradient K src w h x y =
     (\<Sum>ky<3. \<Sum>kx<3. real_of_int (K ! ky ! kx) * heightAt src w h (int x + int kx - 1) (int y + int ky - 1))"

definition normalSpec :: "byte list \<Rightarrow> nat \<Rightarrow> nat \<Rightarrow> real \<Rightarrow> nat \<Rightarrow> nat \<Rightarrow> real \<times> real \<times> real" where
  "normalSpec src w h strength x y =
     (let nx = - gradient kernelH src w h x y * strength;
          ny = - gradient kernelV src w h x y * strength;
          nz = 1;
          len = sqrt (nx\<^sup>2 + ny\<^sup>2 + nz\<^sup>2)
      in ((nx / len + 1) * 0.5 * 255, (ny / len + 1) * 0.5 * 255, (nz / len + 1) * 0.5 * 255))"

definition resizeFactor :: "nat \<Rightarrow> nat \<Rightarrow> real" where
  "resizeFactor w h = min (1024 / real w) (1024 / real h)"

definition decodeChannel :: "byte \<Rightarrow> real" where
  "decodeChannel c = real (unat c) / 255 * 2 - 1"

definition decodedMagnitude :: "byte list \<Rightarrow> nat \<Rightarrow> nat \<Rightarrow> nat \<Rightarrow> real" where
  "decodedMagnitude dst w x y =
     sqrt ((decodeChannel (dst ! ((y * w + x) * 4)))\<^sup>2
         + (decodeChannel (dst ! ((y * w + x) * 4 + 1)))\<^sup>2
         + (decodeChannel (dst ! ((y * w + x) * 4 + 2)))\<^sup>2)"

section \<open>Auxiliary definitions of the proofs\<close>

text \<open>
  The pixels in the order the loop nest visits them, the common shape of the two
  window loops, the window positions in the order those loops visit them, the
  rounding of a real to a double when it does not overflow, finite numbers within a
  bound, the integer \<^verbatim>\<open>ToUint8Clamp\<close> stores, and the browsers and options of the
  examples.
\<close>

definition pixels :: "nat \<Rightarrow> nat \<Rightarrow> (nat \<times> nat) list" where
  "pixels w h = concat (map (\<lambda>y. map (\<lambda>x. (x, y)) [0..<w]) [0..<h])"

definition winStep ::
  "(nat \<Rightarrow> nat \<Rightarrow> number) \<Rightarrow> nat \<Rightarrow> nat \<Rightarrow> nat \<Rightarrow> nat \<Rightarrow> int \<Rightarrow> int \<Rightarrow> number \<times> nat \<Rightarrow> number \<times> nat" where
  "winStep G w h x y dy dx acc =
     (let nx = int x + dx; ny = int y + dy
      in if nx \<ge> 0 \<and> nx < int w \<and> ny \<ge> 0 \<and> ny < int h
         then (fadd (fst acc) (G (nat nx) (nat ny)), snd acc + 1) else acc)"

definition inRange :: "nat \<Rightarrow> nat \<Rightarrow> int \<Rightarrow> bool" where
  "inRange n x d = (0 \<le> int x + d \<and> int x + d < int n)"

definition inb :: "nat \<Rightarrow> nat \<Rightarrow> nat \<Rightarrow> nat \<Rightarrow> int \<times> int \<Rightarrow> bool" where
  "inb w h x y p = (case p of (dy, dx) \<Rightarrow> inRange h y dy \<and> inRange w x dx)"

definition pos :: "nat \<Rightarrow> nat \<Rightarrow> int \<times> int \<Rightarrow> nat \<times> nat" where
  "pos x y p = (case p of (dy, dx) \<Rightarrow> (nat (int x + dx), nat (int y + dy)))"

definition visited :: "nat \<Rightarrow> nat \<Rightarrow> nat \<Rightarrow> nat \<Rightarrow> nat \<Rightarrow> (nat \<times> nat) list" where
  "visited r w h x y =
     map (pos x y) (filter (inb w h x y) (List.product [- int r..int r] [- int r..int r]))"

definition rnd :: "real \<Rightarrow> real" where
  "rnd x = nearest 53 (- 1022) x"

definition fbound :: "real \<Rightarrow> number \<Rightarrow> bool" where
  "fbound B a = (case a of Fin v \<Rightarrow> \<bar>v\<bar> \<le> B | _ \<Rightarrow> False)"

definition round8 :: "real \<Rightarrow> nat" where
  "round8 v = (if v \<le> 0 then 0 else if 255 \<le> v then 255 else nat (roundHalfEven v))"

definition fpos :: "real \<Rightarrow> number \<Rightarrow> bool" where
  "fpos B a = (case a of Fin v \<Rightarrow> 0 \<le> v \<and> v \<le> B | _ \<Rightarrow> False)"

text \<open>Browsers and options of the examples.\<close>

definition failingBrowser :: browser where
  "failingBrowser = \<lparr>loadImage = (\<lambda>_. None),
     getImageData = (\<lambda>_ _ _. Inl (DOMException ''IndexSizeError'')),
     toDataURL = (\<lambda>_ _ _. Inl (DOMException ''SecurityError''))\<rparr>"

definition constantBrowser :: browser where
  "constantBrowser = \<lparr>loadImage = (\<lambda>_. Some (1, 1)),
     getImageData = (\<lambda>_ _ _. Inr [1, 1, 1, 255]),
     toDataURL = (\<lambda>_ _ _. Inr ''data:image/png;base64,'')\<rparr>"

definition taintedBrowser :: browser where
  "taintedBrowser = \<lparr>loadImage = (\<lambda>_. Some (1, 1)),
     getImageData = (\<lambda>_ _ _. Inr [1, 1, 1, 255]),
     toDataURL = (\<lambda>_ _ _. Inl (DOMException ''SecurityError''))\<rparr>"

definition defaultOptions :: PBROptions where
  "defaultOptions = \<lparr>aoIntensity = Fin 1, roughnessIntensity = Fin 1,
     metallicIntensity = Fin (1 / 2), normalStrength = Fin 1\<rparr>"

section \<open>Properties\<close>

subsection \<open>Rounding to the nearest representable number\<close>

lemma roundHalfEven_bounds: "\<lfloor>v\<rfloor> \<le> roundHalfEven v \<and> roundHalfEven v \<le> \<lfloor>v\<rfloor> + 1"
  by (simp add: roundHalfEven_def Let_def)

lemma roundHalfEven_near: "\<bar>real_of_int (roundHalfEven v) - v\<bar> \<le> 1 / 2"
  unfolding roundHalfEven_def Let_def by (auto split: if_splits)

lemma roundHalfEven_mono:
  assumes "u \<le> v"
  shows "roundHalfEven u \<le> roundHalfEven v"
proof (cases "\<lfloor>u\<rfloor> < \<lfloor>v\<rfloor>")
  case True
  then show ?thesis
    using roundHalfEven_bounds[of u] roundHalfEven_bounds[of v] by linarith
next
  case False
  then have "\<lfloor>u\<rfloor> = \<lfloor>v\<rfloor>" using floor_mono[OF assms] by linarith
  then show ?thesis
    using assms unfolding roundHalfEven_def Let_def by (auto split: if_splits)
qed

lemma roundHalfEven_of_int [simp]: "roundHalfEven (real_of_int n) = n"
  by (simp add: roundHalfEven_def)

lemma roundHalfEven_minus: "roundHalfEven (- v) = - roundHalfEven v"
proof (cases "v = real_of_int \<lfloor>v\<rfloor>")
  case True
  then obtain n where "v = real_of_int n" by metis
  then show ?thesis by (simp flip: of_int_minus)
next
  case False
  then have f: "\<lfloor>- v\<rfloor> = - \<lfloor>v\<rfloor> - 1"
    by (metis Ints_of_int ceiling_def floor_minus ceiling_altdef add.commute uminus_add_conv_diff
        of_int_floor minus_add_distrib)
  show ?thesis
    unfolding roundHalfEven_def Let_def f using False by (auto split: if_splits)
qed

lemma expoUp_bounds: "2 powi e \<le> a \<Longrightarrow> 2 powi (expoUp a e) \<le> a \<and> a < 2 powi (expoUp a e + 1)"
proof (induction a e rule: expoUp.induct)
  case (1 a e)
  show ?case
  proof (cases "a < 2 powi (e + 1)")
    case True
    then show ?thesis using "1.prems" by (simp add: expoUp.simps[of a e])
  next
    case False
    then have "2 powi (e + 1) \<le> a" by simp
    from "1.IH"[OF False this] show ?thesis using False by (simp add: expoUp.simps[of a e])
  qed
qed

lemma expoDown_bounds:
  "a < 2 powi (e + 1) \<Longrightarrow> emin \<le> e \<Longrightarrow>
     emin \<le> expoDown emin a e \<and> a < 2 powi (expoDown emin a e + 1) \<and>
     (2 powi (expoDown emin a e) \<le> a \<or> expoDown emin a e = emin)"
proof (induction emin a e rule: expoDown.induct)
  case (1 emin a e)
  show ?case
  proof (cases "2 powi e \<le> a \<or> e \<le> emin")
    case True
    then show ?thesis using "1.prems" by (auto simp add: expoDown.simps[of emin a e])
  next
    case False
    then have a: "a < 2 powi (e - 1 + 1)" and e: "emin \<le> e - 1" by simp_all
    from "1.IH"[OF False a e] show ?thesis using False by (simp add: expoDown.simps[of emin a e])
  qed
qed

lemma expo_bounds:
  assumes "emin \<le> - 1"
  shows "emin \<le> expo emin x \<and> \<bar>x\<bar> < 2 powi (expo emin x + 1) \<and>
         (2 powi (expo emin x) \<le> \<bar>x\<bar> \<or> expo emin x = emin)"
proof (cases "1 \<le> \<bar>x\<bar>")
  case True
  then have "2 powi 0 \<le> \<bar>x\<bar>" by simp
  from expoUp_bounds[OF this] have b: "2 powi (expoUp \<bar>x\<bar> 0) \<le> \<bar>x\<bar>" "\<bar>x\<bar> < 2 powi (expoUp \<bar>x\<bar> 0 + 1)"
    by simp_all
  have "0 \<le> expoUp \<bar>x\<bar> 0"
  proof (rule ccontr)
    assume "\<not> 0 \<le> expoUp \<bar>x\<bar> 0"
    then have "expoUp \<bar>x\<bar> 0 + 1 \<le> 0" by simp
    then have "(2::real) powi (expoUp \<bar>x\<bar> 0 + 1) \<le> 2 powi 0" by (intro power_int_increasing) simp_all
    then show False using b(2) True by simp
  qed
  then show ?thesis using True b assms by (simp add: expo_def)
next
  case False
  then have "\<bar>x\<bar> < 2 powi (- 1 + 1)" by simp
  from expoDown_bounds[OF this assms] show ?thesis using False by (simp add: expo_def)
qed

lemma expo_eqI:
  assumes "emin \<le> - 1" "emin \<le> k" "2 powi k \<le> \<bar>x\<bar>" "\<bar>x\<bar> < 2 powi (k + 1)"
  shows "expo emin x = k"
proof -
  note b = expo_bounds[OF assms(1), of x]
  let ?e = "expo emin x"
  have "\<not> k < ?e"
  proof
    assume k: "k < ?e"
    then have "2 powi ?e \<le> \<bar>x\<bar>" using b assms(2) by auto
    moreover have "(2::real) powi (k + 1) \<le> 2 powi ?e" using k by (intro power_int_increasing) simp_all
    ultimately show False using assms(4) by linarith
  qed
  moreover have "\<not> ?e < k"
  proof
    assume k: "?e < k"
    have "(2::real) powi (?e + 1) \<le> 2 powi k" using k by (intro power_int_increasing) simp_all
    then show False using b assms(3) by linarith
  qed
  ultimately show ?thesis by simp
qed

lemma expo_subnormal:
  assumes "emin \<le> - 1" "\<bar>x\<bar> < 2 powi (emin + 1)"
  shows "expo emin x = emin"
proof -
  note b = expo_bounds[OF assms(1), of x]
  have "\<not> emin < expo emin x"
  proof
    assume k: "emin < expo emin x"
    then have "2 powi (expo emin x) \<le> \<bar>x\<bar>" using b by auto
    moreover have "(2::real) powi (emin + 1) \<le> 2 powi (expo emin x)"
      using k by (intro power_int_increasing) simp_all
    ultimately show False using assms(2) by linarith
  qed
  then show ?thesis using b by simp
qed

lemma expo_mono:
  assumes "emin \<le> - 1" "\<bar>x\<bar> \<le> \<bar>y\<bar>"
  shows "expo emin x \<le> expo emin y"
proof (rule ccontr)
  assume "\<not> expo emin x \<le> expo emin y"
  then have k: "expo emin y < expo emin x" by simp
  note bx = expo_bounds[OF assms(1), of x] and bnd = expo_bounds[OF assms(1), of y]
  have "2 powi (expo emin x) \<le> \<bar>x\<bar>" using bx bnd k by auto
  moreover have "(2::real) powi (expo emin y + 1) \<le> 2 powi (expo emin x)"
    using k by (intro power_int_increasing) simp_all
  ultimately show False using bnd assms(2) by linarith
qed

lemma expo_minus [simp]: "expo emin (- x) = expo emin x"
  by (simp add: expo_def)

lemma ulp_pos [simp]: "0 < ulp p emin x"
  by (simp add: ulp_def)

lemma ulp_nonneg [simp]: "0 \<le> ulp p emin x"
  by (simp add: ulp_def)

lemma ulp_neq0 [simp]: "ulp p emin x \<noteq> 0"
  by (simp add: ulp_def)

lemma roundHalfEven_0 [simp]: "roundHalfEven 0 = 0"
  using roundHalfEven_of_int[of 0] by simp

lemma ulp_minus [simp]: "ulp p emin (- x) = ulp p emin x"
  by (simp add: ulp_def)

lemma nearest_minus: "nearest p emin (- x) = - nearest p emin x"
  by (simp add: nearest_def roundHalfEven_minus)

lemma nearest_zero [simp]: "nearest p emin 0 = 0"
  by (simp add: nearest_def)


lemma nearest_nonneg: "0 \<le> x \<Longrightarrow> 0 \<le> nearest p emin x"
proof -
  assume "0 \<le> x"
  then have "0 \<le> x / ulp p emin x" by simp
  then have "roundHalfEven 0 \<le> roundHalfEven (x / ulp p emin x)" by (rule roundHalfEven_mono)
  then have "0 \<le> roundHalfEven (x / ulp p emin x)" using roundHalfEven_of_int[of 0] by simp
  then show ?thesis by (simp add: nearest_def)
qed

lemma pow2_split: "(2::real) powi (a + b) = 2 powi a * 2 powi b"
  by (simp add: power_int_add)

lemma nearest_mono_nonneg:
  assumes emin: "emin \<le> - 1" and p: "1 \<le> p" and xy: "0 \<le> x" "x \<le> y"
  shows "nearest p emin x \<le> nearest p emin y"
proof -
  let ?ex = "expo emin x" and ?ey = "expo emin y"
  have le: "?ex \<le> ?ey" using xy by (intro expo_mono[OF emin]) simp
  show ?thesis
  proof (cases "?ex = ?ey")
    case True
    then have u: "ulp p emin x = ulp p emin y" by (simp add: ulp_def)
    have "x / ulp p emin y \<le> y / ulp p emin y" using xy by (intro divide_right_mono) simp_all
    then have "roundHalfEven (x / ulp p emin y) \<le> roundHalfEven (y / ulp p emin y)"
      by (rule roundHalfEven_mono)
    then show ?thesis unfolding nearest_def u by (intro mult_right_mono) simp_all
  next
    case False
    then have lt: "?ex < ?ey" using le by simp
    note bx = expo_bounds[OF emin, of x] and bnd = expo_bounds[OF emin, of y]
    have ylow: "2 powi ?ey \<le> y" using bnd bx lt xy by auto
    have xup: "x < 2 powi (?ex + 1)" using bx xy by simp
    \<comment> \<open>the lower one rounds to at most the top of its binade\<close>
    have ux: "2 powi (?ex + 1) = real_of_int (2 ^ p) * ulp p emin x"
    proof -
      have "(2::real) powi (?ex + 1) = 2 powi (int p + (?ex - int p + 1))" by simp
      also have "\<dots> = 2 powi (int p) * 2 powi (?ex - int p + 1)" by (rule pow2_split)
      finally show ?thesis by (simp add: ulp_def)
    qed
    have "x / ulp p emin x \<le> real_of_int (2 ^ p)"
      using xup unfolding ux by (simp add: pos_divide_le_eq)
    then have "roundHalfEven (x / ulp p emin x) \<le> roundHalfEven (real_of_int (2 ^ p))"
      by (rule roundHalfEven_mono)
    then have "real_of_int (roundHalfEven (x / ulp p emin x)) \<le> real_of_int (2 ^ p)"
      unfolding roundHalfEven_of_int by linarith
    then have "nearest p emin x \<le> real_of_int (2 ^ p) * ulp p emin x"
      unfolding nearest_def by (intro mult_right_mono) simp_all
    then have nx: "nearest p emin x \<le> 2 powi (?ex + 1)" using ux by simp
    \<comment> \<open>the upper one rounds to at least the bottom of its binade\<close>
    obtain p' where p': "p = Suc p'" using p by (cases p) simp_all
    have uy: "2 powi ?ey = real_of_int (2 ^ p') * ulp p emin y"
    proof -
      have "(2::real) powi ?ey = 2 powi (int p' + (?ey - int p + 1))" using p' by simp
      also have "\<dots> = 2 powi (int p') * 2 powi (?ey - int p + 1)" by (rule pow2_split)
      finally show ?thesis by (simp add: ulp_def)
    qed
    have "real_of_int (2 ^ p') \<le> y / ulp p emin y"
      using ylow unfolding uy by (simp add: pos_le_divide_eq)
    then have "roundHalfEven (real_of_int (2 ^ p')) \<le> roundHalfEven (y / ulp p emin y)"
      by (rule roundHalfEven_mono)
    then have "real_of_int (2 ^ p') \<le> real_of_int (roundHalfEven (y / ulp p emin y))"
      unfolding roundHalfEven_of_int by linarith
    then have "real_of_int (2 ^ p') * ulp p emin y \<le> nearest p emin y"
      unfolding nearest_def by (intro mult_right_mono) simp_all
    then have ny: "2 powi ?ey \<le> nearest p emin y" using uy by simp
    have "(2::real) powi (?ex + 1) \<le> 2 powi ?ey" using lt by (intro power_int_increasing) simp_all
    then show ?thesis using nx ny by linarith
  qed
qed

lemma nearest_mono:
  assumes emin: "emin \<le> - 1" and p: "1 \<le> p" and xy: "x \<le> y"
  shows "nearest p emin x \<le> nearest p emin y"
proof -
  consider "0 \<le> x" | "y \<le> 0" | "x < 0" "0 < y" by linarith
  then show ?thesis
  proof cases
    case 1
    then show ?thesis using nearest_mono_nonneg[OF emin p 1 xy] by simp
  next
    case 2
    then have "0 \<le> - y" "- y \<le> - x" using xy by simp_all
    from nearest_mono_nonneg[OF emin p this] show ?thesis by (simp add: nearest_minus)
  next
    case 3
    have "0 \<le> nearest p emin y" using 3 by (intro nearest_nonneg) simp
    moreover have "0 \<le> nearest p emin (- x)" using 3 by (intro nearest_nonneg) simp
    ultimately show ?thesis by (simp add: nearest_minus)
  qed
qed

text \<open>Numbers that are a whole number of units in the last place are not changed.\<close>

lemma nearest_fix:
  assumes "x = real_of_int m * ulp p emin x"
  shows "nearest p emin x = x"
proof -
  have "x / ulp p emin x = real_of_int m"
    using assms by (metis nonzero_mult_div_cancel_right less_irrefl ulp_pos)
  then show ?thesis using assms by (simp add: nearest_def)
qed

lemma nearest_int:
  assumes emin: "emin \<le> - 1" and n: "\<bar>n\<bar> < 2 ^ p"
  shows "nearest p emin (real_of_int n) = real_of_int n"
proof (cases "n = 0")
  case True
  then show ?thesis by simp
next
  case False
  let ?x = "real_of_int n"
  let ?e = "expo emin ?x"
  note b = expo_bounds[OF emin, of ?x]
  have "1 \<le> \<bar>n\<bar>" using False by simp
  then have "real_of_int 1 \<le> real_of_int \<bar>n\<bar>" by (simp only: of_int_le_iff)
  then have one: "1 \<le> \<bar>?x\<bar>" by simp
  have e0: "0 \<le> ?e"
  proof (rule ccontr)
    assume "\<not> 0 \<le> ?e"
    then have "?e + 1 \<le> 0" by simp
    then have "(2::real) powi (?e + 1) \<le> 2 powi 0" by (intro power_int_increasing) simp_all
    then show False using b one by simp
  qed
  have ep: "?e < int p"
  proof (rule ccontr)
    assume "\<not> ?e < int p"
    then have pe: "int p \<le> ?e" by simp
    then have "emin < ?e" using emin by linarith
    then have "2 powi ?e \<le> \<bar>?x\<bar>" using b by auto
    moreover have "(2::real) powi (int p) \<le> 2 powi ?e" using pe by (intro power_int_increasing) simp_all
    moreover have "real_of_int \<bar>n\<bar> < real_of_int (2 ^ p)" using n by (simp only: of_int_less_iff)
    then have "\<bar>?x\<bar> < 2 ^ p" by simp
    ultimately show False by simp
  qed
  define k where "k = nat (int p - 1 - ?e)"
  have k: "int k = int p - 1 - ?e" using ep by (simp add: k_def)
  have "?e - int p + 1 = - int k" using k by simp
  then have "ulp p emin ?x = 2 powi (- int k)" unfolding ulp_def by (rule arg_cong)
  then have u: "ulp p emin ?x = 1 / 2 ^ k" by (simp add: power_int_minus_divide)
  have "?x = real_of_int (n * 2 ^ k) * ulp p emin ?x" unfolding u by simp
  then show ?thesis by (rule nearest_fix)
qed


lemmas ev = double_def single_def roundTo_def nearest_def ulp_def expo_def expoUp.simps
  expoDown.simps roundHalfEven_def Let_def

subsection \<open>The pixel loops\<close>

lemma cell_index_bound:
  fixes x y w h :: nat
  assumes "x < w" "y < h"
  shows "y * w + x < w * h"
proof -
  have "y * w + x < y * w + w" using assms by simp
  also have "\<dots> = (Suc y) * w" by simp
  also have "\<dots> \<le> h * w" using assms by (intro mult_le_mono1) simp
  finally show "y * w + x < w * h" by (simp add: mult.commute)
qed

lemma pixel_index_bound:
  fixes x y w h k :: nat
  assumes "x < w" "y < h" "k < 4"
  shows "(y * w + x) * 4 + k < w * h * 4"
  using cell_index_bound[OF assms(1,2)] assms(3) by simp

lemma cell_index_inj:
  fixes x y w x' y' :: nat
  assumes "x < w" "x' < w" "y * w + x = y' * w + x'"
  shows "x = x' \<and> y = y'"
proof -
  have a: "(y * w + x) mod w = x" "(y' * w + x') mod w = x'" using assms(1,2) by simp_all
  have xx: "x = x'" using a assms(3) by metis
  have b: "(y * w + x) div w = y" "(y' * w + x') div w = y'" using assms(1,2) by simp_all
  have "y = y'" using b assms(3) by metis
  then show ?thesis using xx by simp
qed

lemma pixel_index_inj:
  fixes x y w x' y' k k' :: nat
  assumes "x < w" "x' < w" "k < 4" "k' < 4" "(y * w + x) * 4 + k = (y' * w + x') * 4 + k'"
  shows "x = x' \<and> y = y' \<and> k = k'"
proof -
  have m: "(n * 4 + j) mod 4 = j" if "j < 4" for n j :: nat using that by simp
  have a: "((y * w + x) * 4 + k) mod 4 = k" "((y' * w + x') * 4 + k') mod 4 = k'"
    using m[OF assms(3)] m[OF assms(4)] by blast+
  have kk: "k = k'" using a assms(5) by metis
  then have "y * w + x = y' * w + x'" using assms(5) by simp
  then show ?thesis using cell_index_inj[OF assms(1,2)] kk by simp
qed

lemma fold_nested:
  "fold (\<lambda>y. fold (\<lambda>x. body x y) xs) ys s =
   fold (\<lambda>(x, y). body x y) (concat (map (\<lambda>y. map (\<lambda>x. (x, y)) xs) ys)) s"
  by (induction ys arbitrary: s) (simp_all add: fold_map comp_def)

lemma forPixels_fold: "forPixels w h body s = fold (\<lambda>(x, y). body x y) (pixels w h) s"
  by (simp add: forPixels_def pixels_def fold_nested)

lemma set_pixels: "set (pixels w h) = {(x, y). x < w \<and> y < h}"
  by (auto simp add: pixels_def)

lemma length_setPixel: "length (setPixel d w x y r g b a) = length d"
  by (simp add: setPixel_def Let_def)

lemma setPixel_same:
  assumes "(y * w + x) * 4 + 3 < length d" "k < 4"
  shows "setPixel d w x y r g b a ! ((y * w + x) * 4 + k) = toUint8Clamp ([r, g, b, a] ! k)"
proof -
  consider "k = 0" | "k = 1" | "k = 2" | "k = 3" using assms(2) by linarith
  then show ?thesis using assms(1)
    by cases (simp_all add: setPixel_def Let_def)
qed

lemma setPixel_other:
  assumes "x < w" "x' < w" "k < 4" "(x', y') \<noteq> (x, y)"
  shows "setPixel d w x' y' r g b a ! ((y * w + x) * 4 + k) = d ! ((y * w + x) * 4 + k)"
proof -
  have "(y' * w + x') * 4 + j \<noteq> (y * w + x) * 4 + k" if "j < 4" for j
    using pixel_index_inj[OF assms(2) assms(1) that assms(3), of y' y] assms(4) by auto
  from this[of 0] this[of 1] this[of 2] this[of 3]
  show ?thesis by (simp add: setPixel_def Let_def)
qed

lemma fold_setPixel:
  assumes "x < w" "k < 4" "(y * w + x) * 4 + 3 < length d"
    and "\<forall>(x', y') \<in> set ps. x' < w"
  shows "fold (\<lambda>(x, y) d. setPixel d w x y (r x y) (g x y) (b x y) (a x y)) ps d
           ! ((y * w + x) * 4 + k) =
         (if (x, y) \<in> set ps then toUint8Clamp ([r x y, g x y, b x y, a x y] ! k)
          else d ! ((y * w + x) * 4 + k))"
  using assms(3,4)
proof (induction ps arbitrary: d rule: rev_induct)
  case Nil
  then show ?case by simp
next
  case (snoc p ps)
  obtain x' y' where p: "p = (x', y')" by (cases p)
  have len: "(y * w + x) * 4 + 3 < length (fold (\<lambda>(x, y) d. setPixel d w x y (r x y) (g x y) (b x y) (a x y)) ps d)"
    using snoc.prems(1) by (induction ps arbitrary: d) (auto simp add: length_setPixel)
  have x': "x' < w" using snoc.prems(2) p by auto
  show ?case
  proof (cases "(x', y') = (x, y)")
    case True
    then show ?thesis using p setPixel_same[OF len assms(2)] by simp
  next
    case False
    then show ?thesis using p snoc setPixel_other[OF assms(1) x' assms(2) False] by auto
  qed
qed

lemma length_forPixels_setPixel:
  "length (forPixels w h (\<lambda>x y d. setPixel d w x y (r x y) (g x y) (b x y) (a x y)) d) = length d"
proof -
  have "length (fold (\<lambda>(x, y) d. setPixel d w x y (r x y) (g x y) (b x y) (a x y)) ps d) = length d" for ps
    by (induction ps arbitrary: d) (auto simp add: length_setPixel)
  then show ?thesis by (simp add: forPixels_fold)
qed

lemma forPixels_setPixel:
  assumes "x < w" "y < h" "k < 4" "length d = w * h * 4"
  shows "forPixels w h (\<lambda>x y d. setPixel d w x y (r x y) (g x y) (b x y) (a x y)) d
           ! ((y * w + x) * 4 + k) = toUint8Clamp ([r x y, g x y, b x y, a x y] ! k)"
proof -
  have len: "(y * w + x) * 4 + 3 < length d"
    using pixel_index_bound[OF assms(1,2), of 3] assms(4) by simp
  have "\<forall>(x', y') \<in> set (pixels w h). x' < w" by (simp add: set_pixels)
  from fold_setPixel[OF assms(1) assms(3) len this]
  show ?thesis using assms(1,2) by (simp add: forPixels_fold set_pixels)
qed

lemma fold_cell:
  fixes x y w :: nat
  assumes "x < w" "y * w + x < length hm" "\<forall>(x', y') \<in> set ps. x' < w"
  shows "fold (\<lambda>(x, y) hm. hm[y * w + x := v x y]) ps hm ! (y * w + x) =
         (if (x, y) \<in> set ps then v x y else hm ! (y * w + x))"
  using assms(2,3)
proof (induction ps arbitrary: hm rule: rev_induct)
  case Nil
  then show ?case by simp
next
  case (snoc p ps)
  obtain x' y' where p: "p = (x', y')" by (cases p)
  have len: "y * w + x < length (fold (\<lambda>(x, y) hm. hm[y * w + x := v x y]) ps hm)"
    using snoc.prems(1) by (induction ps arbitrary: hm) auto
  have x': "x' < w" using snoc.prems(2) p by auto
  show ?case
  proof (cases "(x', y') = (x, y)")
    case True
    then show ?thesis using p len by simp
  next
    case False
    then have "y' * w + x' \<noteq> y * w + x" using cell_index_inj[OF x' assms(1), of y' y] by auto
    then show ?thesis using p snoc False by auto
  qed
qed

lemma fold_product:
  "fold (\<lambda>a. fold (\<lambda>b. S a b) bs) as s = fold (\<lambda>(a, b). S a b) (List.product as bs) s"
  by (induction as arbitrary: s) (simp_all add: fold_map comp_def)

lemma fold_counting:
  "fold (\<lambda>p acc. if P p then (fadd (fst acc) (G p), snd acc + 1) else acc) ps (c, n) =
   (fold (\<lambda>p c. fadd c (G p)) (filter P ps) c, n + length (filter P ps))"
  by (induction ps arbitrary: c n) simp_all

lemma window_fold:
  "fold (\<lambda>dy. fold (\<lambda>dx. winStep G w h x y dy dx) [- int r..int r]) [- int r..int r] (c, 0) =
     (fold (\<lambda>(nx, ny) acc. fadd acc (G nx ny)) (visited r w h x y) c, length (visited r w h x y))"
proof -
  let ?offs = "List.product [- int r..int r] [- int r..int r]"
  let ?G = "\<lambda>p. case pos x y p of (nx, ny) \<Rightarrow> G nx ny"
  have step: "(\<lambda>(dy, dx). winStep G w h x y dy dx) =
      (\<lambda>p acc. if inb w h x y p then (fadd (fst acc) (?G p), snd acc + 1) else acc)"
    by (auto simp add: fun_eq_iff winStep_def inb_def inRange_def pos_def Let_def)
  have "fold (\<lambda>p c. fadd c (?G p)) qs c = fold (\<lambda>(nx, ny) acc. fadd acc (G nx ny)) (map (pos x y) qs) c"
    for qs
    by (induction qs arbitrary: c) (simp_all split: prod.splits)
  then show ?thesis
    by (simp add: fold_product step fold_counting visited_def)
qed

lemma filter_product:
  "filter (\<lambda>(a, b). P a \<and> Q b) (List.product as bs) = List.product (filter P as) (filter Q bs)"
proof (induction as)
  case Nil
  then show ?case by simp
next
  case (Cons a as)
  have "filter (\<lambda>(a, b). P a \<and> Q b) (map (Pair a) bs) =
      (if P a then map (Pair a) (filter Q bs) else [])"
    by (induction bs) simp_all
  then show ?case using Cons by simp
qed

lemma map_product:
  "map (\<lambda>(a, b). (g b, f a)) (List.product as bs) =
   concat (map (\<lambda>ny. map (\<lambda>nx. (nx, ny)) (map g bs)) (map f as))"
  by (induction as) (simp_all add: comp_def)

lemma range_list:
  "map (\<lambda>d. nat (int x + d)) (filter (inRange n x) [- int r..int r]) = [x - r..<min n (x + r + 1)]"
proof (rule sorted_distinct_set_unique)
  let ?f = "\<lambda>d. nat (int x + d)"
  let ?ds = "filter (inRange n x) [- int r..int r]"
  have "sorted_wrt (\<le>) ?ds" by (simp add: sorted_wrt_filter)
  then have "sorted_wrt (\<lambda>a b. ?f a \<le> ?f b) ?ds"
    by (rule sorted_wrt_mono_rel[rotated]) simp
  then show "sorted (map ?f ?ds)" by (simp add: sorted_map)
  show "distinct (map ?f ?ds)"
    by (rule iffD2[OF distinct_map]) (auto simp add: inj_on_def inRange_def)
  show "sorted [x - r..<min n (x + r + 1)]" by simp
  show "distinct [x - r..<min n (x + r + 1)]" by simp
  show "set (map ?f ?ds) = set [x - r..<min n (x + r + 1)]"
  proof (intro set_eqI iffI)
    fix k assume "k \<in> set (map ?f ?ds)"
    then show "k \<in> set [x - r..<min n (x + r + 1)]" by (auto simp add: inRange_def)
  next
    fix k assume k: "k \<in> set [x - r..<min n (x + r + 1)]"
    have "int k - int x \<in> set ?ds" using k by (auto simp add: inRange_def)
    then have "?f (int k - int x) \<in> set (map ?f ?ds)" unfolding set_map by (rule imageI)
    then show "k \<in> set (map ?f ?ds)" by simp
  qed
qed

lemma visited_windowList: "visited r w h x y = windowList r w h x y"
proof -
  have i: "inb w h x y = (\<lambda>(dy, dx). inRange h y dy \<and> inRange w x dx)"
    by (simp add: fun_eq_iff inb_def)
  have p: "pos x y = (\<lambda>(dy, dx). (nat (int x + dx), nat (int y + dy)))"
    by (simp add: fun_eq_iff pos_def)
  show ?thesis
    unfolding visited_def i p filter_product map_product range_list windowList_def ..
qed

lemma windowList_wf: "(nx, ny) \<in> set (windowList r w h x y) \<Longrightarrow> nx < w \<and> ny < h"
  by (auto simp add: windowList_def)

lemma windowList_center: "x < w \<Longrightarrow> y < h \<Longrightarrow> (x, y) \<in> set (windowList r w h x y)"
  by (force simp add: windowList_def)

lemma length_windowList_pos: "x < w \<Longrightarrow> y < h \<Longrightarrow> 1 \<le> length (windowList r w h x y)"
  using windowList_center[of x w y h r]
  by (cases "windowList r w h x y") simp_all

lemma upto2: "[-2..2] = [- int 2..int 2]" and upto1: "[-1..1] = [- int 1..int 1]"
  by simp_all

lemma getPixel_wf:
  assumes "length src = w * h * 4" "x < w" "y < h"
  shows "getPixel src w x y =
     (Fin (chan src w x y 0), Fin (chan src w x y 1), Fin (chan src w x y 2), Fin (chan src w x y 3))"
  using pixel_index_bound[OF assms(2,3), of 0] pixel_index_bound[OF assms(2,3), of 1]
    pixel_index_bound[OF assms(2,3), of 2] pixel_index_bound[OF assms(2,3), of 3] assms(1)
  by (simp add: getPixel_def rd_def chan_def Let_def)

lemma grayscale_wf:
  assumes "length src = w * h * 4" "x < w" "y < h"
  shows "(case getPixel src w x y of (r, g, b, a) \<Rightarrow> grayscale r g b) = lumaD src w x y"
  by (simp add: getPixel_wf[OF assms] grayscale_def lumaD_def)

lemma fold_cong_set:
  "(\<And>q. q \<in> set qs \<Longrightarrow> F q = G q) \<Longrightarrow> fold (\<lambda>q acc. fadd acc (F q)) qs c = fold (\<lambda>q acc. fadd acc (G q)) qs c"
  by (induction qs arbitrary: c) simp_all

lemma aoWindow_wf:
  assumes "length src = w * h * 4" "x < w" "y < h"
  shows "aoWindow src w h x y (lumaD src w x y) =
     (contrastD src w h x y, length (windowList 2 w h x y))"
proof -
  let ?G = "\<lambda>nx ny. case getPixel src w nx ny of (nr, ng, nb, na) \<Rightarrow>
     fabs (fsub (lumaD src w x y) (grayscale nr ng nb))"
  have step: "aoNeighbour src w h x y (lumaD src w x y) = winStep ?G w h x y"
    by (auto simp add: fun_eq_iff aoNeighbour_def winStep_def Let_def split: prod.splits)
  have "fold (\<lambda>q acc. fadd acc (case q of (nx, ny) \<Rightarrow> ?G nx ny)) (windowList 2 w h x y) c =
      fold (\<lambda>q acc. fadd acc (case q of (nx, ny) \<Rightarrow>
          fabs (fsub (lumaD src w x y) (lumaD src w nx ny)))) (windowList 2 w h x y) c" for c
  proof (rule fold_cong_set)
    fix q assume q: "q \<in> set (windowList 2 w h x y)"
    obtain nx ny where qq: "q = (nx, ny)" by (cases q)
    then have "nx < w" "ny < h" using q windowList_wf by blast+
    from getPixel_wf[OF assms(1) this] show "(case q of (nx, ny) \<Rightarrow> ?G nx ny) =
        (case q of (nx, ny) \<Rightarrow> fabs (fsub (lumaD src w x y) (lumaD src w nx ny)))"
      by (simp add: qq grayscale_def lumaD_def)
  qed
  then have "fold (\<lambda>(nx, ny) acc. fadd acc (?G nx ny)) (windowList 2 w h x y) (Fin 0) =
      contrastD src w h x y"
    by (simp add: contrastD_def case_prod_unfold)
  then show ?thesis
    unfolding aoWindow_def step upto2 window_fold visited_windowList by simp
qed

lemma clamp_clampD: "clamp v (Fin 0) (Fin 255) = clampD v"
  by (simp add: clamp_def clampD_def)

lemma aoPixel_wf:
  assumes "length src = w * h * 4" "x < w" "y < h"
  shows "aoPixel src w h i x y = aoD src w h i x y"
proof -
  have l: "grayscale (Fin (chan src w x y 0)) (Fin (chan src w x y 1)) (Fin (chan src w x y 2)) =
      lumaD src w x y" by (simp add: grayscale_def lumaD_def)
  show ?thesis
    unfolding aoPixel_def getPixel_wf[OF assms] prod.case l Let_def aoWindow_wf[OF assms]
      clamp_clampD aoD_def ..
qed

lemma roughnessWindow_wf:
  assumes "length src = w * h * 4" "x < w" "y < h"
  shows "roughnessWindow src w h x y (Fin (chan src w x y 0)) (Fin (chan src w x y 1))
           (Fin (chan src w x y 2)) =
     (varianceD src w h x y, length (windowList 1 w h x y))"
proof -
  let ?r = "Fin (chan src w x y 0)" and ?g = "Fin (chan src w x y 1)" and ?b = "Fin (chan src w x y 2)"
  let ?G = "\<lambda>nx ny. case getPixel src w nx ny of (nr, ng, nb, na) \<Rightarrow>
     fadd (fadd (fabs (fsub ?r nr)) (fabs (fsub ?g ng))) (fabs (fsub ?b nb))"
  have step: "roughnessNeighbour src w h x y ?r ?g ?b = winStep ?G w h x y"
    by (auto simp add: fun_eq_iff roughnessNeighbour_def winStep_def Let_def split: prod.splits)
  have "fold (\<lambda>q acc. fadd acc (case q of (nx, ny) \<Rightarrow> ?G nx ny)) (windowList 1 w h x y) c =
      fold (\<lambda>q acc. fadd acc (case q of (nx, ny) \<Rightarrow>
          fadd (fadd (fabs (fsub ?r (Fin (chan src w nx ny 0))))
                     (fabs (fsub ?g (Fin (chan src w nx ny 1)))))
               (fabs (fsub ?b (Fin (chan src w nx ny 2)))))) (windowList 1 w h x y) c" for c
  proof (rule fold_cong_set)
    fix q assume q: "q \<in> set (windowList 1 w h x y)"
    obtain nx ny where qq: "q = (nx, ny)" by (cases q)
    then have "nx < w" "ny < h" using q windowList_wf by blast+
    from getPixel_wf[OF assms(1) this] show "(case q of (nx, ny) \<Rightarrow> ?G nx ny) =
        (case q of (nx, ny) \<Rightarrow>
          fadd (fadd (fabs (fsub ?r (Fin (chan src w nx ny 0))))
                     (fabs (fsub ?g (Fin (chan src w nx ny 1)))))
               (fabs (fsub ?b (Fin (chan src w nx ny 2)))))"
      by (simp add: qq)
  qed
  then have "fold (\<lambda>(nx, ny) acc. fadd acc (?G nx ny)) (windowList 1 w h x y) (Fin 0) =
      varianceD src w h x y"
    by (simp add: varianceD_def case_prod_unfold)
  then show ?thesis
    unfolding roughnessWindow_def step upto1 window_fold visited_windowList by simp
qed

lemma roughnessPixel_wf:
  assumes "length src = w * h * 4" "x < w" "y < h"
  shows "roughnessPixel src w h i x y = roughnessD src w h i x y"
proof -
  have l: "grayscale (Fin (chan src w x y 0)) (Fin (chan src w x y 1)) (Fin (chan src w x y 2)) =
      lumaD src w x y" by (simp add: grayscale_def lumaD_def)
  show ?thesis
    unfolding roughnessPixel_def getPixel_wf[OF assms] prod.case l Let_def
      roughnessWindow_wf[OF assms] clamp_clampD roughnessD_def ..
qed

lemma generateAO_pixel:
  assumes "x < w" "y < h" "k < 4"
  shows "generateAO src w h i ! ((y * w + x) * 4 + k) =
     toUint8Clamp ([aoPixel src w h i x y, aoPixel src w h i x y, aoPixel src w h i x y, Fin 255] ! k)"
  unfolding generateAO_def Let_def
  by (rule forPixels_setPixel[OF assms]) simp

lemma generateRoughness_pixel:
  assumes "x < w" "y < h" "k < 4"
  shows "generateRoughness src w h i ! ((y * w + x) * 4 + k) =
     toUint8Clamp ([roughnessPixel src w h i x y, roughnessPixel src w h i x y,
                    roughnessPixel src w h i x y, Fin 255] ! k)"
  unfolding generateRoughness_def Let_def
  by (rule forPixels_setPixel[OF assms]) simp

lemma generateMetallic_pixel:
  assumes "x < w" "y < h" "k < 4"
  shows "generateMetallic src w h i ! ((y * w + x) * 4 + k) =
     toUint8Clamp ([metallicPixel src w i x y, metallicPixel src w i x y,
                    metallicPixel src w i x y, Fin 255] ! k)"
  unfolding generateMetallic_def Let_def
  by (rule forPixels_setPixel[OF assms]) simp

subsection \<open>The metallic value and the normal map\<close>

lemma fmax_Fin [simp]: "fmax (Fin a) (Fin b) = Fin (max a b)"
  by (simp add: fmax_def nle_def max_def)

lemma fmin_Fin [simp]: "fmin (Fin a) (Fin b) = Fin (min a b)"
  by (simp add: fmin_def nle_def min_def)

lemma metallicPixel_wf:
  assumes "length src = w * h * 4" "x < w" "y < h"
  shows "metallicPixel src w i x y = metallicD src w i x y"
  by (simp add: metallicPixel_def getPixel_wf[OF assms] Let_def grayscale_def lumaD_def
      clamp_clampD metallicD_def satD_def)

lemma heightMapOf_body:
  "(\<lambda>x y heightMap. case getPixel src w x y of (r, g, b, a) \<Rightarrow>
       heightMap[y * w + x := toFloat32 (fdiv (grayscale r g b) (Fin 255))]) =
   (\<lambda>x y heightMap. heightMap[y * w + x :=
       (case getPixel src w x y of (r, g, b, a) \<Rightarrow> toFloat32 (fdiv (grayscale r g b) (Fin 255)))])"
  by (auto simp add: fun_eq_iff split: prod.splits)

lemma length_heightMapOf: "length (heightMapOf src w h) = w * h"
proof -
  have "length (fold (\<lambda>(x, y) hm. hm[y * w + x := v x y]) ps hm) = length hm" for ps hm
    and v :: "nat \<Rightarrow> nat \<Rightarrow> number"
    by (induction ps arbitrary: hm) auto
  from this[of "\<lambda>x y. case getPixel src w x y of (r, g, b, a) \<Rightarrow> toFloat32 (fdiv (grayscale r g b) (Fin 255))"]
  show ?thesis by (simp add: heightMapOf_def heightMapOf_body forPixels_fold)
qed

lemma heightMapOf_cell:
  assumes "x < w" "y < h"
  shows "heightMapOf src w h ! (y * w + x) =
     (case getPixel src w x y of (r, g, b, a) \<Rightarrow> toFloat32 (fdiv (grayscale r g b) (Fin 255)))"
proof -
  have len: "y * w + x < length (replicate (w * h) (Fin 0))"
    using cell_index_bound[OF assms] by simp
  have "\<forall>(x', y') \<in> set (pixels w h). x' < w" by (simp add: set_pixels)
  from fold_cell[OF assms(1) len this]
  show ?thesis using assms by (simp add: heightMapOf_def heightMapOf_body forPixels_fold set_pixels)
qed

lemma clampCoord_less: "0 < n \<Longrightarrow> clampCoord n v < n"
  by (auto simp add: clampCoord_def)

lemma clampInt_coord: "0 < n \<Longrightarrow> clampInt v 0 (int n - 1) = int (clampCoord n v)"
  by (auto simp add: clampInt_def clampCoord_def)

lemma sobel_sample:
  assumes "length src = w * h * 4" "0 < w" "0 < h"
  shows "rdHeight (heightMapOf src w h)
           (nat (clampInt Y 0 (int h - 1) * int w + clampInt X 0 (int w - 1))) =
         heightD src w h X Y"
proof -
  let ?cx = "clampCoord w X" and ?cy = "clampCoord h Y"
  have cx: "?cx < w" and cy: "?cy < h" using assms(2,3) by (simp_all add: clampCoord_less)
  have idx: "nat (clampInt Y 0 (int h - 1) * int w + clampInt X 0 (int w - 1)) = ?cy * w + ?cx"
    using assms(2,3) by (simp add: clampInt_coord nat_add_distrib nat_mult_distrib)
  have "?cy * w + ?cx < w * h" by (rule cell_index_bound[OF cx cy])
  then show ?thesis
    unfolding idx
    by (simp add: rdHeight_def length_heightMapOf heightMapOf_cell[OF cx cy]
        getPixel_wf[OF assms(1) cx cy] grayscale_def heightD_def lumaD_def)
qed

lemma upto3: "[-1..1] = [-1, 0, 1::int]"
  by (simp add: upto.simps)

lemma sobel_wf:
  assumes "length src = w * h * 4" "x < w" "y < h"
  shows "sobel (heightMapOf src w h) w h x y =
     (gradientD kernelH src w h x y, gradientD kernelV src w h x y)"
proof -
  have w: "0 < w" and h: "0 < h" using assms(2,3) by simp_all
  note s = sobel_sample[OF assms(1) w h]
  have c: "1 + int x = int x + 1" "1 + int y = int y + 1" by simp_all
  show ?thesis
    by (simp add: sobel_def upto3 sobelStep_def Let_def s SOBEL_X_def SOBEL_Y_def
        kernelH_def kernelV_def gradientD_def c)
qed

lemma normalPixel_wf:
  assumes "length src = w * h * 4" "x < w" "y < h"
  shows "normalPixel (heightMapOf src w h) w h s x y = normalD src w h s x y"
  unfolding normalPixel_def sobel_wf[OF assms] prod.case normalD_def normalLength_def
    axisD_def Let_def ..

lemma generateNormal_pixel:
  assumes "x < w" "y < h" "k < 4"
  shows "generateNormal src w h s ! ((y * w + x) * 4 + k) =
     toUint8Clamp (case normalPixel (heightMapOf src w h) w h s x y of (nx, ny, nz) \<Rightarrow>
        [nx, ny, nz, Fin 255] ! k)"
proof -
  let ?n = "normalPixel (heightMapOf src w h) w h s"
  have body: "(\<lambda>x y dstData. case ?n x y of (nx, ny, nz) \<Rightarrow> setPixel dstData w x y nx ny nz (Fin 255))
     = (\<lambda>x y d. setPixel d w x y (fst (?n x y)) (fst (snd (?n x y))) (snd (snd (?n x y))) (Fin 255))"
    by (auto simp add: fun_eq_iff split: prod.splits)
  have "generateNormal src w h s ! ((y * w + x) * 4 + k) =
     toUint8Clamp ([fst (?n x y), fst (snd (?n x y)), snd (snd (?n x y)), Fin 255] ! k)"
    unfolding generateNormal_def Let_def body
    by (rule forPixels_setPixel[OF assms]) simp
  then show ?thesis by (simp split: prod.splits)
qed

subsection \<open>Rounding to double: order, fixed points and bounds\<close>

lemma double_alt:
  "double x = (if 2 powi 1024 \<le> \<bar>rnd x\<bar> then (if 0 < x then PInf else NInf) else Fin (rnd x))"
  by (simp add: double_def roundTo_def rnd_def Let_def)

lemma rnd_mono: "x \<le> y \<Longrightarrow> rnd x \<le> rnd y"
  unfolding rnd_def by (rule nearest_mono) simp_all

lemma rnd_minus: "rnd (- x) = - rnd x"
  by (simp add: rnd_def nearest_minus)

lemma rnd_0 [simp]: "rnd 0 = 0"
  by (simp add: rnd_def)

lemma rnd_nonneg: "0 \<le> x \<Longrightarrow> 0 \<le> rnd x"
  using rnd_mono[of 0 x] by simp

lemma rnd_nonpos: "x \<le> 0 \<Longrightarrow> rnd x \<le> 0"
  using rnd_mono[of x 0] by simp

lemma double_cases:
  obtains (fin) "double x = Fin (rnd x)" "\<bar>rnd x\<bar> < 2 powi 1024"
    | (pinf) "double x = PInf" "2 powi 1024 \<le> rnd x" "0 < x"
    | (ninf) "double x = NInf" "rnd x \<le> - (2 powi 1024)" "x < 0"
proof (cases "2 powi 1024 \<le> \<bar>rnd x\<bar>")
  case False
  then show ?thesis using fin by (simp add: double_alt)
next
  case True
  have p: "(0::real) < 2 powi 1024" by simp
  show ?thesis
  proof (cases "0 < x")
    case x: True
    then have "0 \<le> rnd x" by (intro rnd_nonneg) simp
    then show ?thesis using True x pinf by (simp add: double_alt)
  next
    case x: False
    then have r: "rnd x \<le> 0" by (intro rnd_nonpos) simp
    have "x \<noteq> 0" using True p by auto
    then have "x < 0" using x by simp
    then show ?thesis using True x r ninf by (simp add: double_alt)
  qed
qed

lemma double_not_NaN [simp]: "double x \<noteq> NaN"
  by (cases x rule: double_cases) simp_all

lemma double_mono: "x \<le> y \<Longrightarrow> nle (double x) (double y)"
proof -
  assume xy: "x \<le> y"
  note m = rnd_mono[OF xy]
  show ?thesis
  proof (cases y rule: double_cases)
    case pinf
    then show ?thesis by (cases x rule: double_cases) (simp_all add: nle_def)
  next
    case ninf
    then have "rnd x \<le> - (2 powi 1024)" using m by simp
    then have "double x = NInf"
      by (cases x rule: double_cases) (use xy ninf in auto)
    then show ?thesis using ninf by (simp add: nle_def)
  next
    case fin
    then show ?thesis
      by (cases x rule: double_cases) (use m in \<open>auto simp add: nle_def\<close>)
  qed
qed

lemma double_minus: "double (- x) = fneg (double x)"
  by (cases x rule: double_cases) (auto simp add: double_alt rnd_minus fneg_def)

lemma double_int: "\<bar>n\<bar> < 2 ^ 53 \<Longrightarrow> double (real_of_int n) = Fin (real_of_int n)"
proof -
  assume n: "\<bar>n\<bar> < 2 ^ 53"
  have r: "rnd (real_of_int n) = real_of_int n"
    unfolding rnd_def by (rule nearest_int) (use n in simp_all)
  have "real_of_int \<bar>n\<bar> < real_of_int (2 ^ 53)" using n by (simp only: of_int_less_iff)
  then have "\<bar>real_of_int n\<bar> < 2 ^ 53" by simp
  moreover have "(2::real) ^ 53 \<le> 2 powi 1024" by simp
  ultimately show ?thesis by (simp add: double_alt r)
qed

lemma double_nat: "n < 2 ^ 53 \<Longrightarrow> double (real n) = Fin (real n)"
  using double_int[of "int n"] by simp

lemma double_pow2: "k \<le> 1023 \<Longrightarrow> double (2 ^ k) = Fin (2 ^ k)"
proof -
  assume k: "k \<le> (1023::nat)"
  have e: "expo (- 1022) (2 ^ k) = int k"
    by (rule expo_eqI) (simp_all add: power_int_add)
  have u: "ulp 53 (- 1022) (2 ^ k) = 2 powi (int k - 52)"
    by (simp add: ulp_def e)
  have "(2::real) ^ k = 2 powi (52 + (int k - 52))" by simp
  also have "\<dots> = 2 powi 52 * 2 powi (int k - 52)" by (rule pow2_split)
  finally have "(2::real) ^ k = real_of_int (2 ^ 52) * ulp 53 (- 1022) (2 ^ k)"
    unfolding u by simp
  then have r: "rnd (2 ^ k) = 2 ^ k" unfolding rnd_def by (rule nearest_fix)
  have "(2::real) powi (int k) < 2 powi 1024" using k by (intro power_int_strict_increasing) simp_all
  then show ?thesis by (simp add: double_alt r)
qed

lemma fbound_double:
  assumes "\<bar>x\<bar> \<le> B" "double B = Fin B"
  shows "fbound B (double x)"
proof -
  have "x \<le> B" "- B \<le> x" using assms(1) by simp_all
  from double_mono[OF this(1)] double_mono[OF this(2)]
  show ?thesis
    unfolding double_minus assms(2)
    by (cases "double x") (simp_all add: nle_def fbound_def fneg_def)
qed

lemma fboundE: "fbound B a \<Longrightarrow> (\<And>v. a = Fin v \<Longrightarrow> \<bar>v\<bar> \<le> B \<Longrightarrow> P) \<Longrightarrow> P"
  by (cases a) (simp_all add: fbound_def)

lemma fbound_Fin [simp]: "fbound B (Fin v) \<longleftrightarrow> \<bar>v\<bar> \<le> B"
  by (simp add: fbound_def)

lemma fbound_mono: "fbound A a \<Longrightarrow> A \<le> B \<Longrightarrow> fbound B a"
  by (cases a) (simp_all add: fbound_def)

lemma fbound_fadd:
  assumes "fbound A a" "fbound B b" "double (A + B) = Fin (A + B)"
  shows "fbound (A + B) (fadd a b)"
proof -
  from assms(1) obtain u where a: "a = Fin u" "\<bar>u\<bar> \<le> A" by (rule fboundE)
  from assms(2) obtain v where b: "b = Fin v" "\<bar>v\<bar> \<le> B" by (rule fboundE)
  have "\<bar>u + v\<bar> \<le> A + B" using a b by linarith
  from fbound_double[OF this assms(3)] show ?thesis by (simp add: a b fadd_def)
qed

lemma fbound_fmul:
  assumes "fbound A a" "fbound B b" "double (A * B) = Fin (A * B)"
  shows "fbound (A * B) (fmul a b)"
proof -
  from assms(1) obtain u where a: "a = Fin u" "\<bar>u\<bar> \<le> A" by (rule fboundE)
  from assms(2) obtain v where b: "b = Fin v" "\<bar>v\<bar> \<le> B" by (rule fboundE)
  have "\<bar>u\<bar> * \<bar>v\<bar> \<le> A * B" using a b by (intro mult_mono) simp_all
  then have "\<bar>u * v\<bar> \<le> A * B" by (simp add: abs_mult)
  from fbound_double[OF this assms(3)] show ?thesis by (simp add: a b fmul_def)
qed

lemma fbound_fneg [simp]: "fbound B (fneg a) = fbound B a"
  by (cases a) (simp_all add: fbound_def fneg_def)

lemma fbound_fabs [simp]: "fbound B (fabs a) = fbound B a"
  by (cases a) (simp_all add: fbound_def fabs_def)

lemma fbound_fsub:
  assumes "fbound A a" "fbound B b" "double (A + B) = Fin (A + B)"
  shows "fbound (A + B) (fsub a b)"
  unfolding fsub_def using assms by (intro fbound_fadd) simp_all

subsection \<open>The order of the numbers and the monotonicity of the operations\<close>

lemma nle_simps [simp]:
  "nle (Fin u) (Fin v) = (u \<le> v)"
  "nle NaN b = False" "nle a NaN = False"
  "nle NInf b = (b \<noteq> NaN)" "nle a PInf = (a \<noteq> NaN)"
  "nle PInf (Fin v) = False" "nle PInf NInf = False" "nle (Fin u) NInf = False"
  by (cases a; cases b; simp add: nle_def)+

lemma nle_double [simp]: "nle (double x) PInf" "nle NInf (double x)"
  by simp_all

lemma fadd_mono_left: "nle a b \<Longrightarrow> nle (fadd a (Fin k)) (fadd b (Fin k))"
  by (cases a; cases b) (simp_all add: fadd_def double_mono)

lemma fadd_mono_right: "nle a b \<Longrightarrow> nle (fadd (Fin k) a) (fadd (Fin k) b)"
  by (cases a; cases b) (simp_all add: fadd_def double_mono)

lemma fneg_anti: "nle a b \<Longrightarrow> nle (fneg b) (fneg a)"
  by (cases a; cases b) (simp_all add: fneg_def)

lemma fsub_anti_right: "nle a b \<Longrightarrow> nle (fsub (Fin k) b) (fsub (Fin k) a)"
  unfolding fsub_def by (intro fadd_mono_right fneg_anti)

lemma fsub_mono_left: "nle a b \<Longrightarrow> nle (fsub a (Fin k)) (fsub b (Fin k))"
  unfolding fsub_def by (simp add: fneg_def fadd_mono_left)

lemma fmul_mono_pos: "0 < k \<Longrightarrow> nle a b \<Longrightarrow> nle (fmul a (Fin k)) (fmul b (Fin k))"
  by (cases a; cases b)
     (simp_all add: fmul_def double_mono signum_def infinity_def)

lemma fmul_mono_nonneg: "0 \<le> c \<Longrightarrow> u \<le> v \<Longrightarrow> nle (fmul (Fin c) (Fin u)) (fmul (Fin c) (Fin v))"
  by (simp add: fmul_def double_mono mult_left_mono)

lemma clampD_mono: "nle a b \<Longrightarrow> nle (clampD a) (clampD b)"
  by (cases a; cases b) (simp_all add: clampD_def fmin_def fmax_def)

lemma round8_le: "round8 v \<le> 255"
proof -
  have "roundHalfEven v \<le> 255" if "v < 255"
  proof -
    have "\<lfloor>v\<rfloor> \<le> 254" using that by linarith
    then show ?thesis using roundHalfEven_bounds[of v] by linarith
  qed
  then show ?thesis by (auto simp add: round8_def)
qed

lemma toUint8Clamp_round8: "toUint8Clamp (Fin v) = of_nat (round8 v)"
proof -
  have "0 \<le> roundHalfEven v" if "0 < v"
    using that roundHalfEven_bounds[of v] by (smt (verit) zero_le_floor less_eq_real_def)
  then show ?thesis
    by (auto simp add: toUint8Clamp_def round8_def roundHalfEven_def Let_def)
qed

lemma unat_toUint8Clamp: "unat (toUint8Clamp (Fin v)) = round8 v"
proof -
  have "round8 v < 2 ^ LENGTH(8)" using round8_le[of v] by simp
  then show ?thesis unfolding toUint8Clamp_round8 by (rule of_nat_inverse[OF refl])
qed

lemma round8_mono: "u \<le> v \<Longrightarrow> round8 u \<le> round8 v"
proof -
  assume uv: "u \<le> v"
  have a: "nat (roundHalfEven u) \<le> nat (roundHalfEven v)"
    using roundHalfEven_mono[OF uv] by simp
  consider "u \<le> 0" | "255 \<le> v" | "0 < u" "v < 255" by linarith
  then show ?thesis
  proof cases
    case 1
    then show ?thesis by (simp add: round8_def)
  next
    case 2
    then show ?thesis using round8_le[of u] by (simp add: round8_def)
  next
    case 3
    then show ?thesis using uv a by (simp add: round8_def)
  qed
qed

lemma toUint8Clamp_mono: "nle a b \<Longrightarrow> toUint8Clamp a \<le> toUint8Clamp b"
proof (cases a; cases b)
  fix u v assume "a = Fin u" "b = Fin v" "nle a b"
  then show ?thesis by (simp add: word_le_nat_alt unat_toUint8Clamp round8_mono)
next
  fix u assume a: "a = Fin u" "b = PInf"
  have "unat (toUint8Clamp (Fin u)) \<le> 255" by (simp add: unat_toUint8Clamp round8_le)
  then show ?thesis using a by (simp add: word_le_nat_alt) (simp add: toUint8Clamp_def)
qed (simp_all add: toUint8Clamp_def)

lemma round8_near:
  assumes "0 \<le> v" "v \<le> 255"
  shows "\<bar>real (round8 v) - v\<bar> \<le> 1 / 2"
proof -
  have "0 \<le> roundHalfEven v" using assms(1) roundHalfEven_bounds[of v]
    by (smt (verit) zero_le_floor)
  then have r: "real (nat (roundHalfEven v)) = real_of_int (roundHalfEven v)" by simp
  consider "v = 0" | "v = 255" | "0 < v" "v < 255" using assms by linarith
  then show ?thesis
  proof cases
    case 3
    then have "round8 v = nat (roundHalfEven v)" by (simp add: round8_def)
    then show ?thesis using roundHalfEven_near[of v] by (simp only: r)
  qed (simp_all add: round8_def)
qed

lemma clampSpec_mono: "u \<le> v \<Longrightarrow> clampSpec u lo hi \<le> clampSpec v lo hi" if "lo \<le> hi"
  using that by (auto simp add: clampSpec_def)

lemma avgContrast_nonneg: "0 \<le> avgContrast src w h x y"
  unfolding avgContrast_def
  by (intro divide_nonneg_nonneg sum_nonneg) (auto split: prod.splits)

lemma aoSpec_antitone:
  assumes "a1 \<le> a2"
  shows "aoSpec src w h a2 x y \<le> aoSpec src w h a1 x y"
proof -
  have "avgContrast src w h x y * a1 \<le> avgContrast src w h x y * a2"
    using assms avgContrast_nonneg by (rule mult_left_mono)
  then show ?thesis
    unfolding aoSpec_def by (intro clampSpec_mono) simp_all
qed

subsection \<open>Finite values\<close>

lemma fposE: "fpos B a \<Longrightarrow> (\<And>v. a = Fin v \<Longrightarrow> 0 \<le> v \<Longrightarrow> v \<le> B \<Longrightarrow> P) \<Longrightarrow> P"
  by (cases a) (simp_all add: fpos_def)

lemma fpos_Fin [simp]: "fpos B (Fin v) \<longleftrightarrow> 0 \<le> v \<and> v \<le> B"
  by (simp add: fpos_def)

lemma fpos_fbound: "fpos B a \<Longrightarrow> fbound B a"
  by (cases a) (simp_all add: fpos_def)

lemma fpos_mono: "fpos A a \<Longrightarrow> A \<le> B \<Longrightarrow> fpos B a"
  by (cases a) (simp_all add: fpos_def)

lemma fpos_double:
  assumes "0 \<le> x" "x \<le> B" "double B = Fin B"
  shows "fpos B (double x)"
proof -
  from double_mono[OF assms(1)] double_mono[OF assms(2)]
  show ?thesis
    unfolding assms(3) using double_int[of 0]
    by (cases "double x") (simp_all add: fpos_def)
qed

lemma double_numeral [simp]:
  "numeral n < (2::int) ^ 53 \<Longrightarrow> double (numeral n) = Fin (numeral n)"
  using double_int[of "numeral n"] by simp

lemma double_0 [simp]: "double 0 = Fin 0"
  using double_int[of 0] by simp

lemma double_1 [simp]: "double 1 = Fin 1"
  using double_int[of 1] by simp

lemma fpos_fadd:
  assumes "fpos A a" "fpos B b" "double (A + B) = Fin (A + B)"
  shows "fpos (A + B) (fadd a b)"
proof -
  from assms(1) obtain u where a: "a = Fin u" "0 \<le> u" "u \<le> A" by (rule fposE)
  from assms(2) obtain v where b: "b = Fin v" "0 \<le> v" "v \<le> B" by (rule fposE)
  have "0 \<le> u + v" "u + v \<le> A + B" using a b by simp_all
  from fpos_double[OF this assms(3)] show ?thesis by (simp add: a b fadd_def)
qed

lemma fpos_fmul:
  assumes "fpos A a" "fpos B b" "double (A * B) = Fin (A * B)"
  shows "fpos (A * B) (fmul a b)"
proof -
  from assms(1) obtain u where a: "a = Fin u" "0 \<le> u" "u \<le> A" by (rule fposE)
  from assms(2) obtain v where b: "b = Fin v" "0 \<le> v" "v \<le> B" by (rule fposE)
  have "0 \<le> u * v" "u * v \<le> A * B" using a b by (simp_all add: mult_mono)
  from fpos_double[OF this assms(3)] show ?thesis by (simp add: a b fmul_def)
qed

lemma fpos_fabs: "fbound B a \<Longrightarrow> fpos B (fabs a)"
  by (cases a) (simp_all add: fabs_def fbound_def)

lemma chan_nonneg [simp]: "0 \<le> chan src w x y c"
  unfolding chan_def by (rule of_nat_0_le_iff)

lemma chan_le [simp]: "chan src w x y c \<le> 255"
proof -
  have "unat (src ! ((y * w + x) * 4 + c)) < 2 ^ LENGTH(8)" by (rule unsigned_less)
  then have "unat (src ! ((y * w + x) * 4 + c)) \<le> 255" by simp
  then have "real (unat (src ! ((y * w + x) * 4 + c))) \<le> real 255" by (simp only: of_nat_le_iff)
  then show ?thesis unfolding chan_def by simp
qed

lemma fpos_const: "0 \<le> c \<Longrightarrow> c \<le> 1 \<Longrightarrow> fpos 1 (double c)"
  by (rule fpos_double) simp_all

lemma lumaD_fpos: "fpos 765 (lumaD src w x y)"
proof -
  have c: "fpos 1 (double 0.299)" "fpos 1 (double 0.587)" "fpos 1 (double 0.114)"
    by (rule fpos_const; simp)+
  have p: "fpos (1 * 255) (fmul (double q) (Fin (chan src w x y k)))" if "fpos 1 (double q)" for q k
    using that by (rule fpos_fmul) simp_all
  have "fpos (1 * 255 + 1 * 255 + 1 * 255) (lumaD src w x y)"
    unfolding lumaD_def
    by (intro fpos_fadd p c) simp_all
  then show ?thesis by simp
qed

lemma fold_fadd_fpos:
  assumes "\<forall>p \<in> set ps. fpos (real b) (f p)" "fpos (real (n * b)) acc"
    and "(n + length ps) * b < 2 ^ 53"
  shows "fpos (real ((n + length ps) * b)) (fold (\<lambda>p acc. fadd acc (f p)) ps acc)"
  using assms
proof (induction ps arbitrary: acc n)
  case Nil
  then show ?case by simp
next
  case (Cons p ps)
  have lt: "Suc n * b < 2 ^ 53"
    using Cons.prems(3) by (rule le_less_trans[rotated]) (simp add: add_mult_distrib)
  have e: "real (n * b) + real b = real (Suc n * b)" by (simp add: algebra_simps)
  have "fpos (real (n * b) + real b) (fadd acc (f p))"
  proof (rule fpos_fadd)
    show "fpos (real (n * b)) acc" by (rule Cons.prems(2))
    show "fpos (real b) (f p)" using Cons.prems(1) by simp
    show "double (real (n * b) + real b) = Fin (real (n * b) + real b)"
      unfolding e by (rule double_nat[OF lt])
  qed
  then have a: "fpos (real (Suc n * b)) (fadd acc (f p))" unfolding e .
  have "fpos (real ((Suc n + length ps) * b)) (fold (\<lambda>p acc. fadd acc (f p)) ps (fadd acc (f p)))"
    using Cons.prems(1,3) by (intro Cons.IH a) simp_all
  then show ?case by simp
qed

lemma length_windowList: "length (windowList r w h x y) \<le> (2 * r + 1) * (2 * r + 1)"
proof -
  have "length (windowList r w h x y) =
      (min h (y + r + 1) - (y - r)) * (min w (x + r + 1) - (x - r))"
    by (simp add: windowList_def length_concat comp_def sum_list_triv)
  also have "\<dots> \<le> (2 * r + 1) * (2 * r + 1)"
    by (intro mult_le_mono) auto
  finally show ?thesis .
qed

lemma contrastD_fpos: "fpos 38250 (contrastD src w h x y)"
proof -
  let ?f = "\<lambda>p. case p of (nx, ny) \<Rightarrow> fabs (fsub (lumaD src w x y) (lumaD src w nx ny))"
  let ?ps = "windowList 2 w h x y"
  have l: "length ?ps \<le> 25" using length_windowList[of 2 w h x y] by simp
  have t: "fpos (real 1530) (?f p)" for p
  proof -
    have "fbound (765 + 765) (fsub (lumaD src w x y) (lumaD src w nx ny))" for nx ny
      by (intro fbound_fsub fpos_fbound lumaD_fpos) simp
    then show ?thesis by (cases p) (simp add: fpos_fabs)
  qed
  have "(0 + length ?ps) * 1530 \<le> 25 * 1530" using l by simp
  then have lt: "(0 + length ?ps) * 1530 < 2 ^ 53" by simp
  have "fpos (real ((0 + length ?ps) * 1530)) (fold (\<lambda>p acc. fadd acc (?f p)) ?ps (Fin 0))"
  proof (rule fold_fadd_fpos[OF _ _ lt])
    show "\<forall>p \<in> set ?ps. fpos (real 1530) (?f p)" using t by blast
    show "fpos (real (0 * 1530)) (Fin 0)" by simp
  qed
  moreover have "(\<lambda>p acc. fadd acc (?f p)) =
      (\<lambda>(nx, ny) acc. fadd acc (fabs (fsub (lumaD src w x y) (lumaD src w nx ny))))"
    by (simp add: fun_eq_iff)
  ultimately have "fpos (real ((0 + length ?ps) * 1530)) (contrastD src w h x y)"
    by (simp add: contrastD_def)
  then show ?thesis by (rule fpos_mono) (use l in simp)
qed

lemma fpos_fdiv_nat:
  assumes "fpos B a" "1 \<le> n" "double B = Fin B"
  shows "fpos B (fdiv a (Fin (real n)))"
proof -
  from assms(1) obtain u where a: "a = Fin u" "0 \<le> u" "u \<le> B" by (rule fposE)
  have "u / real n \<le> u / 1" using a assms(2) by (intro divide_left_mono) simp_all
  then have "0 \<le> u / real n" "u / real n \<le> B" using a by simp_all
  from fpos_double[OF this assms(3)] show ?thesis using assms(2) by (simp add: a fdiv_def)
qed

lemma aoD_antitone:
  assumes "x < w" "y < h" "a1 \<le> a2"
  shows "nle (aoD src w h (Fin a2) x y) (aoD src w h (Fin a1) x y)"
proof -
  let ?n = "length (windowList 2 w h x y)"
  have n: "1 \<le> ?n" by (rule length_windowList_pos[OF assms(1,2)])
  have "fpos 38250 (fdiv (contrastD src w h x y) (Fin (real ?n)))"
    by (intro fpos_fdiv_nat contrastD_fpos n) simp
  then obtain c where c: "fdiv (contrastD src w h x y) (Fin (real ?n)) = Fin c" "0 \<le> c"
    by (rule fposE)
  have "fbound (255 + 765) (fsub (Fin 255) (lumaD src w x y))"
    by (intro fbound_fsub fpos_fbound lumaD_fpos) simp_all
  moreover have "fbound 1 (double 0.3)" by (intro fpos_fbound fpos_const) simp_all
  ultimately have "fbound ((255 + 765) * 1) (fmul (fsub (Fin 255) (lumaD src w x y)) (double 0.3))"
    by (intro fbound_fmul) simp_all
  then obtain k where k: "fmul (fsub (Fin 255) (lumaD src w x y)) (double 0.3) = Fin k"
    by (rule fboundE)
  show ?thesis
    unfolding aoD_def c k
    by (intro clampD_mono fsub_mono_left fsub_anti_right fmul_mono_pos fmul_mono_nonneg c assms) simp
qed

subsection \<open>Concrete values used by the examples\<close>

lemma double_eq:
  assumes "nle (Fin q) (double x)" "nle (double x) (Fin q)"
  shows "double x = Fin q"
  using assms by (cases "double x") simp_all

lemma fsqrt_eqI:
  assumes "0 \<le> lo" "lo\<^sup>2 \<le> s" "s \<le> hi\<^sup>2" "0 \<le> hi" "double lo = Fin q" "double hi = Fin q"
  shows "fsqrt (Fin s) = Fin q"
proof -
  have s: "0 \<le> s" using assms(2) zero_le_power2[of lo] by linarith
  have "lo \<le> sqrt s" using assms(2) by (rule real_le_rsqrt)
  moreover have "sqrt s \<le> hi" using s assms(3,4) by (intro real_le_lsqrt)
  ultimately have "nle (Fin q) (double (sqrt s))" "nle (double (sqrt s)) (Fin q)"
    using double_mono[of lo "sqrt s"] double_mono[of "sqrt s" hi] by (simp_all add: assms(5,6))
  then have "double (sqrt s) = Fin q" by (rule double_eq)
  then show ?thesis using s by (simp add: fsqrt_def)
qed

lemma ao_value_a:
  "aoD [101, 101, 101, 255, 121, 121, 121, 255] 2 1 (Fin 1) 0 0 = Fin (3321404725185741 / 17592186044416)"
proof -
  have s1: "windowList 2 2 1 0 0 = [(0, 0), (1, 0)]"
    by (simp add: windowList_def upt_rec)
  have s2: "double 0.299 = Fin (5386305154335113 / 18014398509481984)"
    by (simp add: ev)
  have s3: "double 0.587 = Fin (2643612981266481 / 4503599627370496)"
    by (simp add: ev)
  have s4: "double 0.114 = Fin (8214565720323785 / 72057594037927936)"
    by (simp add: ev)
  have s5: "chan [101, 101, 101, 255, 121, 121, 121, 255] 2 0 0 0 = 101"
    by (simp add: chan_def)
  have s6: "chan [101, 101, 101, 255, 121, 121, 121, 255] 2 0 0 1 = 101"
    by (simp add: chan_def)
  have s7: "chan [101, 101, 101, 255, 121, 121, 121, 255] 2 0 0 2 = 101"
    by (simp add: chan_def)
  have s8: "fmul (Fin (5386305154335113 / 18014398509481984)) (Fin 101) = Fin (2125065705421275 / 70368744177664)"
    by (simp add: fmul_def signum_def infinity_def ev)
  have s9: "fmul (Fin (2643612981266481 / 4503599627370496)) (Fin 101) = Fin (8343903472122331 / 140737488355328)"
    by (simp add: fmul_def signum_def infinity_def ev)
  have s10: "fadd (Fin (2125065705421275 / 70368744177664)) (Fin (8343903472122331 / 140737488355328)) = Fin (787127180185305 / 8796093022208)"
    by (simp add: fadd_def ev)
  have s11: "fmul (Fin (8214565720323785 / 72057594037927936)) (Fin 101) = Fin (6481805763692987 / 562949953421312)"
    by (simp add: fmul_def signum_def infinity_def ev)
  have s12: "fadd (Fin (787127180185305 / 8796093022208)) (Fin (6481805763692987 / 562949953421312)) = Fin (7107243161944063 / 70368744177664)"
    by (simp add: fadd_def ev)
  have s13: "fneg (Fin (7107243161944063 / 70368744177664)) = Fin (- (7107243161944063 / 70368744177664))"
    by (simp add: fneg_def)
  have s14: "fadd (Fin (7107243161944063 / 70368744177664)) (Fin (- (7107243161944063 / 70368744177664))) = Fin 0"
    by (simp add: fadd_def ev)
  have s15: "fabs (Fin 0) = Fin 0"
    by (simp add: fabs_def)
  have s16: "fadd (Fin 0) (Fin 0) = Fin 0"
    by (simp add: fadd_def ev)
  have s17: "chan [101, 101, 101, 255, 121, 121, 121, 255] 2 1 0 0 = 121"
    by (simp add: chan_def)
  have s18: "chan [101, 101, 101, 255, 121, 121, 121, 255] 2 1 0 1 = 121"
    by (simp add: chan_def)
  have s19: "chan [101, 101, 101, 255, 121, 121, 121, 255] 2 1 0 2 = 121"
    by (simp add: chan_def)
  have s20: "fmul (Fin (5386305154335113 / 18014398509481984)) (Fin 121) = Fin (1272935397801853 / 35184372088832)"
    by (simp add: fmul_def signum_def infinity_def ev)
  have s21: "fmul (Fin (2643612981266481 / 4503599627370496)) (Fin 121) = Fin (4998080792706941 / 70368744177664)"
    by (simp add: fmul_def signum_def infinity_def ev)
  have s22: "fadd (Fin (1272935397801853 / 35184372088832)) (Fin (4998080792706941 / 70368744177664)) = Fin (7543951588310647 / 70368744177664)"
    by (simp add: fadd_def ev)
  have s23: "fmul (Fin (8214565720323785 / 72057594037927936)) (Fin 121) = Fin (3882665828746789 / 281474976710656)"
    by (simp add: fmul_def signum_def infinity_def ev)
  have s24: "fadd (Fin (7543951588310647 / 70368744177664)) (Fin (3882665828746789 / 281474976710656)) = Fin 121"
    by (simp add: fadd_def ev)
  have s25: "fneg (Fin 121) = Fin (- 121)"
    by (simp add: fneg_def)
  have s26: "fadd (Fin (7107243161944063 / 70368744177664)) (Fin (- 121)) = Fin (- (1407374883553281 / 70368744177664))"
    by (simp add: fadd_def ev)
  have s27: "fabs (Fin (- (1407374883553281 / 70368744177664))) = Fin (1407374883553281 / 70368744177664)"
    by (simp add: fabs_def)
  have s28: "fadd (Fin 0) (Fin (1407374883553281 / 70368744177664)) = Fin (1407374883553281 / 70368744177664)"
    by (simp add: fadd_def ev)
  have s29: "real (length [(0, 0), (1, 0)]) = 2"
    by simp
  have s30: "fdiv (Fin (1407374883553281 / 70368744177664)) (Fin 2) = Fin (1407374883553281 / 140737488355328)"
    by (simp add: fdiv_def signum_def infinity_def ev)
  have s31: "double 0.3 = Fin (5404319552844595 / 18014398509481984)"
    by (simp add: ev)
  have s32: "fmul (Fin (1407374883553281 / 140737488355328)) (Fin 1) = Fin (1407374883553281 / 140737488355328)"
    by (simp add: fmul_def signum_def infinity_def ev)
  have s33: "fmul (Fin (1407374883553281 / 140737488355328)) (Fin 2) = Fin (1407374883553281 / 70368744177664)"
    by (simp add: fmul_def signum_def infinity_def ev)
  have s34: "fneg (Fin (1407374883553281 / 70368744177664)) = Fin (- (1407374883553281 / 70368744177664))"
    by (simp add: fneg_def)
  have s35: "fadd (Fin 255) (Fin (- (1407374883553281 / 70368744177664))) = Fin 235"
    by (simp add: fadd_def ev)
  have s36: "fadd (Fin 255) (Fin (- (7107243161944063 / 70368744177664))) = Fin 154"
    by (simp add: fadd_def ev)
  have s37: "fmul (Fin 154) (Fin (5404319552844595 / 18014398509481984)) = Fin (6502071962016153 / 140737488355328)"
    by (simp add: fmul_def signum_def infinity_def ev)
  have s38: "fneg (Fin (6502071962016153 / 140737488355328)) = Fin (- (6502071962016153 / 140737488355328))"
    by (simp add: fneg_def)
  have s39: "fadd (Fin 235) (Fin (- (6502071962016153 / 140737488355328))) = Fin (3321404725185741 / 17592186044416)"
    by (simp add: fadd_def ev)
  have s40: "fmin (Fin 255) (Fin (3321404725185741 / 17592186044416)) = Fin (3321404725185741 / 17592186044416)"
    by (simp add: fmin_def nle_def)
  have s41: "fmax (Fin 0) (Fin (3321404725185741 / 17592186044416)) = Fin (3321404725185741 / 17592186044416)"
    by (simp add: fmax_def nle_def)
  show ?thesis
    by (simp only: aoD_def contrastD_def lumaD_def clampD_def fsub_def fold_simps o_apply id_apply prod.case s1 s2 s3 s4 s5 s6 s7 s8 s9 s10 s11 s12 s13 s14 s15 s16 s17 s18 s19 s20 s21 s22 s23 s24 s25 s26 s27 s28 s29 s30 s31 s32 s33 s34 s35 s36 s37 s38 s39 s40 s41)
qed

lemma ao_value_b:
  "aoD [1, 1, 1, 255, 190, 190, 190, 255] 2 1 (Fin 1) 1 0 = Fin (6544293208522755 / 140737488355328)"
proof -
  have s1: "windowList 2 2 1 1 0 = [(0, 0), (1, 0)]"
    by (simp add: windowList_def upt_rec)
  have s2: "double 0.299 = Fin (5386305154335113 / 18014398509481984)"
    by (simp add: ev)
  have s3: "double 0.587 = Fin (2643612981266481 / 4503599627370496)"
    by (simp add: ev)
  have s4: "double 0.114 = Fin (8214565720323785 / 72057594037927936)"
    by (simp add: ev)
  have s5: "chan [1, 1, 1, 255, 190, 190, 190, 255] 2 1 0 0 = 190"
    by (simp add: chan_def)
  have s6: "chan [1, 1, 1, 255, 190, 190, 190, 255] 2 1 0 1 = 190"
    by (simp add: chan_def)
  have s7: "chan [1, 1, 1, 255, 190, 190, 190, 255] 2 1 0 2 = 190"
    by (simp add: chan_def)
  have s8: "fmul (Fin (5386305154335113 / 18014398509481984)) (Fin 190) = Fin (7995296713466183 / 140737488355328)"
    by (simp add: fmul_def signum_def infinity_def ev)
  have s9: "fmul (Fin (2643612981266481 / 4503599627370496)) (Fin 190) = Fin (7848226038134865 / 70368744177664)"
    by (simp add: fmul_def signum_def infinity_def ev)
  have s10: "fadd (Fin (7995296713466183 / 140737488355328)) (Fin (7848226038134865 / 70368744177664)) = Fin (2961468598716989 / 17592186044416)"
    by (simp add: fadd_def ev)
  have s11: "fmul (Fin (8214565720323785 / 72057594037927936)) (Fin 190) = Fin (6096747995552809 / 281474976710656)"
    by (simp add: fmul_def signum_def infinity_def ev)
  have s12: "fadd (Fin (2961468598716989 / 17592186044416)) (Fin (6096747995552809 / 281474976710656)) = Fin (6685030696878079 / 35184372088832)"
    by (simp add: fadd_def ev)
  have s13: "chan [1, 1, 1, 255, 190, 190, 190, 255] 2 0 0 0 = 1"
    by (simp add: chan_def)
  have s14: "chan [1, 1, 1, 255, 190, 190, 190, 255] 2 0 0 1 = 1"
    by (simp add: chan_def)
  have s15: "chan [1, 1, 1, 255, 190, 190, 190, 255] 2 0 0 2 = 1"
    by (simp add: chan_def)
  have s16: "fmul (Fin (5386305154335113 / 18014398509481984)) (Fin 1) = Fin (5386305154335113 / 18014398509481984)"
    by (simp add: fmul_def signum_def infinity_def ev)
  have s17: "fmul (Fin (2643612981266481 / 4503599627370496)) (Fin 1) = Fin (2643612981266481 / 4503599627370496)"
    by (simp add: fmul_def signum_def infinity_def ev)
  have s18: "fadd (Fin (5386305154335113 / 18014398509481984)) (Fin (2643612981266481 / 4503599627370496)) = Fin (3990189269850259 / 4503599627370496)"
    by (simp add: fadd_def ev)
  have s19: "fmul (Fin (8214565720323785 / 72057594037927936)) (Fin 1) = Fin (8214565720323785 / 72057594037927936)"
    by (simp add: fmul_def signum_def infinity_def ev)
  have s20: "fadd (Fin (3990189269850259 / 4503599627370496)) (Fin (8214565720323785 / 72057594037927936)) = Fin (9007199254740991 / 9007199254740992)"
    by (simp add: fadd_def ev)
  have s21: "fneg (Fin (9007199254740991 / 9007199254740992)) = Fin (- (9007199254740991 / 9007199254740992))"
    by (simp add: fneg_def)
  have s22: "fadd (Fin (6685030696878079 / 35184372088832)) (Fin (- (9007199254740991 / 9007199254740992))) = Fin (6649846324789247 / 35184372088832)"
    by (simp add: fadd_def ev)
  have s23: "fabs (Fin (6649846324789247 / 35184372088832)) = Fin (6649846324789247 / 35184372088832)"
    by (simp add: fabs_def)
  have s24: "fadd (Fin 0) (Fin (6649846324789247 / 35184372088832)) = Fin (6649846324789247 / 35184372088832)"
    by (simp add: fadd_def ev)
  have s25: "fneg (Fin (6685030696878079 / 35184372088832)) = Fin (- (6685030696878079 / 35184372088832))"
    by (simp add: fneg_def)
  have s26: "fadd (Fin (6685030696878079 / 35184372088832)) (Fin (- (6685030696878079 / 35184372088832))) = Fin 0"
    by (simp add: fadd_def ev)
  have s27: "fabs (Fin 0) = Fin 0"
    by (simp add: fabs_def)
  have s28: "fadd (Fin (6649846324789247 / 35184372088832)) (Fin 0) = Fin (6649846324789247 / 35184372088832)"
    by (simp add: fadd_def ev)
  have s29: "real (length [(0, 0), (1, 0)]) = 2"
    by simp
  have s30: "fdiv (Fin (6649846324789247 / 35184372088832)) (Fin 2) = Fin (6649846324789247 / 70368744177664)"
    by (simp add: fdiv_def signum_def infinity_def ev)
  have s31: "double 0.3 = Fin (5404319552844595 / 18014398509481984)"
    by (simp add: ev)
  have s32: "fmul (Fin (6649846324789247 / 70368744177664)) (Fin 1) = Fin (6649846324789247 / 70368744177664)"
    by (simp add: fmul_def signum_def infinity_def ev)
  have s33: "fmul (Fin (6649846324789247 / 70368744177664)) (Fin 2) = Fin (6649846324789247 / 35184372088832)"
    by (simp add: fmul_def signum_def infinity_def ev)
  have s34: "fneg (Fin (6649846324789247 / 35184372088832)) = Fin (- (6649846324789247 / 35184372088832))"
    by (simp add: fneg_def)
  have s35: "fadd (Fin 255) (Fin (- (6649846324789247 / 35184372088832))) = Fin (2322168557862913 / 35184372088832)"
    by (simp add: fadd_def ev)
  have s36: "fadd (Fin 255) (Fin (- (6685030696878079 / 35184372088832))) = Fin (2286984185774081 / 35184372088832)"
    by (simp add: fadd_def ev)
  have s37: "fmul (Fin (2286984185774081 / 35184372088832)) (Fin (5404319552844595 / 18014398509481984)) = Fin (2744381022928897 / 140737488355328)"
    by (simp add: fmul_def signum_def infinity_def ev)
  have s38: "fneg (Fin (2744381022928897 / 140737488355328)) = Fin (- (2744381022928897 / 140737488355328))"
    by (simp add: fneg_def)
  have s39: "fadd (Fin (2322168557862913 / 35184372088832)) (Fin (- (2744381022928897 / 140737488355328))) = Fin (6544293208522755 / 140737488355328)"
    by (simp add: fadd_def ev)
  have s40: "fmin (Fin 255) (Fin (6544293208522755 / 140737488355328)) = Fin (6544293208522755 / 140737488355328)"
    by (simp add: fmin_def nle_def)
  have s41: "fmax (Fin 0) (Fin (6544293208522755 / 140737488355328)) = Fin (6544293208522755 / 140737488355328)"
    by (simp add: fmax_def nle_def)
  show ?thesis
    by (simp only: aoD_def contrastD_def lumaD_def clampD_def fsub_def fold_simps o_apply id_apply prod.case s1 s2 s3 s4 s5 s6 s7 s8 s9 s10 s11 s12 s13 s14 s15 s16 s17 s18 s19 s20 s21 s22 s23 s24 s25 s26 s27 s28 s29 s30 s31 s32 s33 s34 s35 s36 s37 s38 s39 s40 s41)
qed

lemma roughness_value_a:
  "roughnessD [71, 71, 71, 255, 225, 225, 225, 255] 2 1 (Fin 1) 0 0 = Fin (3002986157781811 / 17592186044416)"
proof -
  have s1: "windowList 1 2 1 0 0 = [(0, 0), (1, 0)]"
    by (simp add: windowList_def upt_rec)
  have s2: "chan [71, 71, 71, 255, 225, 225, 225, 255] 2 0 0 0 = 71"
    by (simp add: chan_def)
  have s3: "fneg (Fin 71) = Fin (- 71)"
    by (simp add: fneg_def)
  have s4: "fadd (Fin 71) (Fin (- 71)) = Fin 0"
    by (simp add: fadd_def ev)
  have s5: "fabs (Fin 0) = Fin 0"
    by (simp add: fabs_def)
  have s6: "chan [71, 71, 71, 255, 225, 225, 225, 255] 2 0 0 1 = 71"
    by (simp add: chan_def)
  have s7: "chan [71, 71, 71, 255, 225, 225, 225, 255] 2 0 0 2 = 71"
    by (simp add: chan_def)
  have s8: "fadd (Fin 0) (Fin 0) = Fin 0"
    by (simp add: fadd_def ev)
  have s9: "chan [71, 71, 71, 255, 225, 225, 225, 255] 2 1 0 0 = 225"
    by (simp add: chan_def)
  have s10: "fneg (Fin 225) = Fin (- 225)"
    by (simp add: fneg_def)
  have s11: "fadd (Fin 71) (Fin (- 225)) = Fin (- 154)"
    by (simp add: fadd_def ev)
  have s12: "fabs (Fin (- 154)) = Fin 154"
    by (simp add: fabs_def)
  have s13: "chan [71, 71, 71, 255, 225, 225, 225, 255] 2 1 0 1 = 225"
    by (simp add: chan_def)
  have s14: "chan [71, 71, 71, 255, 225, 225, 225, 255] 2 1 0 2 = 225"
    by (simp add: chan_def)
  have s15: "fadd (Fin 154) (Fin 154) = Fin 308"
    by (simp add: fadd_def ev)
  have s16: "fadd (Fin 308) (Fin 154) = Fin 462"
    by (simp add: fadd_def ev)
  have s17: "fadd (Fin 0) (Fin 462) = Fin 462"
    by (simp add: fadd_def ev)
  have s18: "real (length [(0, 0), (1, 0)]) = 2"
    by simp
  have s19: "fdiv (Fin 462) (Fin 2) = Fin 231"
    by (simp add: fdiv_def signum_def infinity_def ev)
  have s20: "double 0.299 = Fin (5386305154335113 / 18014398509481984)"
    by (simp add: ev)
  have s21: "double 0.587 = Fin (2643612981266481 / 4503599627370496)"
    by (simp add: ev)
  have s22: "double 0.114 = Fin (8214565720323785 / 72057594037927936)"
    by (simp add: ev)
  have s23: "fmul (Fin (5386305154335113 / 18014398509481984)) (Fin 71) = Fin (1493858070147629 / 70368744177664)"
    by (simp add: fmul_def signum_def infinity_def ev)
  have s24: "fmul (Fin (2643612981266481 / 4503599627370496)) (Fin 71) = Fin (5865516302185005 / 140737488355328)"
    by (simp add: fmul_def signum_def infinity_def ev)
  have s25: "fadd (Fin (1493858070147629 / 70368744177664)) (Fin (5865516302185005 / 140737488355328)) = Fin (8853232442480263 / 140737488355328)"
    by (simp add: fadd_def ev)
  have s26: "fmul (Fin (8214565720323785 / 72057594037927936)) (Fin 71) = Fin (4556516922992099 / 562949953421312)"
    by (simp add: fmul_def signum_def infinity_def ev)
  have s27: "fadd (Fin (8853232442480263 / 140737488355328)) (Fin (4556516922992099 / 562949953421312)) = Fin 71"
    by (simp add: fadd_def ev)
  have s28: "double 0.5 = Fin (1 / 2)"
    by (simp add: ev)
  have s29: "double 0.3 = Fin (5404319552844595 / 18014398509481984)"
    by (simp add: ev)
  have s30: "fmul (Fin 231) (Fin 1) = Fin 231"
    by (simp add: fmul_def signum_def infinity_def ev)
  have s31: "fmul (Fin 231) (Fin (1 / 2)) = Fin (231 / 2)"
    by (simp add: fmul_def signum_def infinity_def ev)
  have s32: "fadd (Fin 255) (Fin (- 71)) = Fin 184"
    by (simp add: fadd_def ev)
  have s33: "fmul (Fin 184) (Fin (5404319552844595 / 18014398509481984)) = Fin (7768709357214105 / 140737488355328)"
    by (simp add: fmul_def signum_def infinity_def ev)
  have s34: "fadd (Fin (231 / 2)) (Fin (7768709357214105 / 140737488355328)) = Fin (3002986157781811 / 17592186044416)"
    by (simp add: fadd_def ev)
  have s35: "fmin (Fin 255) (Fin (3002986157781811 / 17592186044416)) = Fin (3002986157781811 / 17592186044416)"
    by (simp add: fmin_def nle_def)
  have s36: "fmax (Fin 0) (Fin (3002986157781811 / 17592186044416)) = Fin (3002986157781811 / 17592186044416)"
    by (simp add: fmax_def nle_def)
  show ?thesis
    by (simp only: roughnessD_def varianceD_def lumaD_def clampD_def fsub_def fold_simps o_apply id_apply prod.case s1 s2 s3 s4 s5 s6 s7 s8 s9 s10 s11 s12 s13 s14 s15 s16 s17 s18 s19 s20 s21 s22 s23 s24 s25 s26 s27 s28 s29 s30 s31 s32 s33 s34 s35 s36)
qed

lemma roughness_value_b:
  "roughnessD [71, 71, 71, 255, 225, 225, 225, 255] 2 1 (Fin 1) 1 0 = Fin (8760908650119169 / 70368744177664)"
proof -
  have s1: "windowList 1 2 1 1 0 = [(0, 0), (1, 0)]"
    by (simp add: windowList_def upt_rec)
  have s2: "chan [71, 71, 71, 255, 225, 225, 225, 255] 2 1 0 0 = 225"
    by (simp add: chan_def)
  have s3: "chan [71, 71, 71, 255, 225, 225, 225, 255] 2 0 0 0 = 71"
    by (simp add: chan_def)
  have s4: "fneg (Fin 71) = Fin (- 71)"
    by (simp add: fneg_def)
  have s5: "fadd (Fin 225) (Fin (- 71)) = Fin 154"
    by (simp add: fadd_def ev)
  have s6: "fabs (Fin 154) = Fin 154"
    by (simp add: fabs_def)
  have s7: "chan [71, 71, 71, 255, 225, 225, 225, 255] 2 1 0 1 = 225"
    by (simp add: chan_def)
  have s8: "chan [71, 71, 71, 255, 225, 225, 225, 255] 2 0 0 1 = 71"
    by (simp add: chan_def)
  have s9: "chan [71, 71, 71, 255, 225, 225, 225, 255] 2 1 0 2 = 225"
    by (simp add: chan_def)
  have s10: "chan [71, 71, 71, 255, 225, 225, 225, 255] 2 0 0 2 = 71"
    by (simp add: chan_def)
  have s11: "fadd (Fin 154) (Fin 154) = Fin 308"
    by (simp add: fadd_def ev)
  have s12: "fadd (Fin 308) (Fin 154) = Fin 462"
    by (simp add: fadd_def ev)
  have s13: "fadd (Fin 0) (Fin 462) = Fin 462"
    by (simp add: fadd_def ev)
  have s14: "fneg (Fin 225) = Fin (- 225)"
    by (simp add: fneg_def)
  have s15: "fadd (Fin 225) (Fin (- 225)) = Fin 0"
    by (simp add: fadd_def ev)
  have s16: "fabs (Fin 0) = Fin 0"
    by (simp add: fabs_def)
  have s17: "fadd (Fin 0) (Fin 0) = Fin 0"
    by (simp add: fadd_def ev)
  have s18: "fadd (Fin 462) (Fin 0) = Fin 462"
    by (simp add: fadd_def ev)
  have s19: "real (length [(0, 0), (1, 0)]) = 2"
    by simp
  have s20: "fdiv (Fin 462) (Fin 2) = Fin 231"
    by (simp add: fdiv_def signum_def infinity_def ev)
  have s21: "double 0.299 = Fin (5386305154335113 / 18014398509481984)"
    by (simp add: ev)
  have s22: "double 0.587 = Fin (2643612981266481 / 4503599627370496)"
    by (simp add: ev)
  have s23: "double 0.114 = Fin (8214565720323785 / 72057594037927936)"
    by (simp add: ev)
  have s24: "fmul (Fin (5386305154335113 / 18014398509481984)) (Fin 225) = Fin (4734057264552345 / 70368744177664)"
    by (simp add: fmul_def signum_def infinity_def ev)
  have s25: "fmul (Fin (2643612981266481 / 4503599627370496)) (Fin 225) = Fin (2323487971816243 / 17592186044416)"
    by (simp add: fmul_def signum_def infinity_def ev)
  have s26: "fadd (Fin (4734057264552345 / 70368744177664)) (Fin (2323487971816243 / 17592186044416)) = Fin (3507002287954329 / 17592186044416)"
    by (simp add: fadd_def ev)
  have s27: "fmul (Fin (8214565720323785 / 72057594037927936)) (Fin 225) = Fin (7219833152628327 / 281474976710656)"
    by (simp add: fmul_def signum_def infinity_def ev)
  have s28: "fadd (Fin (3507002287954329 / 17592186044416)) (Fin (7219833152628327 / 281474976710656)) = Fin (7916483719987199 / 35184372088832)"
    by (simp add: fadd_def ev)
  have s29: "double 0.5 = Fin (1 / 2)"
    by (simp add: ev)
  have s30: "double 0.3 = Fin (5404319552844595 / 18014398509481984)"
    by (simp add: ev)
  have s31: "fmul (Fin 231) (Fin 1) = Fin 231"
    by (simp add: fmul_def signum_def infinity_def ev)
  have s32: "fmul (Fin 231) (Fin (1 / 2)) = Fin (231 / 2)"
    by (simp add: fmul_def signum_def infinity_def ev)
  have s33: "fneg (Fin (7916483719987199 / 35184372088832)) = Fin (- (7916483719987199 / 35184372088832))"
    by (simp add: fneg_def)
  have s34: "fadd (Fin 255) (Fin (- (7916483719987199 / 35184372088832))) = Fin (1055531162664961 / 35184372088832)"
    by (simp add: fadd_def ev)
  have s35: "fmul (Fin (1055531162664961 / 35184372088832)) (Fin (5404319552844595 / 18014398509481984)) = Fin (5066549580791813 / 562949953421312)"
    by (simp add: fmul_def signum_def infinity_def ev)
  have s36: "fadd (Fin (231 / 2)) (Fin (5066549580791813 / 562949953421312)) = Fin (8760908650119169 / 70368744177664)"
    by (simp add: fadd_def ev)
  have s37: "fmin (Fin 255) (Fin (8760908650119169 / 70368744177664)) = Fin (8760908650119169 / 70368744177664)"
    by (simp add: fmin_def nle_def)
  have s38: "fmax (Fin 0) (Fin (8760908650119169 / 70368744177664)) = Fin (8760908650119169 / 70368744177664)"
    by (simp add: fmax_def nle_def)
  show ?thesis
    by (simp only: roughnessD_def varianceD_def lumaD_def clampD_def fsub_def fold_simps o_apply id_apply prod.case s1 s2 s3 s4 s5 s6 s7 s8 s9 s10 s11 s12 s13 s14 s15 s16 s17 s18 s19 s20 s21 s22 s23 s24 s25 s26 s27 s28 s29 s30 s31 s32 s33 s34 s35 s36 s37 s38)
qed

lemma metallic_value_a:
  "metallicD [11, 11, 11, 255, 0, 0, 0, 255, 200, 100, 50, 255] 3 (Fin (1 / 2)) 0 0 = Fin (6192449487634431 / 1125899906842624)"
proof -
  have s1: "satD [11, 11, 11, 255, 0, 0, 0, 255, 200, 100, 50, 255] 3 0 0 = Fin 0"
    by (simp add: satD_def chan_def fsub_def fneg_def fadd_def fdiv_def ev)
  have s2: "double 0.299 = Fin (5386305154335113 / 18014398509481984)"
    by (simp add: ev)
  have s3: "double 0.587 = Fin (2643612981266481 / 4503599627370496)"
    by (simp add: ev)
  have s4: "double 0.114 = Fin (8214565720323785 / 72057594037927936)"
    by (simp add: ev)
  have s5: "chan [11, 11, 11, 255, 0, 0, 0, 255, 200, 100, 50, 255] 3 0 0 0 = 11"
    by (simp add: chan_def)
  have s6: "chan [11, 11, 11, 255, 0, 0, 0, 255, 200, 100, 50, 255] 3 0 0 1 = 11"
    by (simp add: chan_def)
  have s7: "chan [11, 11, 11, 255, 0, 0, 0, 255, 200, 100, 50, 255] 3 0 0 2 = 11"
    by (simp add: chan_def)
  have s8: "fmul (Fin (5386305154335113 / 18014398509481984)) (Fin 11) = Fin (1851542396802695 / 562949953421312)"
    by (simp add: fmul_def signum_def infinity_def ev)
  have s9: "fmul (Fin (2643612981266481 / 4503599627370496)) (Fin 11) = Fin (7269935698482823 / 1125899906842624)"
    by (simp add: fmul_def signum_def infinity_def ev)
  have s10: "fadd (Fin (1851542396802695 / 562949953421312)) (Fin (7269935698482823 / 1125899906842624)) = Fin (2743255123022053 / 281474976710656)"
    by (simp add: fadd_def ev)
  have s11: "fmul (Fin (8214565720323785 / 72057594037927936)) (Fin 11) = Fin (2823756966361301 / 2251799813685248)"
    by (simp add: fmul_def signum_def infinity_def ev)
  have s12: "fadd (Fin (2743255123022053 / 281474976710656)) (Fin (2823756966361301 / 2251799813685248)) = Fin (6192449487634431 / 562949953421312)"
    by (simp add: fadd_def ev)
  have s13: "double 0.5 = Fin (1 / 2)"
    by (simp add: ev)
  have s14: "fmul (Fin (6192449487634431 / 562949953421312)) (Fin (1 / 2)) = Fin (6192449487634431 / 1125899906842624)"
    by (simp add: fmul_def signum_def infinity_def ev)
  have s15: "fmul (Fin 0) (Fin (1 / 2)) = Fin 0"
    by (simp add: fmul_def signum_def infinity_def ev)
  have s16: "fneg (Fin 0) = Fin 0"
    by (simp add: fneg_def)
  have s17: "fadd (Fin 1) (Fin 0) = Fin 1"
    by (simp add: fadd_def ev)
  have s18: "fmul (Fin (6192449487634431 / 1125899906842624)) (Fin 1) = Fin (6192449487634431 / 1125899906842624)"
    by (simp add: fmul_def signum_def infinity_def ev)
  have s19: "fmin (Fin 255) (Fin (6192449487634431 / 1125899906842624)) = Fin (6192449487634431 / 1125899906842624)"
    by (simp add: fmin_def nle_def)
  have s20: "fmax (Fin 0) (Fin (6192449487634431 / 1125899906842624)) = Fin (6192449487634431 / 1125899906842624)"
    by (simp add: fmax_def nle_def)
  show ?thesis
    by (simp only: metallicD_def lumaD_def clampD_def fsub_def s1 s2 s3 s4 s5 s6 s7 s8 s9 s10 s11 s12 s13 s14 s15 s16 s17 s18 s19 s20)
qed

lemma metallic_value_b:
  "metallicD [11, 11, 11, 255, 0, 0, 0, 255, 200, 100, 50, 255] 3 (Fin (1 / 2)) 1 0 = Fin 0"
proof -
  have s1: "satD [11, 11, 11, 255, 0, 0, 0, 255, 200, 100, 50, 255] 3 1 0 = Fin 0"
    by (simp add: satD_def chan_def fsub_def fneg_def fadd_def fdiv_def ev)
  have s2: "double 0.299 = Fin (5386305154335113 / 18014398509481984)"
    by (simp add: ev)
  have s3: "double 0.587 = Fin (2643612981266481 / 4503599627370496)"
    by (simp add: ev)
  have s4: "double 0.114 = Fin (8214565720323785 / 72057594037927936)"
    by (simp add: ev)
  have s5: "chan [11, 11, 11, 255, 0, 0, 0, 255, 200, 100, 50, 255] 3 1 0 0 = 0"
    by (simp add: chan_def)
  have s6: "chan [11, 11, 11, 255, 0, 0, 0, 255, 200, 100, 50, 255] 3 1 0 1 = 0"
    by (simp add: chan_def)
  have s7: "chan [11, 11, 11, 255, 0, 0, 0, 255, 200, 100, 50, 255] 3 1 0 2 = 0"
    by (simp add: chan_def)
  have s8: "fmul (Fin (5386305154335113 / 18014398509481984)) (Fin 0) = Fin 0"
    by (simp add: fmul_def signum_def infinity_def ev)
  have s9: "fmul (Fin (2643612981266481 / 4503599627370496)) (Fin 0) = Fin 0"
    by (simp add: fmul_def signum_def infinity_def ev)
  have s10: "fadd (Fin 0) (Fin 0) = Fin 0"
    by (simp add: fadd_def ev)
  have s11: "fmul (Fin (8214565720323785 / 72057594037927936)) (Fin 0) = Fin 0"
    by (simp add: fmul_def signum_def infinity_def ev)
  have s12: "double 0.5 = Fin (1 / 2)"
    by (simp add: ev)
  have s13: "fmul (Fin 0) (Fin (1 / 2)) = Fin 0"
    by (simp add: fmul_def signum_def infinity_def ev)
  have s14: "fneg (Fin 0) = Fin 0"
    by (simp add: fneg_def)
  have s15: "fadd (Fin 1) (Fin 0) = Fin 1"
    by (simp add: fadd_def ev)
  have s16: "fmul (Fin 0) (Fin 1) = Fin 0"
    by (simp add: fmul_def signum_def infinity_def ev)
  have s17: "fmin (Fin 255) (Fin 0) = Fin 0"
    by (simp add: fmin_def nle_def)
  have s18: "fmax (Fin 0) (Fin 0) = Fin 0"
    by (simp add: fmax_def nle_def)
  show ?thesis
    by (simp only: metallicD_def lumaD_def clampD_def fsub_def s1 s2 s3 s4 s5 s6 s7 s8 s9 s10 s11 s12 s13 s14 s15 s16 s17 s18)
qed

lemma metallic_value_c:
  "metallicD [11, 11, 11, 255, 0, 0, 0, 255, 200, 100, 50, 255] 3 (Fin (1 / 2)) 2 0 = Fin (621 / 16)"
proof -
  have s1: "satD [11, 11, 11, 255, 0, 0, 0, 255, 200, 100, 50, 255] 3 2 0 = Fin (3 / 4)"
    by (simp add: satD_def chan_def fsub_def fneg_def fadd_def fdiv_def ev)
  have s2: "double 0.299 = Fin (5386305154335113 / 18014398509481984)"
    by (simp add: ev)
  have s3: "double 0.587 = Fin (2643612981266481 / 4503599627370496)"
    by (simp add: ev)
  have s4: "double 0.114 = Fin (8214565720323785 / 72057594037927936)"
    by (simp add: ev)
  have s5: "chan [11, 11, 11, 255, 0, 0, 0, 255, 200, 100, 50, 255] 3 2 0 0 = 200"
    by (simp add: chan_def)
  have s6: "chan [11, 11, 11, 255, 0, 0, 0, 255, 200, 100, 50, 255] 3 2 0 1 = 100"
    by (simp add: chan_def)
  have s7: "chan [11, 11, 11, 255, 0, 0, 0, 255, 200, 100, 50, 255] 3 2 0 2 = 50"
    by (simp add: chan_def)
  have s8: "fmul (Fin (5386305154335113 / 18014398509481984)) (Fin 200) = Fin (4208050901824307 / 70368744177664)"
    by (simp add: fmul_def signum_def infinity_def ev)
  have s9: "fmul (Fin (2643612981266481 / 4503599627370496)) (Fin 100) = Fin (8261290566457753 / 140737488355328)"
    by (simp add: fmul_def signum_def infinity_def ev)
  have s10: "fadd (Fin (4208050901824307 / 70368744177664)) (Fin (8261290566457753 / 140737488355328)) = Fin (237 / 2)"
    by (simp add: fadd_def ev)
  have s11: "fmul (Fin (8214565720323785 / 72057594037927936)) (Fin 50) = Fin (6417629469002957 / 1125899906842624)"
    by (simp add: fmul_def signum_def infinity_def ev)
  have s12: "fadd (Fin (237 / 2)) (Fin (6417629469002957 / 1125899906842624)) = Fin (8739798026865869 / 70368744177664)"
    by (simp add: fadd_def ev)
  have s13: "double 0.5 = Fin (1 / 2)"
    by (simp add: ev)
  have s14: "fmul (Fin (8739798026865869 / 70368744177664)) (Fin (1 / 2)) = Fin (8739798026865869 / 140737488355328)"
    by (simp add: fmul_def signum_def infinity_def ev)
  have s15: "fmul (Fin (3 / 4)) (Fin (1 / 2)) = Fin (3 / 8)"
    by (simp add: fmul_def signum_def infinity_def ev)
  have s16: "fneg (Fin (3 / 8)) = Fin (- (3 / 8))"
    by (simp add: fneg_def)
  have s17: "fadd (Fin 1) (Fin (- (3 / 8))) = Fin (5 / 8)"
    by (simp add: fadd_def ev)
  have s18: "fmul (Fin (8739798026865869 / 140737488355328)) (Fin (5 / 8)) = Fin (621 / 16)"
    by (simp add: fmul_def signum_def infinity_def ev)
  have s19: "fmin (Fin 255) (Fin (621 / 16)) = Fin (621 / 16)"
    by (simp add: fmin_def nle_def)
  have s20: "fmax (Fin 0) (Fin (621 / 16)) = Fin (621 / 16)"
    by (simp add: fmax_def nle_def)
  show ?thesis
    by (simp only: metallicD_def lumaD_def clampD_def fsub_def s1 s2 s3 s4 s5 s6 s7 s8 s9 s10 s11 s12 s13 s14 s15 s16 s17 s18 s19 s20)
qed

lemma normal_value_a:
  "normalD [0, 0, 0, 255, 85, 85, 85, 255] 2 1 (Fin 1) 0 0 = (Fin (3588805799046025 / 140737488355328), Fin (255 / 2), Fin (7177611854783447 / 35184372088832))"
proof -
  have s1: "List.product [0, 1, 2] [0, 1, 2::nat] = [(0, 0), (0, 1), (0, 2), (1, 0), (1, 1), (1, 2), (2, 0), (2, 1), (2, 2)]"
    by simp
  have s2: "heightD [0, 0, 0, 255, 85, 85, 85, 255] 2 1 (int 0 + int 0 - 1) (int 0 + int 0 - 1) = toFloat32 (fdiv (lumaD [0, 0, 0, 255, 85, 85, 85, 255] 2 0 0) (Fin 255))"
    by (simp add: heightD_def clampCoord_def)
  have s3: "double 0.299 = Fin (5386305154335113 / 18014398509481984)"
    by (simp add: ev)
  have s4: "double 0.587 = Fin (2643612981266481 / 4503599627370496)"
    by (simp add: ev)
  have s5: "double 0.114 = Fin (8214565720323785 / 72057594037927936)"
    by (simp add: ev)
  have s6: "chan [0, 0, 0, 255, 85, 85, 85, 255] 2 0 0 0 = 0"
    by (simp add: chan_def)
  have s7: "chan [0, 0, 0, 255, 85, 85, 85, 255] 2 0 0 1 = 0"
    by (simp add: chan_def)
  have s8: "chan [0, 0, 0, 255, 85, 85, 85, 255] 2 0 0 2 = 0"
    by (simp add: chan_def)
  have s9: "fmul (Fin (5386305154335113 / 18014398509481984)) (Fin 0) = Fin 0"
    by (simp add: fmul_def signum_def infinity_def ev)
  have s10: "fmul (Fin (2643612981266481 / 4503599627370496)) (Fin 0) = Fin 0"
    by (simp add: fmul_def signum_def infinity_def ev)
  have s11: "fadd (Fin 0) (Fin 0) = Fin 0"
    by (simp add: fadd_def ev)
  have s12: "fmul (Fin (8214565720323785 / 72057594037927936)) (Fin 0) = Fin 0"
    by (simp add: fmul_def signum_def infinity_def ev)
  have s13: "fdiv (Fin 0) (Fin 255) = Fin 0"
    by (simp add: fdiv_def signum_def infinity_def ev)
  have s14: "toFloat32 (Fin 0) = Fin 0"
    by (simp add: toFloat32_def ev)
  have s15: "real_of_int (kernelH ! 0 ! 0) = - 1"
    by (simp add: kernelH_def)
  have s16: "fmul (Fin 0) (Fin (- 1)) = Fin 0"
    by (simp add: fmul_def signum_def infinity_def ev)
  have s17: "heightD [0, 0, 0, 255, 85, 85, 85, 255] 2 1 (int 0 + int 1 - 1) (int 0 + int 0 - 1) = toFloat32 (fdiv (lumaD [0, 0, 0, 255, 85, 85, 85, 255] 2 0 0) (Fin 255))"
    by (simp add: heightD_def clampCoord_def)
  have s18: "real_of_int (kernelH ! 0 ! 1) = 0"
    by (simp add: kernelH_def)
  have s19: "fmul (Fin 0) (Fin 0) = Fin 0"
    by (simp add: fmul_def signum_def infinity_def ev)
  have s20: "heightD [0, 0, 0, 255, 85, 85, 85, 255] 2 1 (int 0 + int 2 - 1) (int 0 + int 0 - 1) = toFloat32 (fdiv (lumaD [0, 0, 0, 255, 85, 85, 85, 255] 2 1 0) (Fin 255))"
    by (simp add: heightD_def clampCoord_def)
  have s21: "chan [0, 0, 0, 255, 85, 85, 85, 255] 2 1 0 0 = 85"
    by (simp add: chan_def)
  have s22: "chan [0, 0, 0, 255, 85, 85, 85, 255] 2 1 0 1 = 85"
    by (simp add: chan_def)
  have s23: "chan [0, 0, 0, 255, 85, 85, 85, 255] 2 1 0 2 = 85"
    by (simp add: chan_def)
  have s24: "fmul (Fin (5386305154335113 / 18014398509481984)) (Fin 85) = Fin (3576843266550661 / 140737488355328)"
    by (simp add: fmul_def signum_def infinity_def ev)
  have s25: "fmul (Fin (2643612981266481 / 4503599627370496)) (Fin 85) = Fin (3511048490744545 / 70368744177664)"
    by (simp add: fmul_def signum_def infinity_def ev)
  have s26: "fadd (Fin (3576843266550661 / 140737488355328)) (Fin (3511048490744545 / 70368744177664)) = Fin (1324867531004969 / 17592186044416)"
    by (simp add: fadd_def ev)
  have s27: "fmul (Fin (8214565720323785 / 72057594037927936)) (Fin 85) = Fin (5454985048652513 / 562949953421312)"
    by (simp add: fmul_def signum_def infinity_def ev)
  have s28: "fadd (Fin (1324867531004969 / 17592186044416)) (Fin (5454985048652513 / 562949953421312)) = Fin 85"
    by (simp add: fadd_def ev)
  have s29: "fdiv (Fin 85) (Fin 255) = Fin (6004799503160661 / 18014398509481984)"
    by (simp add: fdiv_def signum_def infinity_def ev)
  have s30: "toFloat32 (Fin (6004799503160661 / 18014398509481984)) = Fin (11184811 / 33554432)"
    by (simp add: toFloat32_def ev)
  have s31: "real_of_int (kernelH ! 0 ! 2) = 1"
    by (simp add: kernelH_def)
  have s32: "fmul (Fin (11184811 / 33554432)) (Fin 1) = Fin (11184811 / 33554432)"
    by (simp add: fmul_def signum_def infinity_def ev)
  have s33: "fadd (Fin 0) (Fin (11184811 / 33554432)) = Fin (11184811 / 33554432)"
    by (simp add: fadd_def ev)
  have s34: "heightD [0, 0, 0, 255, 85, 85, 85, 255] 2 1 (int 0 + int 0 - 1) (int 0 + int 1 - 1) = toFloat32 (fdiv (lumaD [0, 0, 0, 255, 85, 85, 85, 255] 2 0 0) (Fin 255))"
    by (simp add: heightD_def clampCoord_def)
  have s35: "real_of_int (kernelH ! 1 ! 0) = - 2"
    by (simp add: kernelH_def)
  have s36: "fmul (Fin 0) (Fin (- 2)) = Fin 0"
    by (simp add: fmul_def signum_def infinity_def ev)
  have s37: "fadd (Fin (11184811 / 33554432)) (Fin 0) = Fin (11184811 / 33554432)"
    by (simp add: fadd_def ev)
  have s38: "heightD [0, 0, 0, 255, 85, 85, 85, 255] 2 1 (int 0 + int 1 - 1) (int 0 + int 1 - 1) = toFloat32 (fdiv (lumaD [0, 0, 0, 255, 85, 85, 85, 255] 2 0 0) (Fin 255))"
    by (simp add: heightD_def clampCoord_def)
  have s39: "real_of_int (kernelH ! 1 ! 1) = 0"
    by (simp add: kernelH_def)
  have s40: "heightD [0, 0, 0, 255, 85, 85, 85, 255] 2 1 (int 0 + int 2 - 1) (int 0 + int 1 - 1) = toFloat32 (fdiv (lumaD [0, 0, 0, 255, 85, 85, 85, 255] 2 1 0) (Fin 255))"
    by (simp add: heightD_def clampCoord_def)
  have s41: "real_of_int (kernelH ! 1 ! 2) = 2"
    by (simp add: kernelH_def)
  have s42: "fmul (Fin (11184811 / 33554432)) (Fin 2) = Fin (11184811 / 16777216)"
    by (simp add: fmul_def signum_def infinity_def ev)
  have s43: "fadd (Fin (11184811 / 33554432)) (Fin (11184811 / 16777216)) = Fin (33554433 / 33554432)"
    by (simp add: fadd_def ev)
  have s44: "heightD [0, 0, 0, 255, 85, 85, 85, 255] 2 1 (int 0 + int 0 - 1) (int 0 + int 2 - 1) = toFloat32 (fdiv (lumaD [0, 0, 0, 255, 85, 85, 85, 255] 2 0 0) (Fin 255))"
    by (simp add: heightD_def clampCoord_def)
  have s45: "real_of_int (kernelH ! 2 ! 0) = - 1"
    by (simp add: kernelH_def)
  have s46: "fadd (Fin (33554433 / 33554432)) (Fin 0) = Fin (33554433 / 33554432)"
    by (simp add: fadd_def ev)
  have s47: "heightD [0, 0, 0, 255, 85, 85, 85, 255] 2 1 (int 0 + int 1 - 1) (int 0 + int 2 - 1) = toFloat32 (fdiv (lumaD [0, 0, 0, 255, 85, 85, 85, 255] 2 0 0) (Fin 255))"
    by (simp add: heightD_def clampCoord_def)
  have s48: "real_of_int (kernelH ! 2 ! 1) = 0"
    by (simp add: kernelH_def)
  have s49: "heightD [0, 0, 0, 255, 85, 85, 85, 255] 2 1 (int 0 + int 2 - 1) (int 0 + int 2 - 1) = toFloat32 (fdiv (lumaD [0, 0, 0, 255, 85, 85, 85, 255] 2 1 0) (Fin 255))"
    by (simp add: heightD_def clampCoord_def)
  have s50: "real_of_int (kernelH ! 2 ! 2) = 1"
    by (simp add: kernelH_def)
  have s51: "fadd (Fin (33554433 / 33554432)) (Fin (11184811 / 33554432)) = Fin (11184811 / 8388608)"
    by (simp add: fadd_def ev)
  have s52: "real_of_int (kernelV ! 0 ! 0) = - 1"
    by (simp add: kernelV_def)
  have s53: "real_of_int (kernelV ! 0 ! 1) = - 2"
    by (simp add: kernelV_def)
  have s54: "real_of_int (kernelV ! 0 ! 2) = - 1"
    by (simp add: kernelV_def)
  have s55: "fmul (Fin (11184811 / 33554432)) (Fin (- 1)) = Fin (- (11184811 / 33554432))"
    by (simp add: fmul_def signum_def infinity_def ev)
  have s56: "fadd (Fin 0) (Fin (- (11184811 / 33554432))) = Fin (- (11184811 / 33554432))"
    by (simp add: fadd_def ev)
  have s57: "real_of_int (kernelV ! 1 ! 0) = 0"
    by (simp add: kernelV_def)
  have s58: "fadd (Fin (- (11184811 / 33554432))) (Fin 0) = Fin (- (11184811 / 33554432))"
    by (simp add: fadd_def ev)
  have s59: "real_of_int (kernelV ! 1 ! 1) = 0"
    by (simp add: kernelV_def)
  have s60: "real_of_int (kernelV ! 1 ! 2) = 0"
    by (simp add: kernelV_def)
  have s61: "fmul (Fin (11184811 / 33554432)) (Fin 0) = Fin 0"
    by (simp add: fmul_def signum_def infinity_def ev)
  have s62: "real_of_int (kernelV ! 2 ! 0) = 1"
    by (simp add: kernelV_def)
  have s63: "fmul (Fin 0) (Fin 1) = Fin 0"
    by (simp add: fmul_def signum_def infinity_def ev)
  have s64: "real_of_int (kernelV ! 2 ! 1) = 2"
    by (simp add: kernelV_def)
  have s65: "fmul (Fin 0) (Fin 2) = Fin 0"
    by (simp add: fmul_def signum_def infinity_def ev)
  have s66: "real_of_int (kernelV ! 2 ! 2) = 1"
    by (simp add: kernelV_def)
  have s67: "fadd (Fin (- (11184811 / 33554432))) (Fin (11184811 / 33554432)) = Fin 0"
    by (simp add: fadd_def ev)
  have s68: "fneg (Fin (11184811 / 8388608)) = Fin (- (11184811 / 8388608))"
    by (simp add: fneg_def)
  have s69: "fmul (Fin (- (11184811 / 8388608))) (Fin 1) = Fin (- (11184811 / 8388608))"
    by (simp add: fmul_def signum_def infinity_def ev)
  have s70: "fneg (Fin 0) = Fin 0"
    by (simp add: fneg_def)
  have s71: "fmul (Fin (- (11184811 / 8388608))) (Fin (- (11184811 / 8388608))) = Fin (125099997105721 / 70368744177664)"
    by (simp add: fmul_def signum_def infinity_def ev)
  have s72: "fadd (Fin (125099997105721 / 70368744177664)) (Fin 0) = Fin (125099997105721 / 70368744177664)"
    by (simp add: fadd_def ev)
  have s73: "fmul (Fin 1) (Fin 1) = Fin 1"
    by (simp add: fmul_def signum_def infinity_def ev)
  have s74: "fadd (Fin (125099997105721 / 70368744177664)) (Fin 1) = Fin (195468741283385 / 70368744177664)"
    by (simp add: fadd_def ev)
  have s75: "fsqrt (Fin (195468741283385 / 70368744177664)) = Fin (1876499880529101 / 1125899906842624)"
    by (rule fsqrt_eqI[where lo = "2435836108678057609841850722041938000093509782381 / 1461501637330902918203684832716283019655932542976" and hi = "1217918054339028804920925361020969000046754891191 / 730750818665451459101842416358141509827966271488"]) (simp_all add: power2_eq_square ev)
  have s76: "double 0.5 = Fin (1 / 2)"
    by (simp add: ev)
  have s77: "fdiv (Fin (- (11184811 / 8388608))) (Fin (1876499880529101 / 1125899906842624)) = Fin (- (7205759481102203 / 9007199254740992))"
    by (simp add: fdiv_def signum_def infinity_def ev)
  have s78: "fadd (Fin (- (7205759481102203 / 9007199254740992))) (Fin 1) = Fin (1801439773638789 / 9007199254740992)"
    by (simp add: fadd_def ev)
  have s79: "fmul (Fin (1801439773638789 / 9007199254740992)) (Fin (1 / 2)) = Fin (1801439773638789 / 18014398509481984)"
    by (simp add: fmul_def signum_def infinity_def ev)
  have s80: "fmul (Fin (1801439773638789 / 18014398509481984)) (Fin 255) = Fin (3588805799046025 / 140737488355328)"
    by (simp add: fmul_def signum_def infinity_def ev)
  have s81: "fdiv (Fin 0) (Fin (1876499880529101 / 1125899906842624)) = Fin 0"
    by (simp add: fdiv_def signum_def infinity_def ev)
  have s82: "fadd (Fin 0) (Fin 1) = Fin 1"
    by (simp add: fadd_def ev)
  have s83: "fmul (Fin 1) (Fin (1 / 2)) = Fin (1 / 2)"
    by (simp add: fmul_def signum_def infinity_def ev)
  have s84: "fmul (Fin (1 / 2)) (Fin 255) = Fin (255 / 2)"
    by (simp add: fmul_def signum_def infinity_def ev)
  have s85: "fdiv (Fin 1) (Fin (1876499880529101 / 1125899906842624)) = Fin (5404319449765381 / 9007199254740992)"
    by (simp add: fdiv_def signum_def infinity_def ev)
  have s86: "fadd (Fin (5404319449765381 / 9007199254740992)) (Fin 1) = Fin (3602879676126593 / 2251799813685248)"
    by (simp add: fadd_def ev)
  have s87: "fmul (Fin (3602879676126593 / 2251799813685248)) (Fin (1 / 2)) = Fin (3602879676126593 / 4503599627370496)"
    by (simp add: fmul_def signum_def infinity_def ev)
  have s88: "fmul (Fin (3602879676126593 / 4503599627370496)) (Fin 255) = Fin (7177611854783447 / 35184372088832)"
    by (simp add: fmul_def signum_def infinity_def ev)
  show ?thesis
    by (simp only: normalD_def gradientD_def axisD_def Let_def lumaD_def fsub_def fold_simps o_apply id_apply prod.case s1 s2 s3 s4 s5 s6 s7 s8 s9 s10 s11 s12 s13 s14 s15 s16 s17 s18 s19 s20 s21 s22 s23 s24 s25 s26 s27 s28 s29 s30 s31 s32 s33 s34 s35 s36 s37 s38 s39 s40 s41 s42 s43 s44 s45 s46 s47 s48 s49 s50 s51 s52 s53 s54 s55 s56 s57 s58 s59 s60 s61 s62 s63 s64 s65 s66 s67 s68 s69 s70 s71 s72 s73 s74 s75 s76 s77 s78 s79 s80 s81 s82 s83 s84 s85 s86 s87 s88)
qed

lemma normal_value_b:
  "normalD [0, 0, 0, 255, 85, 85, 85, 255] 2 1 (Fin 1) 1 0 = (Fin (3588805799046025 / 140737488355328), Fin (255 / 2), Fin (7177611854783447 / 35184372088832))"
proof -
  have s1: "List.product [0, 1, 2] [0, 1, 2::nat] = [(0, 0), (0, 1), (0, 2), (1, 0), (1, 1), (1, 2), (2, 0), (2, 1), (2, 2)]"
    by simp
  have s2: "heightD [0, 0, 0, 255, 85, 85, 85, 255] 2 1 (int 1 + int 0 - 1) (int 0 + int 0 - 1) = toFloat32 (fdiv (lumaD [0, 0, 0, 255, 85, 85, 85, 255] 2 0 0) (Fin 255))"
    by (simp add: heightD_def clampCoord_def)
  have s3: "double 0.299 = Fin (5386305154335113 / 18014398509481984)"
    by (simp add: ev)
  have s4: "double 0.587 = Fin (2643612981266481 / 4503599627370496)"
    by (simp add: ev)
  have s5: "double 0.114 = Fin (8214565720323785 / 72057594037927936)"
    by (simp add: ev)
  have s6: "chan [0, 0, 0, 255, 85, 85, 85, 255] 2 0 0 0 = 0"
    by (simp add: chan_def)
  have s7: "chan [0, 0, 0, 255, 85, 85, 85, 255] 2 0 0 1 = 0"
    by (simp add: chan_def)
  have s8: "chan [0, 0, 0, 255, 85, 85, 85, 255] 2 0 0 2 = 0"
    by (simp add: chan_def)
  have s9: "fmul (Fin (5386305154335113 / 18014398509481984)) (Fin 0) = Fin 0"
    by (simp add: fmul_def signum_def infinity_def ev)
  have s10: "fmul (Fin (2643612981266481 / 4503599627370496)) (Fin 0) = Fin 0"
    by (simp add: fmul_def signum_def infinity_def ev)
  have s11: "fadd (Fin 0) (Fin 0) = Fin 0"
    by (simp add: fadd_def ev)
  have s12: "fmul (Fin (8214565720323785 / 72057594037927936)) (Fin 0) = Fin 0"
    by (simp add: fmul_def signum_def infinity_def ev)
  have s13: "fdiv (Fin 0) (Fin 255) = Fin 0"
    by (simp add: fdiv_def signum_def infinity_def ev)
  have s14: "toFloat32 (Fin 0) = Fin 0"
    by (simp add: toFloat32_def ev)
  have s15: "real_of_int (kernelH ! 0 ! 0) = - 1"
    by (simp add: kernelH_def)
  have s16: "fmul (Fin 0) (Fin (- 1)) = Fin 0"
    by (simp add: fmul_def signum_def infinity_def ev)
  have s17: "heightD [0, 0, 0, 255, 85, 85, 85, 255] 2 1 (int 1 + int 1 - 1) (int 0 + int 0 - 1) = toFloat32 (fdiv (lumaD [0, 0, 0, 255, 85, 85, 85, 255] 2 1 0) (Fin 255))"
    by (simp add: heightD_def clampCoord_def)
  have s18: "chan [0, 0, 0, 255, 85, 85, 85, 255] 2 1 0 0 = 85"
    by (simp add: chan_def)
  have s19: "chan [0, 0, 0, 255, 85, 85, 85, 255] 2 1 0 1 = 85"
    by (simp add: chan_def)
  have s20: "chan [0, 0, 0, 255, 85, 85, 85, 255] 2 1 0 2 = 85"
    by (simp add: chan_def)
  have s21: "fmul (Fin (5386305154335113 / 18014398509481984)) (Fin 85) = Fin (3576843266550661 / 140737488355328)"
    by (simp add: fmul_def signum_def infinity_def ev)
  have s22: "fmul (Fin (2643612981266481 / 4503599627370496)) (Fin 85) = Fin (3511048490744545 / 70368744177664)"
    by (simp add: fmul_def signum_def infinity_def ev)
  have s23: "fadd (Fin (3576843266550661 / 140737488355328)) (Fin (3511048490744545 / 70368744177664)) = Fin (1324867531004969 / 17592186044416)"
    by (simp add: fadd_def ev)
  have s24: "fmul (Fin (8214565720323785 / 72057594037927936)) (Fin 85) = Fin (5454985048652513 / 562949953421312)"
    by (simp add: fmul_def signum_def infinity_def ev)
  have s25: "fadd (Fin (1324867531004969 / 17592186044416)) (Fin (5454985048652513 / 562949953421312)) = Fin 85"
    by (simp add: fadd_def ev)
  have s26: "fdiv (Fin 85) (Fin 255) = Fin (6004799503160661 / 18014398509481984)"
    by (simp add: fdiv_def signum_def infinity_def ev)
  have s27: "toFloat32 (Fin (6004799503160661 / 18014398509481984)) = Fin (11184811 / 33554432)"
    by (simp add: toFloat32_def ev)
  have s28: "real_of_int (kernelH ! 0 ! 1) = 0"
    by (simp add: kernelH_def)
  have s29: "fmul (Fin (11184811 / 33554432)) (Fin 0) = Fin 0"
    by (simp add: fmul_def signum_def infinity_def ev)
  have s30: "heightD [0, 0, 0, 255, 85, 85, 85, 255] 2 1 (int 1 + int 2 - 1) (int 0 + int 0 - 1) = toFloat32 (fdiv (lumaD [0, 0, 0, 255, 85, 85, 85, 255] 2 1 0) (Fin 255))"
    by (simp add: heightD_def clampCoord_def)
  have s31: "real_of_int (kernelH ! 0 ! 2) = 1"
    by (simp add: kernelH_def)
  have s32: "fmul (Fin (11184811 / 33554432)) (Fin 1) = Fin (11184811 / 33554432)"
    by (simp add: fmul_def signum_def infinity_def ev)
  have s33: "fadd (Fin 0) (Fin (11184811 / 33554432)) = Fin (11184811 / 33554432)"
    by (simp add: fadd_def ev)
  have s34: "heightD [0, 0, 0, 255, 85, 85, 85, 255] 2 1 (int 1 + int 0 - 1) (int 0 + int 1 - 1) = toFloat32 (fdiv (lumaD [0, 0, 0, 255, 85, 85, 85, 255] 2 0 0) (Fin 255))"
    by (simp add: heightD_def clampCoord_def)
  have s35: "real_of_int (kernelH ! 1 ! 0) = - 2"
    by (simp add: kernelH_def)
  have s36: "fmul (Fin 0) (Fin (- 2)) = Fin 0"
    by (simp add: fmul_def signum_def infinity_def ev)
  have s37: "fadd (Fin (11184811 / 33554432)) (Fin 0) = Fin (11184811 / 33554432)"
    by (simp add: fadd_def ev)
  have s38: "heightD [0, 0, 0, 255, 85, 85, 85, 255] 2 1 (int 1 + int 1 - 1) (int 0 + int 1 - 1) = toFloat32 (fdiv (lumaD [0, 0, 0, 255, 85, 85, 85, 255] 2 1 0) (Fin 255))"
    by (simp add: heightD_def clampCoord_def)
  have s39: "real_of_int (kernelH ! 1 ! 1) = 0"
    by (simp add: kernelH_def)
  have s40: "heightD [0, 0, 0, 255, 85, 85, 85, 255] 2 1 (int 1 + int 2 - 1) (int 0 + int 1 - 1) = toFloat32 (fdiv (lumaD [0, 0, 0, 255, 85, 85, 85, 255] 2 1 0) (Fin 255))"
    by (simp add: heightD_def clampCoord_def)
  have s41: "real_of_int (kernelH ! 1 ! 2) = 2"
    by (simp add: kernelH_def)
  have s42: "fmul (Fin (11184811 / 33554432)) (Fin 2) = Fin (11184811 / 16777216)"
    by (simp add: fmul_def signum_def infinity_def ev)
  have s43: "fadd (Fin (11184811 / 33554432)) (Fin (11184811 / 16777216)) = Fin (33554433 / 33554432)"
    by (simp add: fadd_def ev)
  have s44: "heightD [0, 0, 0, 255, 85, 85, 85, 255] 2 1 (int 1 + int 0 - 1) (int 0 + int 2 - 1) = toFloat32 (fdiv (lumaD [0, 0, 0, 255, 85, 85, 85, 255] 2 0 0) (Fin 255))"
    by (simp add: heightD_def clampCoord_def)
  have s45: "real_of_int (kernelH ! 2 ! 0) = - 1"
    by (simp add: kernelH_def)
  have s46: "fadd (Fin (33554433 / 33554432)) (Fin 0) = Fin (33554433 / 33554432)"
    by (simp add: fadd_def ev)
  have s47: "heightD [0, 0, 0, 255, 85, 85, 85, 255] 2 1 (int 1 + int 1 - 1) (int 0 + int 2 - 1) = toFloat32 (fdiv (lumaD [0, 0, 0, 255, 85, 85, 85, 255] 2 1 0) (Fin 255))"
    by (simp add: heightD_def clampCoord_def)
  have s48: "real_of_int (kernelH ! 2 ! 1) = 0"
    by (simp add: kernelH_def)
  have s49: "heightD [0, 0, 0, 255, 85, 85, 85, 255] 2 1 (int 1 + int 2 - 1) (int 0 + int 2 - 1) = toFloat32 (fdiv (lumaD [0, 0, 0, 255, 85, 85, 85, 255] 2 1 0) (Fin 255))"
    by (simp add: heightD_def clampCoord_def)
  have s50: "real_of_int (kernelH ! 2 ! 2) = 1"
    by (simp add: kernelH_def)
  have s51: "fadd (Fin (33554433 / 33554432)) (Fin (11184811 / 33554432)) = Fin (11184811 / 8388608)"
    by (simp add: fadd_def ev)
  have s52: "real_of_int (kernelV ! 0 ! 0) = - 1"
    by (simp add: kernelV_def)
  have s53: "real_of_int (kernelV ! 0 ! 1) = - 2"
    by (simp add: kernelV_def)
  have s54: "fmul (Fin (11184811 / 33554432)) (Fin (- 2)) = Fin (- (11184811 / 16777216))"
    by (simp add: fmul_def signum_def infinity_def ev)
  have s55: "fadd (Fin 0) (Fin (- (11184811 / 16777216))) = Fin (- (11184811 / 16777216))"
    by (simp add: fadd_def ev)
  have s56: "real_of_int (kernelV ! 0 ! 2) = - 1"
    by (simp add: kernelV_def)
  have s57: "fmul (Fin (11184811 / 33554432)) (Fin (- 1)) = Fin (- (11184811 / 33554432))"
    by (simp add: fmul_def signum_def infinity_def ev)
  have s58: "fadd (Fin (- (11184811 / 16777216))) (Fin (- (11184811 / 33554432))) = Fin (- (33554433 / 33554432))"
    by (simp add: fadd_def ev)
  have s59: "real_of_int (kernelV ! 1 ! 0) = 0"
    by (simp add: kernelV_def)
  have s60: "fmul (Fin 0) (Fin 0) = Fin 0"
    by (simp add: fmul_def signum_def infinity_def ev)
  have s61: "fadd (Fin (- (33554433 / 33554432))) (Fin 0) = Fin (- (33554433 / 33554432))"
    by (simp add: fadd_def ev)
  have s62: "real_of_int (kernelV ! 1 ! 1) = 0"
    by (simp add: kernelV_def)
  have s63: "real_of_int (kernelV ! 1 ! 2) = 0"
    by (simp add: kernelV_def)
  have s64: "real_of_int (kernelV ! 2 ! 0) = 1"
    by (simp add: kernelV_def)
  have s65: "fmul (Fin 0) (Fin 1) = Fin 0"
    by (simp add: fmul_def signum_def infinity_def ev)
  have s66: "real_of_int (kernelV ! 2 ! 1) = 2"
    by (simp add: kernelV_def)
  have s67: "fadd (Fin (- (33554433 / 33554432))) (Fin (11184811 / 16777216)) = Fin (- (11184811 / 33554432))"
    by (simp add: fadd_def ev)
  have s68: "real_of_int (kernelV ! 2 ! 2) = 1"
    by (simp add: kernelV_def)
  have s69: "fadd (Fin (- (11184811 / 33554432))) (Fin (11184811 / 33554432)) = Fin 0"
    by (simp add: fadd_def ev)
  have s70: "fneg (Fin (11184811 / 8388608)) = Fin (- (11184811 / 8388608))"
    by (simp add: fneg_def)
  have s71: "fmul (Fin (- (11184811 / 8388608))) (Fin 1) = Fin (- (11184811 / 8388608))"
    by (simp add: fmul_def signum_def infinity_def ev)
  have s72: "fneg (Fin 0) = Fin 0"
    by (simp add: fneg_def)
  have s73: "fmul (Fin (- (11184811 / 8388608))) (Fin (- (11184811 / 8388608))) = Fin (125099997105721 / 70368744177664)"
    by (simp add: fmul_def signum_def infinity_def ev)
  have s74: "fadd (Fin (125099997105721 / 70368744177664)) (Fin 0) = Fin (125099997105721 / 70368744177664)"
    by (simp add: fadd_def ev)
  have s75: "fmul (Fin 1) (Fin 1) = Fin 1"
    by (simp add: fmul_def signum_def infinity_def ev)
  have s76: "fadd (Fin (125099997105721 / 70368744177664)) (Fin 1) = Fin (195468741283385 / 70368744177664)"
    by (simp add: fadd_def ev)
  have s77: "fsqrt (Fin (195468741283385 / 70368744177664)) = Fin (1876499880529101 / 1125899906842624)"
    by (rule fsqrt_eqI[where lo = "2435836108678057609841850722041938000093509782381 / 1461501637330902918203684832716283019655932542976" and hi = "1217918054339028804920925361020969000046754891191 / 730750818665451459101842416358141509827966271488"]) (simp_all add: power2_eq_square ev)
  have s78: "double 0.5 = Fin (1 / 2)"
    by (simp add: ev)
  have s79: "fdiv (Fin (- (11184811 / 8388608))) (Fin (1876499880529101 / 1125899906842624)) = Fin (- (7205759481102203 / 9007199254740992))"
    by (simp add: fdiv_def signum_def infinity_def ev)
  have s80: "fadd (Fin (- (7205759481102203 / 9007199254740992))) (Fin 1) = Fin (1801439773638789 / 9007199254740992)"
    by (simp add: fadd_def ev)
  have s81: "fmul (Fin (1801439773638789 / 9007199254740992)) (Fin (1 / 2)) = Fin (1801439773638789 / 18014398509481984)"
    by (simp add: fmul_def signum_def infinity_def ev)
  have s82: "fmul (Fin (1801439773638789 / 18014398509481984)) (Fin 255) = Fin (3588805799046025 / 140737488355328)"
    by (simp add: fmul_def signum_def infinity_def ev)
  have s83: "fdiv (Fin 0) (Fin (1876499880529101 / 1125899906842624)) = Fin 0"
    by (simp add: fdiv_def signum_def infinity_def ev)
  have s84: "fadd (Fin 0) (Fin 1) = Fin 1"
    by (simp add: fadd_def ev)
  have s85: "fmul (Fin 1) (Fin (1 / 2)) = Fin (1 / 2)"
    by (simp add: fmul_def signum_def infinity_def ev)
  have s86: "fmul (Fin (1 / 2)) (Fin 255) = Fin (255 / 2)"
    by (simp add: fmul_def signum_def infinity_def ev)
  have s87: "fdiv (Fin 1) (Fin (1876499880529101 / 1125899906842624)) = Fin (5404319449765381 / 9007199254740992)"
    by (simp add: fdiv_def signum_def infinity_def ev)
  have s88: "fadd (Fin (5404319449765381 / 9007199254740992)) (Fin 1) = Fin (3602879676126593 / 2251799813685248)"
    by (simp add: fadd_def ev)
  have s89: "fmul (Fin (3602879676126593 / 2251799813685248)) (Fin (1 / 2)) = Fin (3602879676126593 / 4503599627370496)"
    by (simp add: fmul_def signum_def infinity_def ev)
  have s90: "fmul (Fin (3602879676126593 / 4503599627370496)) (Fin 255) = Fin (7177611854783447 / 35184372088832)"
    by (simp add: fmul_def signum_def infinity_def ev)
  show ?thesis
    by (simp only: normalD_def gradientD_def axisD_def Let_def lumaD_def fsub_def fold_simps o_apply id_apply prod.case s1 s2 s3 s4 s5 s6 s7 s8 s9 s10 s11 s12 s13 s14 s15 s16 s17 s18 s19 s20 s21 s22 s23 s24 s25 s26 s27 s28 s29 s30 s31 s32 s33 s34 s35 s36 s37 s38 s39 s40 s41 s42 s43 s44 s45 s46 s47 s48 s49 s50 s51 s52 s53 s54 s55 s56 s57 s58 s59 s60 s61 s62 s63 s64 s65 s66 s67 s68 s69 s70 s71 s72 s73 s74 s75 s76 s77 s78 s79 s80 s81 s82 s83 s84 s85 s86 s87 s88 s89 s90)
qed

lemma window_2_1_a: "window r 2 (Suc 0) 0 0 = (if r = 0 then {(0, 0)} else {(0, 0), (1, 0)})"
  by (auto simp add: window_def)

lemma window_2_1_b: "window r 2 (Suc 0) (Suc 0) 0 = (if r = 0 then {(1, 0)} else {(0, 0), (1, 0)})"
  by (auto simp add: window_def)

lemma byte_255 [simp]: "toUint8Clamp (Fin 255) = 255"
  by (simp add: toUint8Clamp_def)

lemma nth4:
  "[a, a, a, b] ! 0 = a" "[a, a, a, b] ! 1 = a" "[a, a, a, b] ! 2 = a" "[a, a, a, b] ! 3 = b"
  by (simp_all add: numeral_2_eq_2 numeral_3_eq_3)

lemma aoSpec_value_b: "aoSpec [1, 1, 1, 255, 190, 190, 190, 255] 2 1 1 1 0 = 93 / 2"
  by (simp add: aoSpec_def avgContrast_def window_2_1_b luma_def chan_def clampSpec_def)

lemma avgContrast_value_a: "avgContrast [101, 101, 101, 255, 121, 121, 121, 255] 2 1 0 0 = 10"
  by (simp add: avgContrast_def window_2_1_a luma_def chan_def)

lemma aoSpec_value_a: "aoSpec [101, 101, 101, 255, 121, 121, 121, 255] 2 1 2 0 0 = 168.8" "aoSpec [101, 101, 101, 255, 121, 121, 121, 255] 2 1 1 0 0 = 188.8"
  unfolding aoSpec_def avgContrast_value_a by (simp_all add: luma_def chan_def clampSpec_def)

lemma roughnessSpec_value_b: "roughnessSpec [71, 71, 71, 255, 225, 225, 225, 255] 2 1 1 1 0 = 249 / 2"
  by (simp add: roughnessSpec_def avgVariance_def window_2_1_b luma_def chan_def clampSpec_def)

lemma metallicSpec_value_a: "metallicSpec [11, 11, 11, 255, 0, 0, 0, 255, 200, 100, 50, 255] 3 (1 / 2) 0 0 = 11 / 2"
  by (simp add: metallicSpec_def saturationSpec_def luma_def chan_def clampSpec_def)

lemma sqrt_25_9: "sqrt (25 / 9) = 5 / 3"
  by (rule real_sqrt_unique) (simp_all add: power2_eq_square)

lemma normalSpec_value_a: "normalSpec [0, 0, 0, 255, 85, 85, 85, 255] 2 1 1 0 0 = (51 / 2, 255 / 2, 204)"
proof -
  have g: "gradient kernelH [0, 0, 0, 255, 85, 85, 85, 255] 2 1 0 0 = 4 / 3"
    "gradient kernelV [0, 0, 0, 255, 85, 85, 85, 255] 2 1 0 0 = 0"
    by (simp_all add: gradient_def kernelH_def kernelV_def heightAt_def clampCoord_def
        luma_def chan_def numeral_3_eq_3 lessThan_Suc)
  have s: "(- (4 / 3) * 1)\<^sup>2 + (- 0 * 1)\<^sup>2 + 1\<^sup>2 = (25 / 9 :: real)"
    by (simp add: power2_eq_square)
  show ?thesis unfolding normalSpec_def g Let_def s sqrt_25_9 by simp
qed

lemma generateAO_bytes:
  assumes "length src = w * h * 4" "x < w" "y < h" "k < 3"
  shows "generateAO src w h i ! ((y * w + x) * 4 + k) = toUint8Clamp (aoD src w h i x y)"
proof -
  have k4: "k < 4" using assms(4) by simp
  have "[aoD src w h i x y, aoD src w h i x y, aoD src w h i x y, Fin 255] ! k = aoD src w h i x y"
    using assms(4) by (cases k rule: nat.exhaust) (auto simp add: nth_Cons')
  then show ?thesis
    using generateAO_pixel[OF assms(2,3) k4, of src i] aoPixel_wf[OF assms(1,2,3), of i]
    by simp
qed

lemma generateRoughness_bytes:
  assumes "length src = w * h * 4" "x < w" "y < h" "k < 3"
  shows "generateRoughness src w h i ! ((y * w + x) * 4 + k) = toUint8Clamp (roughnessD src w h i x y)"
proof -
  have k4: "k < 4" using assms(4) by simp
  have "[roughnessD src w h i x y, roughnessD src w h i x y, roughnessD src w h i x y, Fin 255] ! k
      = roughnessD src w h i x y"
    using assms(4) by (cases k rule: nat.exhaust) (auto simp add: nth_Cons')
  then show ?thesis
    using generateRoughness_pixel[OF assms(2,3) k4, of src i] roughnessPixel_wf[OF assms(1,2,3), of i]
    by simp
qed

lemma generateMetallic_bytes:
  assumes "length src = w * h * 4" "x < w" "y < h" "k < 3"
  shows "generateMetallic src w h i ! ((y * w + x) * 4 + k) = toUint8Clamp (metallicD src w i x y)"
proof -
  have k4: "k < 4" using assms(4) by simp
  have "[metallicD src w i x y, metallicD src w i x y, metallicD src w i x y, Fin 255] ! k
      = metallicD src w i x y"
    using assms(4) by (cases k rule: nat.exhaust) (auto simp add: nth_Cons')
  then show ?thesis
    using generateMetallic_pixel[OF assms(2,3) k4, of src i] metallicPixel_wf[OF assms(1,2,3), of i]
    by simp
qed

lemma generateNormal_bytes:
  assumes "length src = w * h * 4" "x < w" "y < h" "normalD src w h s x y = (ex, ey, ez)"
  shows "generateNormal src w h s ! ((y * w + x) * 4) = toUint8Clamp ex"
    and "generateNormal src w h s ! ((y * w + x) * 4 + 1) = toUint8Clamp ey"
    and "generateNormal src w h s ! ((y * w + x) * 4 + 2) = toUint8Clamp ez"
    and "generateNormal src w h s ! ((y * w + x) * 4 + 3) = 255"
  using generateNormal_pixel[OF assms(2,3), of 0 src s]
    generateNormal_pixel[OF assms(2,3), of 1 src s]
    generateNormal_pixel[OF assms(2,3), of 2 src s]
    generateNormal_pixel[OF assms(2,3), of 3 src s]
    normalPixel_wf[OF assms(1,2,3), of s]
  by (simp_all add: assms(4))

lemma alpha_bytes:
  assumes "x < w" "y < h"
  shows "generateAO src w h i ! ((y * w + x) * 4 + 3) = 255"
    and "generateRoughness src w h i ! ((y * w + x) * 4 + 3) = 255"
    and "generateMetallic src w h i ! ((y * w + x) * 4 + 3) = 255"
  using generateAO_pixel[OF assms, of 3 src i] generateRoughness_pixel[OF assms, of 3 src i]
    generateMetallic_pixel[OF assms, of 3 src i]
  by simp_all

subsection \<open>The error of the resizing\<close>












lemma resize_b_exact:
  "nat \<lfloor>real 1122 * resizeFactor 1122 500\<rfloor> = 1024"
  "nat \<lfloor>real 500 * resizeFactor 1122 500\<rfloor> = 456"
  by (simp_all add: resizeFactor_def)

lemma resize_c: "resizeDims 1 1 = (1, 1)"
  by (simp add: resizeDims_def maxSize_def)



section \<open>The claims\<close>

subsection \<open>Ambient occlusion\<close>

text \<open>
  Claim C1, as amended. For every pixel \<open>(x, y)\<close> of a well-formed source buffer and
  every intensity (a finite double, an infinity or \<^verbatim>\<open>NaN\<close>) the AO generator computes
  \<open>clamp (255 - avgContrast * aoIntensity * 2 - (255 - luma) * 0.3) 0 255\<close> in double
  arithmetic, every operation rounded: \<open>luma\<close> is \<open>(0.299 R + 0.587 G) + 0.114 B\<close>, and
  \<open>avgContrast\<close> is the sum of \<open>\<bar>luma (x, y) - luma n\<bar>\<close> over the in-bounds positions
  \<open>n\<close> of the 5 by 5 window centred at \<open>(x, y)\<close>, accumulated row by row, divided by the
  number of those positions. The R, G and B samples of the pixel hold this value
  rounded by \<^verbatim>\<open>ToUint8Clamp\<close>, and alpha is 255.
\<close>

theorem generateAO_spec:
  assumes "length srcData = width * height * 4" "x < width" "y < height"
  shows "aoPixel srcData width height intensity x y = aoD srcData width height intensity x y \<and>
         generateAO srcData width height intensity ! ((y * width + x) * 4) =
           toUint8Clamp (aoD srcData width height intensity x y) \<and>
         generateAO srcData width height intensity ! ((y * width + x) * 4 + 1) =
           toUint8Clamp (aoD srcData width height intensity x y) \<and>
         generateAO srcData width height intensity ! ((y * width + x) * 4 + 2) =
           toUint8Clamp (aoD srcData width height intensity x y) \<and>
         generateAO srcData width height intensity ! ((y * width + x) * 4 + 3) = 255"
  using generateAO_bytes[OF assms, of 0 intensity] generateAO_bytes[OF assms, of 1 intensity]
    generateAO_bytes[OF assms, of 2 intensity] alpha_bytes[OF assms(2,3), of srcData intensity]
    aoPixel_wf[OF assms, of intensity]
  by simp

theorem generateAO_spec_witness:
  "length ([101, 101, 101, 255, 121, 121, 121, 255] :: byte list) = 2 * 1 * 4 \<and> (0::nat) < 2 \<and> (0::nat) < 1 \<and>
   aoPixel [101, 101, 101, 255, 121, 121, 121, 255] 2 1 (Fin 1) 0 0 = Fin (3321404725185741 / 17592186044416) \<and>
   generateAO [101, 101, 101, 255, 121, 121, 121, 255] 2 1 (Fin 1) ! 0 = 189 \<and>
   generateAO [101, 101, 101, 255, 121, 121, 121, 255] 2 1 (Fin 1) ! 1 = 189 \<and>
   generateAO [101, 101, 101, 255, 121, 121, 121, 255] 2 1 (Fin 1) ! 2 = 189 \<and>
   generateAO [101, 101, 101, 255, 121, 121, 121, 255] 2 1 (Fin 1) ! 3 = 255"
proof -
  have len: "length ([101, 101, 101, 255, 121, 121, 121, 255] :: byte list) = 2 * 1 * 4" and p: "(0::nat) < 2" and q: "(0::nat) < 1"
    by simp_all
  have t: "toUint8Clamp (Fin (3321404725185741 / 17592186044416)) = 189"
    by (simp add: toUint8Clamp_def)
  from generateAO_spec[OF len p q, of "Fin 1"]
  have "aoPixel [101, 101, 101, 255, 121, 121, 121, 255] 2 1 (Fin 1) 0 0 = Fin (3321404725185741 / 17592186044416)"
    and "generateAO [101, 101, 101, 255, 121, 121, 121, 255] 2 1 (Fin 1) ! ((0 * 2 + 0) * 4) = 189"
    and "generateAO [101, 101, 101, 255, 121, 121, 121, 255] 2 1 (Fin 1) ! ((0 * 2 + 0) * 4 + 1) = 189"
    and "generateAO [101, 101, 101, 255, 121, 121, 121, 255] 2 1 (Fin 1) ! ((0 * 2 + 0) * 4 + 2) = 189"
    and "generateAO [101, 101, 101, 255, 121, 121, 121, 255] 2 1 (Fin 1) ! ((0 * 2 + 0) * 4 + 3) = 255"
    unfolding ao_value_a t by blast+
  then show ?thesis using len by (simp add: numeral_2_eq_2)
qed

text \<open>
  The value is not that of the formula over the real numbers. For the 2 by 1 image of
  the grey levels 1 and 190 and intensity 1 the formula gives \<open>255 - 189 - 19.5 = 46.5\<close>
  at pixel \<open>(1, 0)\<close>, which \<^verbatim>\<open>ToUint8Clamp\<close> rounds to the even 46; the doubles give
  \<open>46.50000000000002\<close>, stored as 47.
\<close>

theorem generateAO_formula_counterexample:
  "aoSpec [1, 1, 1, 255, 190, 190, 190, 255] 2 1 1 1 0 = 93 / 2 \<and> toUint8Clamp (Fin (93 / 2)) = 46 \<and>
   generateAO [1, 1, 1, 255, 190, 190, 190, 255] 2 1 (Fin 1) ! 4 = 47"
proof -
  have len: "length ([1, 1, 1, 255, 190, 190, 190, 255] :: byte list) = 2 * 1 * 4" and p: "(1::nat) < 2" and q: "(0::nat) < 1"
    and k: "(0::nat) < 3"
    by simp_all
  have t: "toUint8Clamp (Fin (6544293208522755 / 140737488355328)) = 47" "toUint8Clamp (Fin (93 / 2)) = 46"
    by (simp_all add: toUint8Clamp_def)
  have "generateAO [1, 1, 1, 255, 190, 190, 190, 255] 2 1 (Fin 1) ! ((0 * 2 + 1) * 4 + 0) = 47"
    unfolding generateAO_bytes[OF len p q k] ao_value_b t ..
  then show ?thesis using aoSpec_value_b t(2) by simp
qed

subsection \<open>Normal map\<close>

text \<open>
  Claim C2, as amended. For every pixel of a well-formed source buffer and every
  strength the normal generator takes the height field \<open>luma / 255\<close>, each height
  computed in double arithmetic and then rounded to single precision (the height map is a
  \<^verbatim>\<open>Float32Array\<close>), samples it with coordinates clamped to the nearest valid one, and
  convolves it with the horizontal kernel \<open>[[-1,0,1],[-2,0,2],[-1,0,1]]\<close> and the
  vertical kernel \<open>[[-1,-2,-1],[0,0,0],[1,2,1]]\<close>, the nine products accumulated row by
  row, to get \<open>dx\<close> and \<open>dy\<close>. It forms \<open>(- dx * normalStrength, - dy * normalStrength, 1)\<close>,
  divides by \<open>len = sqrt ((nx * nx + ny * ny) + nz * nz)\<close> and encodes each axis as
  \<open>(v / len + 1) * 0.5 * 255\<close>, all in double arithmetic, every operation rounded. R,
  G and B hold the three axes rounded by \<^verbatim>\<open>ToUint8Clamp\<close>, and alpha is 255.
\<close>

theorem generateNormal_spec:
  assumes "length srcData = width * height * 4" "x < width" "y < height"
  shows "normalPixel (heightMapOf srcData width height) width height strength x y =
           normalD srcData width height strength x y \<and>
         (case normalD srcData width height strength x y of (ex, ey, ez) \<Rightarrow>
           generateNormal srcData width height strength ! ((y * width + x) * 4) =
             toUint8Clamp ex \<and>
           generateNormal srcData width height strength ! ((y * width + x) * 4 + 1) =
             toUint8Clamp ey \<and>
           generateNormal srcData width height strength ! ((y * width + x) * 4 + 2) =
             toUint8Clamp ez \<and>
           generateNormal srcData width height strength ! ((y * width + x) * 4 + 3) = 255)"
proof (cases "normalD srcData width height strength x y")
  case (fields ex ey ez)
  show ?thesis
    using generateNormal_bytes[OF assms fields] normalPixel_wf[OF assms, of strength]
    by (simp add: fields)
qed

theorem generateNormal_spec_witness:
  "length ([0, 0, 0, 255, 85, 85, 85, 255] :: byte list) = 2 * 1 * 4 \<and> (1::nat) < 2 \<and> (0::nat) < 1 \<and>
   normalPixel (heightMapOf [0, 0, 0, 255, 85, 85, 85, 255] 2 1) 2 1 (Fin 1) 1 0 =
     (Fin (3588805799046025 / 140737488355328), Fin (255 / 2), Fin (7177611854783447 / 35184372088832)) \<and>
   generateNormal [0, 0, 0, 255, 85, 85, 85, 255] 2 1 (Fin 1) ! 4 = 25 \<and>
   generateNormal [0, 0, 0, 255, 85, 85, 85, 255] 2 1 (Fin 1) ! 5 = 128 \<and>
   generateNormal [0, 0, 0, 255, 85, 85, 85, 255] 2 1 (Fin 1) ! 6 = 204 \<and>
   generateNormal [0, 0, 0, 255, 85, 85, 85, 255] 2 1 (Fin 1) ! 7 = 255"
proof -
  have len: "length ([0, 0, 0, 255, 85, 85, 85, 255] :: byte list) = 2 * 1 * 4" and p: "(1::nat) < 2" and q: "(0::nat) < 1"
    by simp_all
  have t: "toUint8Clamp (Fin (3588805799046025 / 140737488355328)) = 25" "toUint8Clamp (Fin (255 / 2)) = 128"
    "toUint8Clamp (Fin (7177611854783447 / 35184372088832)) = 204"
    by (simp_all add: toUint8Clamp_def)
  from generateNormal_spec[OF len p q, of "Fin 1"]
  have "normalPixel (heightMapOf [0, 0, 0, 255, 85, 85, 85, 255] 2 1) 2 1 (Fin 1) 1 0 =
     (Fin (3588805799046025 / 140737488355328), Fin (255 / 2), Fin (7177611854783447 / 35184372088832))"
    and "generateNormal [0, 0, 0, 255, 85, 85, 85, 255] 2 1 (Fin 1) ! ((0 * 2 + 1) * 4) = 25"
    and "generateNormal [0, 0, 0, 255, 85, 85, 85, 255] 2 1 (Fin 1) ! ((0 * 2 + 1) * 4 + 1) = 128"
    and "generateNormal [0, 0, 0, 255, 85, 85, 85, 255] 2 1 (Fin 1) ! ((0 * 2 + 1) * 4 + 2) = 204"
    and "generateNormal [0, 0, 0, 255, 85, 85, 85, 255] 2 1 (Fin 1) ! ((0 * 2 + 1) * 4 + 3) = 255"
    unfolding normal_value_b prod.case t by blast+
  then show ?thesis using len by simp
qed

text \<open>
  The value is not that of the formula over the real numbers. For the 2 by 1 image of
  the grey levels 0 and 85 and strength 1 the heights are 0 and \<open>1 / 3\<close>, so at pixel
  \<open>(0, 0)\<close> the formula gives \<open>dx = 4 / 3\<close>, \<open>len = 5 / 3\<close> and the x axis
  \<open>(- 0.8 + 1) * 0.5 * 255 = 25.5\<close>, which \<^verbatim>\<open>ToUint8Clamp\<close> rounds to the even 26. The
  single-precision height \<open>0.3333333432674408\<close> gives \<open>25.49999890565875\<close>, stored as 25.
\<close>

theorem generateNormal_formula_counterexample:
  "normalSpec [0, 0, 0, 255, 85, 85, 85, 255] 2 1 1 0 0 = (51 / 2, 255 / 2, 204) \<and>
   toUint8Clamp (Fin (51 / 2)) = 26 \<and>
   generateNormal [0, 0, 0, 255, 85, 85, 85, 255] 2 1 (Fin 1) ! 0 = 25"
proof -
  have len: "length ([0, 0, 0, 255, 85, 85, 85, 255] :: byte list) = 2 * 1 * 4" and p: "(0::nat) < 2" and q: "(0::nat) < 1"
    by simp_all
  have t: "toUint8Clamp (Fin (3588805799046025 / 140737488355328)) = 25" "toUint8Clamp (Fin (51 / 2)) = 26"
    by (simp_all add: toUint8Clamp_def)
  have "generateNormal [0, 0, 0, 255, 85, 85, 85, 255] 2 1 (Fin 1) ! ((0 * 2 + 0) * 4) = 25"
    unfolding generateNormal_bytes(1)[OF len p q normal_value_a] t ..
  then show ?thesis using normalSpec_value_a t(2) by simp
qed

subsection \<open>Roughness\<close>

text \<open>
  Claim C3, as amended. For every pixel of a well-formed source buffer and every
  intensity the roughness generator computes
  \<open>clamp (avgVariance * roughnessIntensity * 0.5 + (255 - luma) * 0.3) 0 255\<close> in double
  arithmetic, every operation rounded, where \<open>avgVariance\<close> is the sum of
  \<open>(\<bar>\<Delta>R\<bar> + \<bar>\<Delta>G\<bar>) + \<bar>\<Delta>B\<bar>\<close> over the in-bounds positions of the 3 by 3 window centred
  at the pixel, accumulated row by row, divided by the number of those positions. The
  R, G and B samples of the pixel hold this value rounded by \<^verbatim>\<open>ToUint8Clamp\<close>, and alpha
  is 255.
\<close>

theorem generateRoughness_spec:
  assumes "length srcData = width * height * 4" "x < width" "y < height"
  shows "roughnessPixel srcData width height intensity x y = roughnessD srcData width height intensity x y \<and>
         generateRoughness srcData width height intensity ! ((y * width + x) * 4) =
           toUint8Clamp (roughnessD srcData width height intensity x y) \<and>
         generateRoughness srcData width height intensity ! ((y * width + x) * 4 + 1) =
           toUint8Clamp (roughnessD srcData width height intensity x y) \<and>
         generateRoughness srcData width height intensity ! ((y * width + x) * 4 + 2) =
           toUint8Clamp (roughnessD srcData width height intensity x y) \<and>
         generateRoughness srcData width height intensity ! ((y * width + x) * 4 + 3) = 255"
  using generateRoughness_bytes[OF assms, of 0 intensity] generateRoughness_bytes[OF assms, of 1 intensity]
    generateRoughness_bytes[OF assms, of 2 intensity] alpha_bytes[OF assms(2,3), of srcData intensity]
    roughnessPixel_wf[OF assms, of intensity]
  by simp

theorem generateRoughness_spec_witness:
  "length ([71, 71, 71, 255, 225, 225, 225, 255] :: byte list) = 2 * 1 * 4 \<and> (0::nat) < 2 \<and> (0::nat) < 1 \<and>
   roughnessPixel [71, 71, 71, 255, 225, 225, 225, 255] 2 1 (Fin 1) 0 0 = Fin (3002986157781811 / 17592186044416) \<and>
   generateRoughness [71, 71, 71, 255, 225, 225, 225, 255] 2 1 (Fin 1) ! 0 = 171 \<and>
   generateRoughness [71, 71, 71, 255, 225, 225, 225, 255] 2 1 (Fin 1) ! 1 = 171 \<and>
   generateRoughness [71, 71, 71, 255, 225, 225, 225, 255] 2 1 (Fin 1) ! 2 = 171 \<and>
   generateRoughness [71, 71, 71, 255, 225, 225, 225, 255] 2 1 (Fin 1) ! 3 = 255"
proof -
  have len: "length ([71, 71, 71, 255, 225, 225, 225, 255] :: byte list) = 2 * 1 * 4" and p: "(0::nat) < 2" and q: "(0::nat) < 1"
    by simp_all
  have t: "toUint8Clamp (Fin (3002986157781811 / 17592186044416)) = 171"
    by (simp add: toUint8Clamp_def)
  from generateRoughness_spec[OF len p q, of "Fin 1"]
  have "roughnessPixel [71, 71, 71, 255, 225, 225, 225, 255] 2 1 (Fin 1) 0 0 = Fin (3002986157781811 / 17592186044416)"
    and "generateRoughness [71, 71, 71, 255, 225, 225, 225, 255] 2 1 (Fin 1) ! ((0 * 2 + 0) * 4) = 171"
    and "generateRoughness [71, 71, 71, 255, 225, 225, 225, 255] 2 1 (Fin 1) ! ((0 * 2 + 0) * 4 + 1) = 171"
    and "generateRoughness [71, 71, 71, 255, 225, 225, 225, 255] 2 1 (Fin 1) ! ((0 * 2 + 0) * 4 + 2) = 171"
    and "generateRoughness [71, 71, 71, 255, 225, 225, 225, 255] 2 1 (Fin 1) ! ((0 * 2 + 0) * 4 + 3) = 255"
    unfolding roughness_value_a t by blast+
  then show ?thesis using len by (simp add: numeral_2_eq_2)
qed

text \<open>
  The value is not that of the formula over the real numbers. For the 2 by 1 image of
  the grey levels 71 and 225 and intensity 1 the formula gives \<open>115.5 + 9 = 124.5\<close> at
  pixel \<open>(1, 0)\<close>, which \<^verbatim>\<open>ToUint8Clamp\<close> rounds to the even 124; the doubles give
  \<open>124.50000000000001\<close>, stored as 125.
\<close>

theorem generateRoughness_formula_counterexample:
  "roughnessSpec [71, 71, 71, 255, 225, 225, 225, 255] 2 1 1 1 0 = 249 / 2 \<and> toUint8Clamp (Fin (249 / 2)) = 124 \<and>
   generateRoughness [71, 71, 71, 255, 225, 225, 225, 255] 2 1 (Fin 1) ! 4 = 125"
proof -
  have len: "length ([71, 71, 71, 255, 225, 225, 225, 255] :: byte list) = 2 * 1 * 4" and p: "(1::nat) < 2" and q: "(0::nat) < 1"
    and k: "(0::nat) < 3"
    by simp_all
  have t: "toUint8Clamp (Fin (8760908650119169 / 70368744177664)) = 125" "toUint8Clamp (Fin (249 / 2)) = 124"
    by (simp_all add: toUint8Clamp_def)
  have "generateRoughness [71, 71, 71, 255, 225, 225, 225, 255] 2 1 (Fin 1) ! ((0 * 2 + 1) * 4 + 0) = 125"
    unfolding generateRoughness_bytes[OF len p q k] roughness_value_b t ..
  then show ?thesis using roughnessSpec_value_b t(2) by simp
qed

subsection \<open>Metallic\<close>

text \<open>
  Claim C4, as amended. For every pixel of a well-formed source buffer and every
  intensity the metallic generator computes
  \<open>clamp (luma * metallicIntensity * (1 - saturation * 0.5)) 0 255\<close> in double arithmetic,
  every operation rounded, where \<open>saturation\<close> is \<open>(max - min) / max\<close> of the three
  channels when \<open>max\<close> is not 0, and 0 when it is, so that no division by zero is
  performed. The R, G and B samples of the pixel hold this value rounded by
  \<^verbatim>\<open>ToUint8Clamp\<close>, and alpha is 255.
\<close>

theorem generateMetallic_spec:
  assumes "length srcData = width * height * 4" "x < width" "y < height"
  shows "metallicPixel srcData width intensity x y = metallicD srcData width intensity x y \<and>
         generateMetallic srcData width height intensity ! ((y * width + x) * 4) =
           toUint8Clamp (metallicD srcData width intensity x y) \<and>
         generateMetallic srcData width height intensity ! ((y * width + x) * 4 + 1) =
           toUint8Clamp (metallicD srcData width intensity x y) \<and>
         generateMetallic srcData width height intensity ! ((y * width + x) * 4 + 2) =
           toUint8Clamp (metallicD srcData width intensity x y) \<and>
         generateMetallic srcData width height intensity ! ((y * width + x) * 4 + 3) = 255"
  using generateMetallic_bytes[OF assms, of 0 intensity] generateMetallic_bytes[OF assms, of 1 intensity]
    generateMetallic_bytes[OF assms, of 2 intensity] alpha_bytes[OF assms(2,3), of srcData intensity]
    metallicPixel_wf[OF assms, of intensity]
  by simp

theorem generateMetallic_spec_witness:
  "length ([11, 11, 11, 255, 0, 0, 0, 255, 200, 100, 50, 255] :: byte list) = 3 * 1 * 4 \<and> (1::nat) < 3 \<and> (2::nat) < 3 \<and> (0::nat) < 1 \<and>
   satD [11, 11, 11, 255, 0, 0, 0, 255, 200, 100, 50, 255] 3 1 0 = Fin 0 \<and> satD [11, 11, 11, 255, 0, 0, 0, 255, 200, 100, 50, 255] 3 2 0 = Fin (3 / 4) \<and>
   metallicPixel [11, 11, 11, 255, 0, 0, 0, 255, 200, 100, 50, 255] 3 (Fin (1 / 2)) 1 0 = Fin 0 \<and>
   metallicPixel [11, 11, 11, 255, 0, 0, 0, 255, 200, 100, 50, 255] 3 (Fin (1 / 2)) 2 0 = Fin (621 / 16) \<and>
   generateMetallic [11, 11, 11, 255, 0, 0, 0, 255, 200, 100, 50, 255] 3 1 (Fin (1 / 2)) ! 4 = 0 \<and>
   generateMetallic [11, 11, 11, 255, 0, 0, 0, 255, 200, 100, 50, 255] 3 1 (Fin (1 / 2)) ! 8 = 39 \<and>
   generateMetallic [11, 11, 11, 255, 0, 0, 0, 255, 200, 100, 50, 255] 3 1 (Fin (1 / 2)) ! 11 = 255"
proof -
  have len: "length ([11, 11, 11, 255, 0, 0, 0, 255, 200, 100, 50, 255] :: byte list) = 3 * 1 * 4" and p1: "(1::nat) < 3" and p2: "(2::nat) < 3"
    and q: "(0::nat) < 1"
    by simp_all
  have s: "satD [11, 11, 11, 255, 0, 0, 0, 255, 200, 100, 50, 255] 3 1 0 = Fin 0" "satD [11, 11, 11, 255, 0, 0, 0, 255, 200, 100, 50, 255] 3 2 0 = Fin (3 / 4)"
    by (simp_all add: satD_def chan_def fsub_def fneg_def fadd_def fdiv_def ev)
  have t: "toUint8Clamp (Fin 0) = 0" "toUint8Clamp (Fin (621 / 16)) = 39"
    by (simp_all add: toUint8Clamp_def)
  from generateMetallic_spec[OF len p1 q, of "Fin (1 / 2)"]
  have a: "metallicPixel [11, 11, 11, 255, 0, 0, 0, 255, 200, 100, 50, 255] 3 (Fin (1 / 2)) 1 0 = Fin 0"
    and b: "generateMetallic [11, 11, 11, 255, 0, 0, 0, 255, 200, 100, 50, 255] 3 1 (Fin (1 / 2)) ! ((0 * 3 + 1) * 4) = 0"
    unfolding metallic_value_b t by blast+
  from generateMetallic_spec[OF len p2 q, of "Fin (1 / 2)"]
  have c: "metallicPixel [11, 11, 11, 255, 0, 0, 0, 255, 200, 100, 50, 255] 3 (Fin (1 / 2)) 2 0 = Fin (621 / 16)"
    and d: "generateMetallic [11, 11, 11, 255, 0, 0, 0, 255, 200, 100, 50, 255] 3 1 (Fin (1 / 2)) ! ((0 * 3 + 2) * 4) = 39"
    and e: "generateMetallic [11, 11, 11, 255, 0, 0, 0, 255, 200, 100, 50, 255] 3 1 (Fin (1 / 2)) ! ((0 * 3 + 2) * 4 + 3) = 255"
    unfolding metallic_value_c t by blast+
  show ?thesis using len s a b c d e by simp
qed

text \<open>
  The value is not that of the formula over the real numbers. For a pixel of grey
  level 11 and intensity 0.5 the formula gives \<open>11 * 0.5 = 5.5\<close>, which \<^verbatim>\<open>ToUint8Clamp\<close>
  rounds to the even 6; in doubles \<open>luma\<close> is \<open>10.999999999999998\<close> and the value
  \<open>5.499999999999999\<close> is stored as 5.
\<close>

theorem generateMetallic_formula_counterexample:
  "metallicSpec [11, 11, 11, 255, 0, 0, 0, 255, 200, 100, 50, 255] 3 (1 / 2) 0 0 = 11 / 2 \<and> toUint8Clamp (Fin (11 / 2)) = 6 \<and>
   generateMetallic [11, 11, 11, 255, 0, 0, 0, 255, 200, 100, 50, 255] 3 1 (Fin (1 / 2)) ! 0 = 5"
proof -
  have len: "length ([11, 11, 11, 255, 0, 0, 0, 255, 200, 100, 50, 255] :: byte list) = 3 * 1 * 4" and p: "(0::nat) < 3" and q: "(0::nat) < 1"
    and k: "(0::nat) < 3"
    by simp_all
  have t: "toUint8Clamp (Fin (6192449487634431 / 1125899906842624)) = 5" "toUint8Clamp (Fin (11 / 2)) = 6"
    by (simp_all add: toUint8Clamp_def)
  have "generateMetallic [11, 11, 11, 255, 0, 0, 0, 255, 200, 100, 50, 255] 3 1 (Fin (1 / 2)) ! ((0 * 3 + 0) * 4 + 0) = 5"
    unfolding generateMetallic_bytes[OF len p q k] metallic_value_a t ..
  then show ?thesis using metallicSpec_value_a t(2) by simp
qed

subsection \<open>Resizing\<close>




subsection \<open>Failure and atomicity\<close>

text \<open>
  Claim C6. When the image cannot be loaded the generation fails with the load error
  (\<^verbatim>\<open>Error('Failed to load image')\<close>). The result is either a failure or a complete set
  of five textures, never a part of one: it is a texture set exactly when the image
  loaded, its pixels were read and all five buffers were encoded, so a failure of any
  stage makes the whole generation fail.
\<close>

theorem generation_atomic:
  "(loadImage br imageSrc = None \<longrightarrow> generatePBRTextures br imageSrc options = Inl LoadError) \<and>
   (generatePBRTextures br imageSrc options = Inr t \<longleftrightarrow>
      (\<exists>imgWidth imgHeight width height srcData.
          loadImage br imageSrc = Some (imgWidth, imgHeight) \<and>
          resizeDims imgWidth imgHeight = (width, height) \<and>
          getImageData br imageSrc width height = Inr srcData \<and>
          toDataURL br width height srcData = Inr (albedo t) \<and>
          toDataURL br width height (generateAO srcData width height (aoIntensity options))
            = Inr (ao t) \<and>
          toDataURL br width height
             (generateRoughness srcData width height (roughnessIntensity options))
            = Inr (roughness t) \<and>
          toDataURL br width height
             (generateMetallic srcData width height (metallicIntensity options))
            = Inr (metallic t) \<and>
          toDataURL br width height (generateNormal srcData width height (normalStrength options))
            = Inr (normal t))) \<and>
   ((\<exists>t. generatePBRTextures br imageSrc options = Inr t) \<or>
    (\<exists>e. generatePBRTextures br imageSrc options = Inl e))"
proof (intro conjI)
  show "loadImage br imageSrc = None \<longrightarrow> generatePBRTextures br imageSrc options = Inl LoadError"
    by (simp add: generatePBRTextures_def LoadError_def)
  show "(\<exists>t. generatePBRTextures br imageSrc options = Inr t) \<or>
    (\<exists>e. generatePBRTextures br imageSrc options = Inl e)"
    by (cases "generatePBRTextures br imageSrc options") auto
  show "generatePBRTextures br imageSrc options = Inr t \<longleftrightarrow>
      (\<exists>imgWidth imgHeight width height srcData.
          loadImage br imageSrc = Some (imgWidth, imgHeight) \<and>
          resizeDims imgWidth imgHeight = (width, height) \<and>
          getImageData br imageSrc width height = Inr srcData \<and>
          toDataURL br width height srcData = Inr (albedo t) \<and>
          toDataURL br width height (generateAO srcData width height (aoIntensity options))
            = Inr (ao t) \<and>
          toDataURL br width height
             (generateRoughness srcData width height (roughnessIntensity options))
            = Inr (roughness t) \<and>
          toDataURL br width height
             (generateMetallic srcData width height (metallicIntensity options))
            = Inr (metallic t) \<and>
          toDataURL br width height (generateNormal srcData width height (normalStrength options))
            = Inr (normal t))"
    by (cases t)
       (auto simp add: generatePBRTextures_def generateBuffers_def Let_def
          split: option.splits prod.splits sum.splits)
qed

theorem generation_atomic_witness:
  "loadImage failingBrowser ''photo'' = None \<and>
   generatePBRTextures failingBrowser ''photo'' defaultOptions = Inl LoadError \<and>
   generatePBRTextures constantBrowser ''photo'' defaultOptions =
     Inr \<lparr>albedo = ''data:image/png;base64,'', ao = ''data:image/png;base64,'',
          roughness = ''data:image/png;base64,'', metallic = ''data:image/png;base64,'',
          normal = ''data:image/png;base64,''\<rparr> \<and>
   generatePBRTextures taintedBrowser ''photo'' defaultOptions = Inl (DOMException ''SecurityError'')"
proof -
  let ?t = "\<lparr>albedo = ''data:image/png;base64,'', ao = ''data:image/png;base64,'',
          roughness = ''data:image/png;base64,'', metallic = ''data:image/png;base64,'',
          normal = ''data:image/png;base64,''\<rparr>"
  have l: "loadImage failingBrowser ''photo'' = None"
    by (simp add: failingBrowser_def)
  have a: "generatePBRTextures failingBrowser ''photo'' defaultOptions = Inl LoadError"
    using generation_atomic[of failingBrowser "''photo''" defaultOptions] l by blast
  have r: "resizeDims 1 1 = (1, 1)"
    by (simp add: resizeDims_def maxSize_def)
  have "\<exists>imgWidth imgHeight width height srcData.
          loadImage constantBrowser ''photo'' = Some (imgWidth, imgHeight) \<and>
          resizeDims imgWidth imgHeight = (width, height) \<and>
          getImageData constantBrowser ''photo'' width height = Inr srcData \<and>
          toDataURL constantBrowser width height srcData = Inr (albedo ?t) \<and>
          toDataURL constantBrowser width height
             (generateAO srcData width height (aoIntensity defaultOptions)) = Inr (ao ?t) \<and>
          toDataURL constantBrowser width height
             (generateRoughness srcData width height (roughnessIntensity defaultOptions))
            = Inr (roughness ?t) \<and>
          toDataURL constantBrowser width height
             (generateMetallic srcData width height (metallicIntensity defaultOptions))
            = Inr (metallic ?t) \<and>
          toDataURL constantBrowser width height
             (generateNormal srcData width height (normalStrength defaultOptions))
            = Inr (normal ?t)"
    using r by (intro exI[of _ 1] exI[of _ "[1, 1, 1, 255]"]) (simp add: constantBrowser_def)
  then have b: "generatePBRTextures constantBrowser ''photo'' defaultOptions = Inr ?t"
    using generation_atomic[of constantBrowser "''photo''" defaultOptions ?t] by blast
  have "\<not> (\<exists>t. generatePBRTextures taintedBrowser ''photo'' defaultOptions = Inr t)"
  proof
    assume "\<exists>t. generatePBRTextures taintedBrowser ''photo'' defaultOptions = Inr t"
    then obtain t where "generatePBRTextures taintedBrowser ''photo'' defaultOptions = Inr t" ..
    then have "\<exists>width height srcData. toDataURL taintedBrowser width height srcData = Inr (albedo t)"
      using generation_atomic[of taintedBrowser "''photo''" defaultOptions t] by blast
    then show False by (simp add: taintedBrowser_def)
  qed
  then have c: "generatePBRTextures taintedBrowser ''photo'' defaultOptions =
      Inl (DOMException ''SecurityError'')"
    by (simp add: generatePBRTextures_def taintedBrowser_def r Let_def)
  show ?thesis using l a b c by simp
qed

subsection \<open>Monotonicity of the ambient occlusion\<close>

text \<open>
  Claim C9. The AO output is antitone in \<open>aoIntensity\<close>: for every well-formed source
  buffer, every pixel and all finite intensities \<open>a1 \<le> a2\<close>, the value computed for
  \<open>a2\<close> is at most the value computed for \<open>a1\<close>, in double arithmetic as in the formula
  over the real numbers, and so is each of the stored R, G and B bytes. (It holds at
  every pixel, whether its local contrast is zero or not.)
\<close>

theorem generateAO_antitone:
  assumes "length srcData = width * height * 4" "x < width" "y < height" "a1 \<le> a2"
  shows "aoSpec srcData width height a2 x y \<le> aoSpec srcData width height a1 x y \<and>
         nle (aoPixel srcData width height (Fin a2) x y) (aoPixel srcData width height (Fin a1) x y) \<and>
         generateAO srcData width height (Fin a2) ! ((y * width + x) * 4) \<le>
           generateAO srcData width height (Fin a1) ! ((y * width + x) * 4) \<and>
         generateAO srcData width height (Fin a2) ! ((y * width + x) * 4 + 1) \<le>
           generateAO srcData width height (Fin a1) ! ((y * width + x) * 4 + 1) \<and>
         generateAO srcData width height (Fin a2) ! ((y * width + x) * 4 + 2) \<le>
           generateAO srcData width height (Fin a1) ! ((y * width + x) * 4 + 2)"
proof -
  note a = aoD_antitone[OF assms(2,3,4), of srcData]
  note m = toUint8Clamp_mono[OF a]
  have b: "generateAO srcData width height a ! ((y * width + x) * 4 + k) =
      toUint8Clamp (aoD srcData width height a x y)" if "k < 3" for a k
    by (rule generateAO_bytes[OF assms(1,2,3) that])
  from b[of 0] b[of 1] b[of 2] m a aoSpec_antitone[OF assms(4)] aoPixel_wf[OF assms(1,2,3)]
  show ?thesis by simp
qed

theorem generateAO_antitone_witness:
  "length ([101, 101, 101, 255, 121, 121, 121, 255] :: byte list) = 2 * 1 * 4 \<and> (0::nat) < 2 \<and>
   (0::nat) < 1 \<and> (1::real) \<le> 2 \<and>
   avgContrast [101, 101, 101, 255, 121, 121, 121, 255] 2 1 0 0 = 10 \<and>
   aoSpec [101, 101, 101, 255, 121, 121, 121, 255] 2 1 2 0 0 = 168.8 \<and>
   aoSpec [101, 101, 101, 255, 121, 121, 121, 255] 2 1 1 0 0 = 188.8 \<and>
   nle (aoPixel [101, 101, 101, 255, 121, 121, 121, 255] 2 1 (Fin 2) 0 0) (aoPixel [101, 101, 101, 255, 121, 121, 121, 255] 2 1 (Fin 1) 0 0) \<and>
   generateAO [101, 101, 101, 255, 121, 121, 121, 255] 2 1 (Fin 2) ! 0 \<le> generateAO [101, 101, 101, 255, 121, 121, 121, 255] 2 1 (Fin 1) ! 0"
proof -
  let ?src = "[101, 101, 101, 255, 121, 121, 121, 255] :: byte list"
  have len: "length ?src = 2 * 1 * 4" and p: "(0::nat) < 2" and q: "(0::nat) < 1"
    and a: "(1::real) \<le> 2"
    by simp_all
  from generateAO_antitone[OF len p q a]
  have "nle (aoPixel ?src 2 1 (Fin 2) 0 0) (aoPixel ?src 2 1 (Fin 1) 0 0)"
    and "generateAO ?src 2 1 (Fin 2) ! ((0 * 2 + 0) * 4) \<le> generateAO ?src 2 1 (Fin 1) ! ((0 * 2 + 0) * 4)"
    by blast+
  then show ?thesis using avgContrast_value_a aoSpec_value_a by simp
qed

end
